(* ===== verification/VmPrelude.thy ===== *)
theory VmPrelude
  imports Main "HOL-Library.Word" "HOL-Library.Signed_Division"
begin

text \<open>
  What every component of the development shares: the fixed-width types of the C++ code,
  the conversions it writes as casts, results of fallible operations, the decimal texts
  of \<^verbatim>\<open>std::to_string\<close>, and the list lemmas the component proofs use.
\<close>

named_theorems vm_defs \<open>definitions the component proofs unfold\<close>

section \<open>Machine integers and results\<close>

type_synonym u8 = "8 word"
type_synonym u32 = "32 word"
type_synonym u64 = "64 word"

text \<open>\<^verbatim>\<open>int32_t\<close> and \<^verbatim>\<open>int64_t\<close> are the same words, read with \<open>sint\<close>.\<close>

type_synonym i32 = "32 word"
type_synonym i64 = "64 word"

text \<open>
  A C++ function that returns \<^verbatim>\<open>false\<close> after assigning its \<^verbatim>\<open>error\<close> argument is a
  function into this type: \<open>Inl\<close> carries the message.
\<close>

type_synonym 'a result = "string + 'a"

definition rbind :: "'e + 'a \<Rightarrow> ('a \<Rightarrow> 'e + 'b) \<Rightarrow> 'e + 'b" where
  "rbind r f = (case r of Inl e \<Rightarrow> Inl e | Inr x \<Rightarrow> f x)"

lemma rbind_simps [simp]:
  "rbind (Inl e) f = Inl e" "rbind (Inr x) f = f x"
  by (simp_all add: rbind_def)

lemma rbind_Inr_iff: "rbind r f = Inr y \<longleftrightarrow> (\<exists>x. r = Inr x \<and> f x = Inr y)"
  by (cases r) auto

lemma rbind_Inl_iff: "rbind r f = Inl e \<longleftrightarrow> r = Inl e \<or> (\<exists>x. r = Inr x \<and> f x = Inl e)"
  by (cases r) auto

text \<open>
  \<open>sext32 x\<close> is \<^verbatim>\<open>static_cast<uint64_t>(static_cast<int64_t>(static_cast<int32_t>(x)))\<close>;
  \<open>zext32 x\<close> is \<^verbatim>\<open>static_cast<uint64_t>(static_cast<uint32_t>(x))\<close>.
\<close>

definition sext32 :: "u64 \<Rightarrow> u64" where
  "sext32 x = (scast (ucast x :: u32) :: u64)"

definition zext32 :: "u64 \<Rightarrow> u64" where
  "zext32 x = (ucast (ucast x :: u32) :: u64)"

lemma sext32_idem [simp]: "sext32 (sext32 x) = sext32 x"
proof -
  have "(ucast (scast (y :: u32) :: u64) :: u32) = y" for y
    by (rule bit_word_eqI) (auto simp: bit_ucast_iff bit_signed_iff min_def dest: le_antisym)
  then show ?thesis by (simp add: sext32_def)
qed

lemma zext32_idem [simp]: "zext32 (zext32 x) = zext32 x"
  by (rule bit_word_eqI) (auto simp: zext32_def bit_ucast_iff)

lemma sint_sext32: "sint (sext32 x) = sint (ucast x :: u32)"
  by (simp add: sext32_def sint_up_scast is_up)

section \<open>Decimal texts\<close>

text \<open>\<^verbatim>\<open>std::to_string\<close> of an unsigned and of a signed value.\<close>

definition dec_digit :: "nat \<Rightarrow> char" where
  "dec_digit d = char_of (48 + d)"

fun dec_nat :: "nat \<Rightarrow> string" where
  "dec_nat n = (if n < 10 then [dec_digit n] else dec_nat (n div 10) @ [dec_digit (n mod 10)])"

declare dec_nat.simps [simp del]

definition dec_int :: "int \<Rightarrow> string" where
  "dec_int i = (if i < 0 then CHR ''-'' # dec_nat (nat (- i)) else dec_nat (nat i))"

text \<open>The number a decimal text denotes; the inverse of \<open>dec_nat\<close>.\<close>

definition digit_value :: "char \<Rightarrow> nat" where
  "digit_value c = of_char c - 48"

definition undec :: "string \<Rightarrow> nat" where
  "undec s = foldl (\<lambda>a c. 10 * a + digit_value c) 0 s"

lemma digit_value_dec_digit: "d < 10 \<Longrightarrow> digit_value (dec_digit d) = d"
  by (simp add: digit_value_def dec_digit_def)

lemma undec_snoc: "undec (s @ [c]) = 10 * undec s + digit_value c"
  by (simp add: undec_def)

lemma undec_dec_nat: "undec (dec_nat n) = n"
proof (induction n rule: dec_nat.induct)
  case (1 n)
  show ?case
  proof (cases "n < 10")
    case True
    then show ?thesis
      by (subst dec_nat.simps) (simp add: undec_def digit_value_dec_digit)
  next
    case False
    then show ?thesis
      using "1.IH" by (subst dec_nat.simps) (simp add: undec_snoc digit_value_dec_digit)
  qed
qed

lemma dec_nat_inj: "dec_nat m = dec_nat n \<longleftrightarrow> m = n"
  by (metis undec_dec_nat)

lemma dec_nat_nonempty [simp]: "dec_nat n \<noteq> []"
  by (subst dec_nat.simps) simp

section \<open>Lists\<close>

lemma nth_list_update_if:
  "j < length xs \<Longrightarrow> (xs[i := v]) ! j = (if i = j then v else xs ! j)"
  by (auto simp: nth_list_update)

lemma Cons_length_le: "length (x # xs) \<le> Suc n \<longleftrightarrow> length xs \<le> n"
  by simp

text \<open>
  A range of a list overwritten with one value: the loop
  \<^verbatim>\<open>for (i = lo; i < hi; ++i) xs[i] = v\<close>.
\<close>

definition fill_range :: "nat \<Rightarrow> nat \<Rightarrow> 'a \<Rightarrow> 'a list \<Rightarrow> 'a list" where
  "fill_range lo hi v xs = fold (\<lambda>i ys. ys[i := v]) [lo..<hi] xs"

lemma fold_update_length [simp]: "length (fold (\<lambda>i ys. ys[i := g i]) is xs) = length xs"
  by (induction "is" arbitrary: xs) auto

lemma fold_update_nth:
  "j < length xs \<Longrightarrow>
     fold (\<lambda>i ys. ys[i := g i]) is xs ! j = (if j \<in> set is then g j else xs ! j)"
  by (induction "is" arbitrary: xs) (auto simp: nth_list_update)

lemma length_fill_range [simp]: "length (fill_range lo hi v xs) = length xs"
  by (simp add: fill_range_def fold_update_length [where g = "\<lambda>_. v"])

lemma nth_fill_range:
  "j < length xs \<Longrightarrow> fill_range lo hi v xs ! j = (if lo \<le> j \<and> j < hi then v else xs ! j)"
  using fold_update_nth [of j xs "\<lambda>_. v" "[lo..<hi]"] by (auto simp: fill_range_def)

text \<open>
  The copy loop \<^verbatim>\<open>for (i = 0; i < n; ++i) xs[dst + i] = xs[src + i]\<close>, reading the list as it
  is being written.
\<close>

definition copy_range :: "nat \<Rightarrow> nat \<Rightarrow> nat \<Rightarrow> 'a list \<Rightarrow> 'a list" where
  "copy_range dst src n xs = fold (\<lambda>i ys. ys[dst + i := ys ! (src + i)]) [0..<n] xs"

lemma copy_range_Suc:
  "copy_range dst src (Suc n) xs =
     (copy_range dst src n xs)[dst + n := copy_range dst src n xs ! (src + n)]"
  by (simp add: copy_range_def)

lemma copy_range_0 [simp]: "copy_range dst src 0 xs = xs"
  by (simp add: copy_range_def)

lemma length_copy_range [simp]: "length (copy_range dst src n xs) = length xs"
  by (induction n) (auto simp: copy_range_Suc)

lemma nth_copy_range:
  assumes "src + n \<le> dst" and "dst + n \<le> length xs" and "j < length xs"
  shows "copy_range dst src n xs ! j =
    (if dst \<le> j \<and> j < dst + n then xs ! (src + (j - dst)) else xs ! j)"
  using assms
proof (induction n arbitrary: j)
  case 0
  then show ?case by auto
next
  case (Suc n)
  have old: "copy_range dst src n xs ! (src + n) = xs ! (src + n)"
    using Suc.prems by (subst Suc.IH) auto
  show ?case
  proof (cases "j = dst + n")
    case True
    then show ?thesis using Suc.prems old by (simp add: copy_range_Suc)
  next
    case False
    then show ?thesis using Suc.prems by (simp add: copy_range_Suc Suc.IH)
  qed
qed

section \<open>Transition systems\<close>

text \<open>
  The contract of a component whose every step keeps an invariant: what a run of any length
  keeps follows once, for the heap, the kernel and the debug session alike.
\<close>

locale transition_invariant =
  fixes inv :: "'s \<Rightarrow> bool" and step :: "'s \<Rightarrow> 's \<Rightarrow> bool"
  assumes step_inv: "inv s \<Longrightarrow> step s s' \<Longrightarrow> inv s'"
begin

lemma run_inv: "step\<^sup>*\<^sup>* s s' \<Longrightarrow> inv s \<Longrightarrow> inv s'"
  by (induction rule: rtranclp_induct) (auto dest: step_inv)

end

text \<open>
  A step that never decreases a measure, and in which a position below the measure that does
  not have a property never gets it.
\<close>

locale no_revival = transition_invariant inv step
  for inv :: "'s \<Rightarrow> bool" and step :: "'s \<Rightarrow> 's \<Rightarrow> bool" +
  fixes frontier :: "'s \<Rightarrow> nat" and alive :: "'s \<Rightarrow> nat \<Rightarrow> bool"
  assumes step_frontier: "inv s \<Longrightarrow> step s s' \<Longrightarrow> frontier s \<le> frontier s'"
    and step_no_revival: "inv s \<Longrightarrow> step s s' \<Longrightarrow> alive s' i \<Longrightarrow> alive s i \<or> frontier s \<le> i"
begin

lemma run_frontier: "step\<^sup>*\<^sup>* s s' \<Longrightarrow> inv s \<Longrightarrow> frontier s \<le> frontier s'"
proof (induction rule: rtranclp_induct)
  case (step y z)
  then show ?case using run_inv [OF step.hyps(1)] step_frontier [of y z] by simp
qed simp

lemma never_revived:
  "step\<^sup>*\<^sup>* s s' \<Longrightarrow> inv s \<Longrightarrow> i < frontier s \<Longrightarrow> \<not> alive s i \<Longrightarrow> \<not> alive s' i"
proof (induction rule: rtranclp_induct)
  case (step y z)
  then show ?case
    using run_inv [OF step.hyps(1)] run_frontier [OF step.hyps(1)] step_no_revival [of y z i] by auto
qed simp

end

end
