(* ===== verification/Ir.thy ===== *)
theory Ir
  imports VmPrelude
begin

text \<open>
  The canonical IR (\<^verbatim>\<open>include/primec/Ir.h\<close>): opcodes, effect masks, print immediates and
  the module data model. A C++ \<^verbatim>\<open>enum class\<close> with a fixed underlying type holds every value
  of that type (the deserializer casts into it and the validator checks its range), so each
  enumeration is the word type of its underlying integer, with its enumerators as constants.
\<close>

unbundle bit_operations_syntax

section \<open>Opcodes\<close>

text \<open>
  \<^verbatim>\<open>enum class IrOpcode : uint8_t\<close>: a type of its own over the byte it is stored as;
  \<open>opcodeValue\<close> is \<^verbatim>\<open>static_cast<uint8_t>(op)\<close>.
\<close>

datatype IrOpcode = Opcode (opcodeValue: u8)

abbreviation (input) PushI32 :: IrOpcode where "PushI32 \<equiv> Opcode 1"
abbreviation (input) PushI64 :: IrOpcode where "PushI64 \<equiv> Opcode 2"
abbreviation (input) LoadLocal :: IrOpcode where "LoadLocal \<equiv> Opcode 3"
abbreviation (input) StoreLocal :: IrOpcode where "StoreLocal \<equiv> Opcode 4"
abbreviation (input) AddressOfLocal :: IrOpcode where "AddressOfLocal \<equiv> Opcode 5"
abbreviation (input) LoadIndirect :: IrOpcode where "LoadIndirect \<equiv> Opcode 6"
abbreviation (input) StoreIndirect :: IrOpcode where "StoreIndirect \<equiv> Opcode 7"
abbreviation (input) Dup :: IrOpcode where "Dup \<equiv> Opcode 8"
abbreviation (input) Pop :: IrOpcode where "Pop \<equiv> Opcode 9"
abbreviation (input) AddI32 :: IrOpcode where "AddI32 \<equiv> Opcode 10"
abbreviation (input) SubI32 :: IrOpcode where "SubI32 \<equiv> Opcode 11"
abbreviation (input) MulI32 :: IrOpcode where "MulI32 \<equiv> Opcode 12"
abbreviation (input) DivI32 :: IrOpcode where "DivI32 \<equiv> Opcode 13"
abbreviation (input) NegI32 :: IrOpcode where "NegI32 \<equiv> Opcode 14"
abbreviation (input) AddI64 :: IrOpcode where "AddI64 \<equiv> Opcode 15"
abbreviation (input) SubI64 :: IrOpcode where "SubI64 \<equiv> Opcode 16"
abbreviation (input) MulI64 :: IrOpcode where "MulI64 \<equiv> Opcode 17"
abbreviation (input) DivI64 :: IrOpcode where "DivI64 \<equiv> Opcode 18"
abbreviation (input) DivU64 :: IrOpcode where "DivU64 \<equiv> Opcode 19"
abbreviation (input) NegI64 :: IrOpcode where "NegI64 \<equiv> Opcode 20"
abbreviation (input) CmpEqI32 :: IrOpcode where "CmpEqI32 \<equiv> Opcode 21"
abbreviation (input) CmpNeI32 :: IrOpcode where "CmpNeI32 \<equiv> Opcode 22"
abbreviation (input) CmpLtI32 :: IrOpcode where "CmpLtI32 \<equiv> Opcode 23"
abbreviation (input) CmpLeI32 :: IrOpcode where "CmpLeI32 \<equiv> Opcode 24"
abbreviation (input) CmpGtI32 :: IrOpcode where "CmpGtI32 \<equiv> Opcode 25"
abbreviation (input) CmpGeI32 :: IrOpcode where "CmpGeI32 \<equiv> Opcode 26"
abbreviation (input) CmpEqI64 :: IrOpcode where "CmpEqI64 \<equiv> Opcode 27"
abbreviation (input) CmpNeI64 :: IrOpcode where "CmpNeI64 \<equiv> Opcode 28"
abbreviation (input) CmpLtI64 :: IrOpcode where "CmpLtI64 \<equiv> Opcode 29"
abbreviation (input) CmpLeI64 :: IrOpcode where "CmpLeI64 \<equiv> Opcode 30"
abbreviation (input) CmpGtI64 :: IrOpcode where "CmpGtI64 \<equiv> Opcode 31"
abbreviation (input) CmpGeI64 :: IrOpcode where "CmpGeI64 \<equiv> Opcode 32"
abbreviation (input) CmpLtU64 :: IrOpcode where "CmpLtU64 \<equiv> Opcode 33"
abbreviation (input) CmpLeU64 :: IrOpcode where "CmpLeU64 \<equiv> Opcode 34"
abbreviation (input) CmpGtU64 :: IrOpcode where "CmpGtU64 \<equiv> Opcode 35"
abbreviation (input) CmpGeU64 :: IrOpcode where "CmpGeU64 \<equiv> Opcode 36"
abbreviation (input) JumpIfZero :: IrOpcode where "JumpIfZero \<equiv> Opcode 37"
abbreviation (input) Jump :: IrOpcode where "Jump \<equiv> Opcode 38"
abbreviation (input) ReturnVoid :: IrOpcode where "ReturnVoid \<equiv> Opcode 39"
abbreviation (input) ReturnI32 :: IrOpcode where "ReturnI32 \<equiv> Opcode 40"
abbreviation (input) ReturnI64 :: IrOpcode where "ReturnI64 \<equiv> Opcode 41"
abbreviation (input) PrintI32 :: IrOpcode where "PrintI32 \<equiv> Opcode 42"
abbreviation (input) PrintI64 :: IrOpcode where "PrintI64 \<equiv> Opcode 43"
abbreviation (input) PrintU64 :: IrOpcode where "PrintU64 \<equiv> Opcode 44"
abbreviation (input) PrintString :: IrOpcode where "PrintString \<equiv> Opcode 45"
abbreviation (input) PushArgc :: IrOpcode where "PushArgc \<equiv> Opcode 46"
abbreviation (input) PrintArgv :: IrOpcode where "PrintArgv \<equiv> Opcode 47"
abbreviation (input) PrintArgvUnsafe :: IrOpcode where "PrintArgvUnsafe \<equiv> Opcode 48"
abbreviation (input) LoadStringByte :: IrOpcode where "LoadStringByte \<equiv> Opcode 49"
abbreviation (input) LoadStringLength :: IrOpcode where "LoadStringLength \<equiv> Opcode 50"
abbreviation (input) FileOpenRead :: IrOpcode where "FileOpenRead \<equiv> Opcode 51"
abbreviation (input) FileOpenWrite :: IrOpcode where "FileOpenWrite \<equiv> Opcode 52"
abbreviation (input) FileOpenAppend :: IrOpcode where "FileOpenAppend \<equiv> Opcode 53"
abbreviation (input) FileOpenReadDynamic :: IrOpcode where "FileOpenReadDynamic \<equiv> Opcode 54"
abbreviation (input) FileOpenWriteDynamic :: IrOpcode where "FileOpenWriteDynamic \<equiv> Opcode 55"
abbreviation (input) FileOpenAppendDynamic :: IrOpcode where "FileOpenAppendDynamic \<equiv> Opcode 56"
abbreviation (input) FileReadByte :: IrOpcode where "FileReadByte \<equiv> Opcode 57"
abbreviation (input) FileClose :: IrOpcode where "FileClose \<equiv> Opcode 58"
abbreviation (input) FileFlush :: IrOpcode where "FileFlush \<equiv> Opcode 59"
abbreviation (input) FileWriteI32 :: IrOpcode where "FileWriteI32 \<equiv> Opcode 60"
abbreviation (input) FileWriteI64 :: IrOpcode where "FileWriteI64 \<equiv> Opcode 61"
abbreviation (input) FileWriteU64 :: IrOpcode where "FileWriteU64 \<equiv> Opcode 62"
abbreviation (input) FileWriteString :: IrOpcode where "FileWriteString \<equiv> Opcode 63"
abbreviation (input) FileWriteByte :: IrOpcode where "FileWriteByte \<equiv> Opcode 64"
abbreviation (input) FileWriteNewline :: IrOpcode where "FileWriteNewline \<equiv> Opcode 65"
abbreviation (input) PushF32 :: IrOpcode where "PushF32 \<equiv> Opcode 66"
abbreviation (input) PushF64 :: IrOpcode where "PushF64 \<equiv> Opcode 67"
abbreviation (input) AddF32 :: IrOpcode where "AddF32 \<equiv> Opcode 68"
abbreviation (input) SubF32 :: IrOpcode where "SubF32 \<equiv> Opcode 69"
abbreviation (input) MulF32 :: IrOpcode where "MulF32 \<equiv> Opcode 70"
abbreviation (input) DivF32 :: IrOpcode where "DivF32 \<equiv> Opcode 71"
abbreviation (input) NegF32 :: IrOpcode where "NegF32 \<equiv> Opcode 72"
abbreviation (input) AddF64 :: IrOpcode where "AddF64 \<equiv> Opcode 73"
abbreviation (input) SubF64 :: IrOpcode where "SubF64 \<equiv> Opcode 74"
abbreviation (input) MulF64 :: IrOpcode where "MulF64 \<equiv> Opcode 75"
abbreviation (input) DivF64 :: IrOpcode where "DivF64 \<equiv> Opcode 76"
abbreviation (input) NegF64 :: IrOpcode where "NegF64 \<equiv> Opcode 77"
abbreviation (input) CmpEqF32 :: IrOpcode where "CmpEqF32 \<equiv> Opcode 78"
abbreviation (input) CmpNeF32 :: IrOpcode where "CmpNeF32 \<equiv> Opcode 79"
abbreviation (input) CmpLtF32 :: IrOpcode where "CmpLtF32 \<equiv> Opcode 80"
abbreviation (input) CmpLeF32 :: IrOpcode where "CmpLeF32 \<equiv> Opcode 81"
abbreviation (input) CmpGtF32 :: IrOpcode where "CmpGtF32 \<equiv> Opcode 82"
abbreviation (input) CmpGeF32 :: IrOpcode where "CmpGeF32 \<equiv> Opcode 83"
abbreviation (input) CmpEqF64 :: IrOpcode where "CmpEqF64 \<equiv> Opcode 84"
abbreviation (input) CmpNeF64 :: IrOpcode where "CmpNeF64 \<equiv> Opcode 85"
abbreviation (input) CmpLtF64 :: IrOpcode where "CmpLtF64 \<equiv> Opcode 86"
abbreviation (input) CmpLeF64 :: IrOpcode where "CmpLeF64 \<equiv> Opcode 87"
abbreviation (input) CmpGtF64 :: IrOpcode where "CmpGtF64 \<equiv> Opcode 88"
abbreviation (input) CmpGeF64 :: IrOpcode where "CmpGeF64 \<equiv> Opcode 89"
abbreviation (input) ConvertI32ToF32 :: IrOpcode where "ConvertI32ToF32 \<equiv> Opcode 90"
abbreviation (input) ConvertI32ToF64 :: IrOpcode where "ConvertI32ToF64 \<equiv> Opcode 91"
abbreviation (input) ConvertI64ToF32 :: IrOpcode where "ConvertI64ToF32 \<equiv> Opcode 92"
abbreviation (input) ConvertI64ToF64 :: IrOpcode where "ConvertI64ToF64 \<equiv> Opcode 93"
abbreviation (input) ConvertU64ToF32 :: IrOpcode where "ConvertU64ToF32 \<equiv> Opcode 94"
abbreviation (input) ConvertU64ToF64 :: IrOpcode where "ConvertU64ToF64 \<equiv> Opcode 95"
abbreviation (input) ConvertF32ToI32 :: IrOpcode where "ConvertF32ToI32 \<equiv> Opcode 96"
abbreviation (input) ConvertF32ToI64 :: IrOpcode where "ConvertF32ToI64 \<equiv> Opcode 97"
abbreviation (input) ConvertF32ToU64 :: IrOpcode where "ConvertF32ToU64 \<equiv> Opcode 98"
abbreviation (input) ConvertF64ToI32 :: IrOpcode where "ConvertF64ToI32 \<equiv> Opcode 99"
abbreviation (input) ConvertF64ToI64 :: IrOpcode where "ConvertF64ToI64 \<equiv> Opcode 100"
abbreviation (input) ConvertF64ToU64 :: IrOpcode where "ConvertF64ToU64 \<equiv> Opcode 101"
abbreviation (input) ConvertF32ToF64 :: IrOpcode where "ConvertF32ToF64 \<equiv> Opcode 102"
abbreviation (input) ConvertF64ToF32 :: IrOpcode where "ConvertF64ToF32 \<equiv> Opcode 103"
abbreviation (input) ReturnF32 :: IrOpcode where "ReturnF32 \<equiv> Opcode 104"
abbreviation (input) ReturnF64 :: IrOpcode where "ReturnF64 \<equiv> Opcode 105"
abbreviation (input) PrintStringDynamic :: IrOpcode where "PrintStringDynamic \<equiv> Opcode 106"
abbreviation (input) Call :: IrOpcode where "Call \<equiv> Opcode 107"
abbreviation (input) CallVoid :: IrOpcode where "CallVoid \<equiv> Opcode 108"
abbreviation (input) HeapAlloc :: IrOpcode where "HeapAlloc \<equiv> Opcode 109"
abbreviation (input) HeapFree :: IrOpcode where "HeapFree \<equiv> Opcode 110"
abbreviation (input) HeapRealloc :: IrOpcode where "HeapRealloc \<equiv> Opcode 111"
abbreviation (input) FileWriteStringDynamic :: IrOpcode where "FileWriteStringDynamic \<equiv> Opcode 112"

section \<open>Masks and print immediates\<close>

definition IrSchemaMagic :: u32 where "IrSchemaMagic = 0x50534952"
definition IrSchemaVersion :: u32 where "IrSchemaVersion = 23"
definition IrSchemaMinimumSupportedVersion :: u32 where
  "IrSchemaMinimumSupportedVersion = IrSchemaVersion"
definition IrSchemaMaximumSupportedVersion :: u32 where
  "IrSchemaMaximumSupportedVersion = IrSchemaVersion"

definition EffectIoOut :: u64 where "EffectIoOut = push_bit 0 1"
definition EffectIoErr :: u64 where "EffectIoErr = push_bit 1 1"
definition EffectHeapAlloc :: u64 where "EffectHeapAlloc = push_bit 2 1"
definition EffectPathSpaceNotify :: u64 where "EffectPathSpaceNotify = push_bit 3 1"
definition EffectPathSpaceInsert :: u64 where "EffectPathSpaceInsert = push_bit 4 1"
definition EffectPathSpaceTake :: u64 where "EffectPathSpaceTake = push_bit 5 1"
definition EffectFileWrite :: u64 where "EffectFileWrite = push_bit 6 1"
definition EffectGpuDispatch :: u64 where "EffectGpuDispatch = push_bit 7 1"
definition EffectPathSpaceBind :: u64 where "EffectPathSpaceBind = push_bit 8 1"
definition EffectPathSpaceSchedule :: u64 where "EffectPathSpaceSchedule = push_bit 9 1"
definition EffectFileRead :: u64 where "EffectFileRead = push_bit 10 1"
definition EffectTask :: u64 where "EffectTask = push_bit 11 1"
definition FileReadEofCode :: u32 where "FileReadEofCode = 65536"
definition InstrumentationTailExecution :: u32 where "InstrumentationTailExecution = push_bit 0 1"

definition PrintFlagNewline :: u64 where "PrintFlagNewline = push_bit 0 1"
definition PrintFlagStderr :: u64 where "PrintFlagStderr = push_bit 1 1"
definition PrintFlagMask :: u64 where "PrintFlagMask = (PrintFlagNewline OR PrintFlagStderr)"
definition PrintStringIndexShift :: nat where "PrintStringIndexShift = 2"
definition IrSlotBytes :: u64 where "IrSlotBytes = 16"

definition encodePrintFlags :: "bool \<Rightarrow> bool \<Rightarrow> u64" where
  "encodePrintFlags newline stderrOut =
     ((if newline then PrintFlagNewline else 0) OR (if stderrOut then PrintFlagStderr else 0))"

definition encodePrintStringImm :: "u64 \<Rightarrow> u64 \<Rightarrow> u64" where
  "encodePrintStringImm stringIndex flags =
     (push_bit PrintStringIndexShift stringIndex OR (flags AND PrintFlagMask))"

definition decodePrintFlags :: "u64 \<Rightarrow> u64" where
  "decodePrintFlags im = (im AND PrintFlagMask)"

definition decodePrintStringIndex :: "u64 \<Rightarrow> u64" where
  "decodePrintStringIndex im = drop_bit PrintStringIndexShift im"

section \<open>The module data model\<close>

text \<open>\<^verbatim>\<open>IrStructPaddingKind\<close>, \<^verbatim>\<open>IrStructFieldCategory\<close>, \<^verbatim>\<open>IrStructVisibility\<close>,
  \<^verbatim>\<open>IrSourceMapProvenance\<close> (all \<^verbatim>\<open>uint8_t\<close>) and \<^verbatim>\<open>IrSchedulingScope\<close> (\<^verbatim>\<open>uint32_t\<close>).\<close>

type_synonym IrStructFieldCategory = u8
type_synonym IrStructPaddingKind = u8
type_synonym IrStructVisibility = u8
type_synonym IrSchedulingScope = u32
type_synonym IrSourceMapProvenance = u8

definition VisibilityPrivate :: IrStructVisibility where "VisibilityPrivate = 0"
definition VisibilityPublic :: IrStructVisibility where "VisibilityPublic = 2"
definition SchedulingDefault :: IrSchedulingScope where "SchedulingDefault = 0"
definition ProvenanceUnknown :: IrSourceMapProvenance where "ProvenanceUnknown = 0"
definition ProvenanceCanonicalAst :: IrSourceMapProvenance where "ProvenanceCanonicalAst = 1"
definition ProvenanceSyntheticIr :: IrSourceMapProvenance where "ProvenanceSyntheticIr = 2"

record IrStructField =
  fld_name :: string
  fld_envelope :: string
  offsetBytes :: u32
  sizeBytes :: u32
  fld_alignmentBytes :: u32
  paddingKind :: IrStructPaddingKind
  category :: IrStructFieldCategory
  visibility :: IrStructVisibility
  isStatic :: bool

record IrStructLayout =
  lay_name :: string
  totalSizeBytes :: u32
  lay_alignmentBytes :: u32
  lay_fields :: "IrStructField list"

record IrExecutionMetadata =
  effectMask :: u64
  capabilityMask :: u64
  schedulingScope :: IrSchedulingScope
  instrumentationFlags :: u32

record IrInstruction =
  op :: IrOpcode
  imm :: u64
  debugId :: u32

record IrLocalDebugSlot =
  slotIndex :: u32
  slot_name :: string
  typeName :: string

record IrInstructionSourceMapEntry =
  sm_debugId :: u32
  line :: u32
  column :: u32
  provenance :: IrSourceMapProvenance
  sourceUnit :: string

record IrFunction =
  fn_name :: string
  metadata :: IrExecutionMetadata
  parameterCount :: u32
  localDebugSlots :: "IrLocalDebugSlot list"
  instructions :: "IrInstruction list"

record IrModule =
  schemaVersion :: u32
  mod_functions :: "IrFunction list"
  entryIndex :: i32
  stringTable :: "string list"
  structLayouts :: "IrStructLayout list"
  instructionSourceMap :: "IrInstructionSourceMapEntry list"

text \<open>
  The guard every consumer of a module starts with,
  \<^verbatim>\<open>module.entryIndex < 0 || static_cast<size_t>(module.entryIndex) >= module.functions.size()\<close>,
  negated.
\<close>

definition entry_in_range :: "IrModule \<Rightarrow> bool" where
  "entry_in_range m \<longleftrightarrow>
     \<not> (sint (entryIndex m) < 0 \<or> nat (sint (entryIndex m)) \<ge> length (mod_functions m))"

definition entry_function :: "IrModule \<Rightarrow> nat" where
  "entry_function m = nat (sint (entryIndex m))"

lemma entry_in_rangeD: "entry_in_range m \<Longrightarrow> entry_function m < length (mod_functions m)"
  by (simp add: entry_in_range_def entry_function_def)

lemmas print_flag_defs =
  PrintFlagNewline_def PrintFlagStderr_def PrintFlagMask_def PrintStringIndexShift_def

lemma PrintFlagMask_3: "PrintFlagMask = 3"
  by (simp add: print_flag_defs push_bit_eq_mult)

lemma decode_encode_print_flags:
  "decodePrintFlags (encodePrintFlags n e) = encodePrintFlags n e"
  by (cases n; cases e)
    (simp_all add: decodePrintFlags_def encodePrintFlags_def print_flag_defs push_bit_eq_mult)

end
