(* ===== verification/VmNumeric.thy ===== *)
theory VmNumeric
  imports Ir
begin

text \<open>
  The pure numeric opcodes of the VM (\<^verbatim>\<open>src/runtime/VmKernelBoundary.cpp\<close>, and the bit
  casts of \<^verbatim>\<open>src/runtime/VmNumericHelpers.h\<close>). The operand stack is a list with its top
  (\<^verbatim>\<open>stack.back()\<close>) first. A handler's outcome carries the stack it leaves behind, because
  a debug session shows that stack after a fault too; undefined behaviour of C++ (signed
  overflow of \<^verbatim>\<open>/\<close> and unary \<^verbatim>\<open>-\<close>, a float-to-integer cast out of range) is an outcome of
  its own.
\<close>

section \<open>Floating point\<close>

datatype FloatBinop = FloatAdd | FloatSub | FloatMul | FloatDiv

text \<open>
  Rounded arithmetic and rounded conversions are the host's floating point unit: arguments
  of the model, on the raw bits the VM keeps on its stack. Comparison, negation and the
  truncating casts do not round; they are written out on the IEEE 754 fields.
\<close>

record Fpu =
  f32_binop :: "FloatBinop \<Rightarrow> u32 \<Rightarrow> u32 \<Rightarrow> u32"
  f64_binop :: "FloatBinop \<Rightarrow> u64 \<Rightarrow> u64 \<Rightarrow> u64"
  f32_of_int :: "int \<Rightarrow> u32"
  f64_of_int :: "int \<Rightarrow> u64"
  f64_of_f32 :: "u32 \<Rightarrow> u64"
  f32_of_f64 :: "u64 \<Rightarrow> u32"

text \<open>
  \<^verbatim>\<open>bitsToF32\<close> keeps the low 32 bits of a stack slot, \<^verbatim>\<open>f32ToBits\<close> zero-extends;
  the 64-bit casts copy all bits.
\<close>

definition bitsToF32 :: "u64 \<Rightarrow> u32" where "bitsToF32 raw = ucast raw"
definition f32ToBits :: "u32 \<Rightarrow> u64" where "f32ToBits v = ucast v"
definition bitsToF64 :: "u64 \<Rightarrow> u64" where "bitsToF64 raw = raw"
definition f64ToBits :: "u64 \<Rightarrow> u64" where "f64ToBits v = v"

text \<open>
  A binary format with \<open>mb\<close> mantissa bits and \<open>eb\<close> exponent bits, on the number its
  bits denote.
\<close>

definition fp_mant :: "nat \<Rightarrow> nat \<Rightarrow> nat" where "fp_mant mb b = b mod 2 ^ mb"
definition fp_exp :: "nat \<Rightarrow> nat \<Rightarrow> nat \<Rightarrow> nat" where "fp_exp mb eb b = (b div 2 ^ mb) mod 2 ^ eb"
definition fp_neg :: "nat \<Rightarrow> nat \<Rightarrow> nat \<Rightarrow> bool" where
  "fp_neg mb eb b \<longleftrightarrow> odd (b div 2 ^ (mb + eb))"

definition fp_finite :: "nat \<Rightarrow> nat \<Rightarrow> nat \<Rightarrow> bool" where
  "fp_finite mb eb b \<longleftrightarrow> fp_exp mb eb b \<noteq> 2 ^ eb - 1"

definition fp_nan :: "nat \<Rightarrow> nat \<Rightarrow> nat \<Rightarrow> bool" where
  "fp_nan mb eb b \<longleftrightarrow> \<not> fp_finite mb eb b \<and> fp_mant mb b \<noteq> 0"

text \<open>
  Values that are not NaN are ordered as their sign and magnitude fields are, and the two
  zeros are equal.
\<close>

definition fp_key :: "nat \<Rightarrow> nat \<Rightarrow> nat \<Rightarrow> int" where
  "fp_key mb eb b =
     (let mag = int (b mod 2 ^ (mb + eb)) in if fp_neg mb eb b then - mag else mag)"

definition fp_eq :: "nat \<Rightarrow> nat \<Rightarrow> nat \<Rightarrow> nat \<Rightarrow> bool" where
  "fp_eq mb eb a b \<longleftrightarrow>
     \<not> fp_nan mb eb a \<and> \<not> fp_nan mb eb b \<and> fp_key mb eb a = fp_key mb eb b"

definition fp_lt :: "nat \<Rightarrow> nat \<Rightarrow> nat \<Rightarrow> nat \<Rightarrow> bool" where
  "fp_lt mb eb a b \<longleftrightarrow>
     \<not> fp_nan mb eb a \<and> \<not> fp_nan mb eb b \<and> fp_key mb eb a < fp_key mb eb b"

text \<open>The integer a value truncates to, if it is finite.\<close>

definition fp_trunc :: "nat \<Rightarrow> nat \<Rightarrow> nat \<Rightarrow> int option" where
  "fp_trunc mb eb b =
     (if \<not> fp_finite mb eb b then None
      else
        let e = fp_exp mb eb b;
            m = (if e = 0 then fp_mant mb b else fp_mant mb b + 2 ^ mb);
            sh = int (max e 1) - int (2 ^ (eb - 1) - 1) - int mb;
            mag = (if 0 \<le> sh then m * 2 ^ nat sh else m div 2 ^ nat (- sh))
        in Some (if fp_neg mb eb b then - int mag else int mag))"

abbreviation "f32_nan v \<equiv> fp_nan 23 8 (unat (v :: u32))"
abbreviation "f64_nan v \<equiv> fp_nan 52 11 (unat (v :: u64))"
abbreviation "f32_eq a b \<equiv> fp_eq 23 8 (unat (a :: u32)) (unat (b :: u32))"
abbreviation "f32_lt a b \<equiv> fp_lt 23 8 (unat (a :: u32)) (unat (b :: u32))"
abbreviation "f64_eq a b \<equiv> fp_eq 52 11 (unat (a :: u64)) (unat (b :: u64))"
abbreviation "f64_lt a b \<equiv> fp_lt 52 11 (unat (a :: u64)) (unat (b :: u64))"
abbreviation "f32_trunc v \<equiv> fp_trunc 23 8 (unat (v :: u32))"
abbreviation "f64_trunc v \<equiv> fp_trunc 52 11 (unat (v :: u64))"

definition f32_neg :: "u32 \<Rightarrow> u32" where "f32_neg v = (v XOR push_bit 31 1)"
definition f64_neg :: "u64 \<Rightarrow> u64" where "f64_neg v = (v XOR push_bit 63 1)"

section \<open>Outcomes and operand access\<close>

datatype PureOpcodeOutcome =
  NotHandled
  | PureContinue "u64 list"
  | PureFault string "u64 list"
  | PureUndefined

text \<open>
  \<^verbatim>\<open>if (stack.size() < 2) fault; rhs = pop; lhs = pop;\<close> and
  \<^verbatim>\<open>if (stack.empty()) fault; value = pop;\<close>
\<close>

definition pop2 :: "string \<Rightarrow> (u64 \<Rightarrow> u64 \<Rightarrow> u64 list \<Rightarrow> PureOpcodeOutcome) \<Rightarrow> u64 list
    \<Rightarrow> PureOpcodeOutcome" where
  "pop2 msg k stk = (case stk of rhs # lhs # rest \<Rightarrow> k lhs rhs rest | _ \<Rightarrow> PureFault msg stk)"

definition pop1 :: "string \<Rightarrow> (u64 \<Rightarrow> u64 list \<Rightarrow> PureOpcodeOutcome) \<Rightarrow> u64 list
    \<Rightarrow> PureOpcodeOutcome" where
  "pop1 msg k stk = (case stk of v # rest \<Rightarrow> k v rest | [] \<Rightarrow> PureFault msg stk)"

definition boolSlot :: "bool \<Rightarrow> u64" where
  "boolSlot c = (if c then 1 else 0)"

section \<open>The classification switch\<close>

definition isPureNumericOpcode :: "IrOpcode \<Rightarrow> bool" where
  "isPureNumericOpcode opc \<longleftrightarrow> opc \<in> set
     [AddI32, AddI64, SubI32, SubI64, MulI32, MulI64, DivI32, DivI64, DivU64, NegI32, NegI64,
      AddF32, SubF32, MulF32, DivF32, NegF32, AddF64, SubF64, MulF64, DivF64, NegF64,
      CmpEqI32, CmpNeI32, CmpLtI32, CmpLeI32, CmpGtI32, CmpGeI32,
      CmpEqI64, CmpNeI64, CmpLtI64, CmpLeI64, CmpGtI64, CmpGeI64,
      CmpLtU64, CmpLeU64, CmpGtU64, CmpGeU64,
      CmpEqF32, CmpNeF32, CmpLtF32, CmpLeF32, CmpGtF32, CmpGeF32,
      CmpEqF64, CmpNeF64, CmpLtF64, CmpLeF64, CmpGtF64, CmpGeF64,
      ConvertI32ToF32, ConvertI64ToF32, ConvertU64ToF32,
      ConvertI32ToF64, ConvertI64ToF64, ConvertU64ToF64,
      ConvertF32ToI32, ConvertF32ToI64, ConvertF32ToU64,
      ConvertF64ToI32, ConvertF64ToI64, ConvertF64ToU64,
      ConvertF32ToF64, ConvertF64ToF32]"

section \<open>The handler, one definition per group of cases\<close>

definition INT64_MIN_bits :: u64 where "INT64_MIN_bits = push_bit 63 1"

definition execIntArith :: "IrOpcode \<Rightarrow> u64 list \<Rightarrow> PureOpcodeOutcome" where
  "execIntArith opc stk =
     (if opc = AddI32 \<or> opc = AddI64 then
        pop2 ''IR stack underflow on add'' (\<lambda>lhs rhs rest. PureContinue ((lhs + rhs) # rest)) stk
      else if opc = SubI32 \<or> opc = SubI64 then
        pop2 ''IR stack underflow on sub'' (\<lambda>lhs rhs rest. PureContinue ((lhs - rhs) # rest)) stk
      else if opc = MulI32 \<or> opc = MulI64 then
        pop2 ''IR stack underflow on mul'' (\<lambda>lhs rhs rest. PureContinue ((lhs * rhs) # rest)) stk
      else if opc = DivI32 \<or> opc = DivI64 then
        pop2 ''IR stack underflow on div''
          (\<lambda>lhs rhs rest.
             if rhs = 0 then PureFault ''division by zero in IR'' rest
             else if lhs = INT64_MIN_bits \<and> rhs = - 1 then PureUndefined
             else PureContinue (word_of_int (sint lhs sdiv sint rhs) # rest)) stk
      else if opc = DivU64 then
        pop2 ''IR stack underflow on div''
          (\<lambda>lhs rhs rest.
             if rhs = 0 then PureFault ''division by zero in IR'' rest
             else PureContinue ((lhs div rhs) # rest)) stk
      else if opc = NegI32 \<or> opc = NegI64 then
        pop1 ''IR stack underflow on negate''
          (\<lambda>value rest.
             if value = INT64_MIN_bits then PureUndefined
             else PureContinue ((- value) # rest)) stk
      else NotHandled)"

definition execFloatArith :: "Fpu \<Rightarrow> IrOpcode \<Rightarrow> u64 list \<Rightarrow> PureOpcodeOutcome" where
  "execFloatArith fpu opc stk =
     (if opc = AddF32 \<or> opc = SubF32 \<or> opc = MulF32 \<or> opc = DivF32 then
        pop2 ''IR stack underflow on float op''
          (\<lambda>lhs rhs rest.
             let l = bitsToF32 lhs; r = bitsToF32 rhs;
                 out = (if opc = AddF32 then f32_binop fpu FloatAdd l r
                        else if opc = SubF32 then f32_binop fpu FloatSub l r
                        else if opc = MulF32 then f32_binop fpu FloatMul l r
                        else f32_binop fpu FloatDiv l r)
             in PureContinue (f32ToBits out # rest)) stk
      else if opc = NegF32 then
        pop1 ''IR stack underflow on negate''
          (\<lambda>value rest. PureContinue (f32ToBits (f32_neg (bitsToF32 value)) # rest)) stk
      else if opc = AddF64 \<or> opc = SubF64 \<or> opc = MulF64 \<or> opc = DivF64 then
        pop2 ''IR stack underflow on float op''
          (\<lambda>lhs rhs rest.
             let l = bitsToF64 lhs; r = bitsToF64 rhs;
                 out = (if opc = AddF64 then f64_binop fpu FloatAdd l r
                        else if opc = SubF64 then f64_binop fpu FloatSub l r
                        else if opc = MulF64 then f64_binop fpu FloatMul l r
                        else f64_binop fpu FloatDiv l r)
             in PureContinue (f64ToBits out # rest)) stk
      else if opc = NegF64 then
        pop1 ''IR stack underflow on negate''
          (\<lambda>value rest. PureContinue (f64ToBits (f64_neg (bitsToF64 value)) # rest)) stk
      else NotHandled)"

definition execIntCompare :: "IrOpcode \<Rightarrow> u64 list \<Rightarrow> PureOpcodeOutcome" where
  "execIntCompare opc stk =
     (if opc \<in> set [CmpEqI32, CmpNeI32, CmpLtI32, CmpLeI32, CmpGtI32, CmpGeI32,
                    CmpEqI64, CmpNeI64, CmpLtI64, CmpLeI64, CmpGtI64, CmpGeI64,
                    CmpLtU64, CmpLeU64, CmpGtU64, CmpGeU64] then
        pop2 ''IR stack underflow on compare''
          (\<lambda>lhs rhs rest.
             let cmp =
               (if opc = CmpEqI32 \<or> opc = CmpEqI64 then lhs = rhs
                else if opc = CmpNeI32 \<or> opc = CmpNeI64 then lhs \<noteq> rhs
                else if opc = CmpLtI32 \<or> opc = CmpLtI64 then sint lhs < sint rhs
                else if opc = CmpLeI32 \<or> opc = CmpLeI64 then sint lhs \<le> sint rhs
                else if opc = CmpGtI32 \<or> opc = CmpGtI64 then sint lhs > sint rhs
                else if opc = CmpGeI32 \<or> opc = CmpGeI64 then sint lhs \<ge> sint rhs
                else if opc = CmpLtU64 then lhs < rhs
                else if opc = CmpLeU64 then lhs \<le> rhs
                else if opc = CmpGtU64 then lhs > rhs
                else lhs \<ge> rhs)
             in PureContinue (boolSlot cmp # rest)) stk
      else NotHandled)"

definition execFloatCompare :: "IrOpcode \<Rightarrow> u64 list \<Rightarrow> PureOpcodeOutcome" where
  "execFloatCompare opc stk =
     (if opc \<in> set [CmpEqF32, CmpNeF32, CmpLtF32, CmpLeF32, CmpGtF32, CmpGeF32] then
        pop2 ''IR stack underflow on compare''
          (\<lambda>lhs rhs rest.
             let l = bitsToF32 lhs; r = bitsToF32 rhs;
                 cmp =
                  (if opc = CmpEqF32 then f32_eq l r
                   else if opc = CmpNeF32 then \<not> f32_eq l r
                   else if opc = CmpLtF32 then f32_lt l r
                   else if opc = CmpLeF32 then f32_lt l r \<or> f32_eq l r
                   else if opc = CmpGtF32 then f32_lt r l
                   else f32_lt r l \<or> f32_eq r l)
             in PureContinue (boolSlot cmp # rest)) stk
      else if opc \<in> set [CmpEqF64, CmpNeF64, CmpLtF64, CmpLeF64, CmpGtF64, CmpGeF64] then
        pop2 ''IR stack underflow on compare''
          (\<lambda>lhs rhs rest.
             let l = bitsToF64 lhs; r = bitsToF64 rhs;
                 cmp =
                  (if opc = CmpEqF64 then f64_eq l r
                   else if opc = CmpNeF64 then \<not> f64_eq l r
                   else if opc = CmpLtF64 then f64_lt l r
                   else if opc = CmpLeF64 then f64_lt l r \<or> f64_eq l r
                   else if opc = CmpGtF64 then f64_lt r l
                   else f64_lt r l \<or> f64_eq r l)
             in PureContinue (boolSlot cmp # rest)) stk
      else NotHandled)"

text \<open>
  \<^verbatim>\<open>static_cast<T>(value)\<close> for an integer type with bounds \<open>lo\<close> and \<open>hi\<close>: undefined
  unless the truncated value exists and is in range.
\<close>

definition castToRange :: "int \<Rightarrow> int \<Rightarrow> int option \<Rightarrow> (int \<Rightarrow> u64) \<Rightarrow> u64 list
    \<Rightarrow> PureOpcodeOutcome" where
  "castToRange lo hi t enc rest =
     (case t of None \<Rightarrow> PureUndefined
      | Some i \<Rightarrow> if lo \<le> i \<and> i \<le> hi then PureContinue (enc i # rest) else PureUndefined)"

definition execConvert :: "Fpu \<Rightarrow> IrOpcode \<Rightarrow> u64 list \<Rightarrow> PureOpcodeOutcome" where
  "execConvert fpu opc stk =
     (if opc = ConvertI32ToF32 \<or> opc = ConvertI64ToF32 \<or> opc = ConvertU64ToF32 then
        pop1 ''IR stack underflow on convert''
          (\<lambda>raw rest.
             let value = (if opc = ConvertU64ToF32 then f32_of_int fpu (uint raw)
                          else if opc = ConvertI64ToF32 then f32_of_int fpu (sint raw)
                          else f32_of_int fpu (sint (ucast raw :: u32)))
             in PureContinue (f32ToBits value # rest)) stk
      else if opc = ConvertI32ToF64 \<or> opc = ConvertI64ToF64 \<or> opc = ConvertU64ToF64 then
        pop1 ''IR stack underflow on convert''
          (\<lambda>raw rest.
             let value = (if opc = ConvertU64ToF64 then f64_of_int fpu (uint raw)
                          else if opc = ConvertI64ToF64 then f64_of_int fpu (sint raw)
                          else f64_of_int fpu (sint (ucast raw :: u32)))
             in PureContinue (f64ToBits value # rest)) stk
      else if opc = ConvertF32ToI32 \<or> opc = ConvertF32ToI64 \<or> opc = ConvertF32ToU64 then
        pop1 ''IR stack underflow on convert''
          (\<lambda>raw rest.
             let t = f32_trunc (bitsToF32 raw) in
             if opc = ConvertF32ToU64 then castToRange 0 (2 ^ 64 - 1) t word_of_int rest
             else if opc = ConvertF32ToI64
               then castToRange (- (2 ^ 63)) (2 ^ 63 - 1) t word_of_int rest
             else castToRange (- (2 ^ 31)) (2 ^ 31 - 1) t word_of_int rest) stk
      else if opc = ConvertF64ToI32 \<or> opc = ConvertF64ToI64 \<or> opc = ConvertF64ToU64 then
        pop1 ''IR stack underflow on convert''
          (\<lambda>raw rest.
             let t = f64_trunc (bitsToF64 raw) in
             if opc = ConvertF64ToU64 then castToRange 0 (2 ^ 64 - 1) t word_of_int rest
             else if opc = ConvertF64ToI64
               then castToRange (- (2 ^ 63)) (2 ^ 63 - 1) t word_of_int rest
             else castToRange (- (2 ^ 31)) (2 ^ 31 - 1) t word_of_int rest) stk
      else if opc = ConvertF32ToF64 then
        pop1 ''IR stack underflow on convert''
          (\<lambda>raw rest. PureContinue (f64ToBits (f64_of_f32 fpu (bitsToF32 raw)) # rest)) stk
      else if opc = ConvertF64ToF32 then
        pop1 ''IR stack underflow on convert''
          (\<lambda>raw rest. PureContinue (f32ToBits (f32_of_f64 fpu (bitsToF64 raw)) # rest)) stk
      else NotHandled)"

text \<open>The groups have no opcode in common, so trying them in turn is the one switch.\<close>

definition orElse :: "PureOpcodeOutcome \<Rightarrow> PureOpcodeOutcome \<Rightarrow> PureOpcodeOutcome" where
  "orElse a b = (if a = NotHandled then b else a)"

definition executePureNumericOpcode :: "Fpu \<Rightarrow> IrInstruction \<Rightarrow> u64 list \<Rightarrow> PureOpcodeOutcome"
  where
  "executePureNumericOpcode fpu inst stk =
     orElse (execIntArith (op inst) stk)
       (orElse (execFloatArith fpu (op inst) stk)
         (orElse (execIntCompare (op inst) stk)
           (orElse (execFloatCompare (op inst) stk)
             (execConvert fpu (op inst) stk))))"

text \<open>
  \<^verbatim>\<open>handleSharedVmNumericOpcode\<close> renames the outcome, and the two callers of it read that
  outcome back: \<^verbatim>\<open>handleVmNumericOpcode\<close> of the kernel makes \<open>NotHandled\<close> an error.
\<close>

definition handleVmNumericOpcode :: "Fpu \<Rightarrow> IrInstruction \<Rightarrow> u64 list \<Rightarrow> PureOpcodeOutcome" where
  "handleVmNumericOpcode fpu inst stk =
     (case executePureNumericOpcode fpu inst stk of
        NotHandled \<Rightarrow> PureFault ''unknown numeric IR opcode'' stk
      | out \<Rightarrow> out)"

definition handleVmDebugNumericOpcode :: "Fpu \<Rightarrow> IrInstruction \<Rightarrow> u64 list \<Rightarrow> PureOpcodeOutcome"
  where
  "handleVmDebugNumericOpcode fpu inst stk = executePureNumericOpcode fpu inst stk"

section \<open>Properties\<close>

lemmas pure_group_defs =
  execIntArith_def execFloatArith_def execIntCompare_def execFloatCompare_def execConvert_def

lemma pop2_simps [simp]:
  "pop2 msg k [] = PureFault msg []"
  "pop2 msg k [v] = PureFault msg [v]"
  "pop2 msg k (rhs # lhs # rest) = k lhs rhs rest"
  by (simp_all add: pop2_def)

lemma pop1_simps [simp]:
  "pop1 msg k [] = PureFault msg []"
  "pop1 msg k (v # rest) = k v rest"
  by (simp_all add: pop1_def)

lemma pop2_short: "length stk < 2 \<Longrightarrow> pop2 msg k stk = PureFault msg stk"
  by (auto simp: pop2_def split: list.splits)

lemma orElse_simps [simp]:
  "orElse NotHandled b = b" "a \<noteq> NotHandled \<Longrightarrow> orElse a b = a"
  by (simp_all add: orElse_def)

lemma orElse_NotHandled_iff: "orElse a b = NotHandled \<longleftrightarrow> a = NotHandled \<and> b = NotHandled"
  by (simp add: orElse_def)

lemma pop2_handled: "(\<And>l r rest. k l r rest \<noteq> NotHandled) \<Longrightarrow> pop2 msg k stk \<noteq> NotHandled"
  by (auto simp: pop2_def split: list.splits)

lemma pop1_handled: "(\<And>v rest. k v rest \<noteq> NotHandled) \<Longrightarrow> pop1 msg k stk \<noteq> NotHandled"
  by (auto simp: pop1_def split: list.splits)

lemma castToRange_handled: "castToRange lo hi t enc rest \<noteq> NotHandled"
  by (simp add: castToRange_def split: option.splits)

text \<open>Which opcodes each group answers.\<close>

definition intArithOps :: "IrOpcode set" where
  "intArithOps = set [AddI32, AddI64, SubI32, SubI64, MulI32, MulI64, DivI32, DivI64, DivU64,
                      NegI32, NegI64]"
definition floatArithOps :: "IrOpcode set" where
  "floatArithOps = set [AddF32, SubF32, MulF32, DivF32, NegF32, AddF64, SubF64, MulF64, DivF64,
                        NegF64]"
definition intCompareOps :: "IrOpcode set" where
  "intCompareOps = set [CmpEqI32, CmpNeI32, CmpLtI32, CmpLeI32, CmpGtI32, CmpGeI32,
                    CmpEqI64, CmpNeI64, CmpLtI64, CmpLeI64, CmpGtI64, CmpGeI64,
                    CmpLtU64, CmpLeU64, CmpGtU64, CmpGeU64]"
definition floatCompareOps :: "IrOpcode set" where
  "floatCompareOps = set [CmpEqF32, CmpNeF32, CmpLtF32, CmpLeF32, CmpGtF32, CmpGeF32,
                          CmpEqF64, CmpNeF64, CmpLtF64, CmpLeF64, CmpGtF64, CmpGeF64]"
definition convertOps :: "IrOpcode set" where
  "convertOps = set [ConvertI32ToF32, ConvertI64ToF32, ConvertU64ToF32,
      ConvertI32ToF64, ConvertI64ToF64, ConvertU64ToF64,
      ConvertF32ToI32, ConvertF32ToI64, ConvertF32ToU64,
      ConvertF64ToI32, ConvertF64ToI64, ConvertF64ToU64, ConvertF32ToF64, ConvertF64ToF32]"

lemmas op_set_defs =
  intArithOps_def floatArithOps_def intCompareOps_def floatCompareOps_def convertOps_def

lemma isPureNumericOpcode_groups:
  "isPureNumericOpcode opc \<longleftrightarrow>
     opc \<in> intArithOps \<union> floatArithOps \<union> intCompareOps \<union> floatCompareOps \<union> convertOps"
  by (simp only: isPureNumericOpcode_def op_set_defs set_simps insert_iff empty_iff Un_iff) blast

lemma execIntArith_handled: "execIntArith opc stk \<noteq> NotHandled \<longleftrightarrow> opc \<in> intArithOps"
  by (auto simp: execIntArith_def intArithOps_def intro!: pop2_handled pop1_handled
      split: if_split_asm)

lemma execFloatArith_handled: "execFloatArith fpu opc stk \<noteq> NotHandled \<longleftrightarrow> opc \<in> floatArithOps"
  by (auto simp: execFloatArith_def floatArithOps_def Let_def intro!: pop2_handled pop1_handled)

lemma execIntCompare_handled: "execIntCompare opc stk \<noteq> NotHandled \<longleftrightarrow> opc \<in> intCompareOps"
  unfolding execIntCompare_def intCompareOps_def [symmetric]
  by (simp add: Let_def pop2_handled)

lemma execFloatCompare_handled: "execFloatCompare opc stk \<noteq> NotHandled \<longleftrightarrow> opc \<in> floatCompareOps"
  by (auto simp: execFloatCompare_def floatCompareOps_def Let_def intro!: pop2_handled)

lemma execConvert_handled: "execConvert fpu opc stk \<noteq> NotHandled \<longleftrightarrow> opc \<in> convertOps"
  by (auto simp: execConvert_def convertOps_def Let_def castToRange_handled
      intro!: pop2_handled pop1_handled)

lemmas exec_group_handled =
  execIntArith_handled execFloatArith_handled execIntCompare_handled execFloatCompare_handled
  execConvert_handled

lemmas exec_group_NotHandled =
  exec_group_handled [THEN arg_cong [where f = Not], simplified not_not]

text \<open>The classification switch and the handler agree on which opcodes are numeric.\<close>

lemma pure_opcode_handled_iff:
  "executePureNumericOpcode fpu inst stk \<noteq> NotHandled \<longleftrightarrow> isPureNumericOpcode (op inst)"
  by (simp only: executePureNumericOpcode_def orElse_NotHandled_iff isPureNumericOpcode_groups
      de_Morgan_conj exec_group_handled Un_iff disj_assoc)

section \<open>Stack effect\<close>

definition pureArity :: "IrOpcode \<Rightarrow> nat" where
  "pureArity opc = (if opc \<in> {NegI32, NegI64, NegF32, NegF64} \<union> convertOps then 1 else 2)"

definition isDivOpcode :: "IrOpcode \<Rightarrow> bool" where
  "isDivOpcode opc \<longleftrightarrow> opc \<in> {DivI32, DivI64, DivU64}"

text \<open>The inputs on which the C++ expression is undefined.\<close>

definition pureUndefinedOn :: "IrOpcode \<Rightarrow> u64 list \<Rightarrow> bool" where
  "pureUndefinedOn opc stk \<longleftrightarrow>
     opc \<in> {DivI32, DivI64} \<and> stk ! 1 = INT64_MIN_bits \<and> stk ! 0 = - 1
     \<or> opc \<in> {NegI32, NegI64} \<and> stk ! 0 = INT64_MIN_bits
     \<or> opc \<in> {ConvertF32ToI32, ConvertF32ToI64, ConvertF32ToU64,
             ConvertF64ToI32, ConvertF64ToI64, ConvertF64ToU64}"

definition pureEffect :: "IrOpcode \<Rightarrow> u64 list \<Rightarrow> PureOpcodeOutcome \<Rightarrow> bool" where
  "pureEffect opc stk out \<longleftrightarrow>
     (case out of
        NotHandled \<Rightarrow> False
      | PureContinue stk' \<Rightarrow>
          pureArity opc \<le> length stk \<and> (\<exists>v. stk' = v # drop (pureArity opc) stk)
      | PureFault msg stk' \<Rightarrow>
          length stk < pureArity opc \<and> stk' = stk \<and> take 18 msg = ''IR stack underflow''
          \<or> pureArity opc \<le> length stk \<and> isDivOpcode opc \<and> stk ! 0 = 0
            \<and> msg = ''division by zero in IR'' \<and> stk' = drop 2 stk
      | PureUndefined \<Rightarrow> pureArity opc \<le> length stk \<and> pureUndefinedOn opc stk)"

lemma pureEffect_pop2:
  assumes "pureArity opc = 2" and "take 18 msg = ''IR stack underflow''"
    and "\<And>l r rest. stk = r # l # rest \<Longrightarrow> pureEffect opc (r # l # rest) (k l r rest)"
  shows "pureEffect opc stk (pop2 msg k stk)"
  using assms by (auto simp: pop2_def pureEffect_def split: list.splits)

lemma pureEffect_pop1:
  assumes "pureArity opc = 1" and "take 18 msg = ''IR stack underflow''"
    and "\<And>v rest. stk = v # rest \<Longrightarrow> pureEffect opc (v # rest) (k v rest)"
  shows "pureEffect opc stk (pop1 msg k stk)"
  using assms by (auto simp: pop1_def pureEffect_def split: list.splits)

lemma pureEffect_push2:
  "pureArity opc = 2 \<Longrightarrow> pureEffect opc (r # l # rest) (PureContinue (v # rest))"
  by (simp add: pureEffect_def)

lemma pureEffect_push1:
  "pureArity opc = 1 \<Longrightarrow> pureEffect opc (v # rest) (PureContinue (v' # rest))"
  by (simp add: pureEffect_def)

lemma pureEffect_cast:
  assumes "pureArity opc = 1" and "\<And>s. pureUndefinedOn opc s"
  shows "pureEffect opc (v # rest) (castToRange lo hi t enc rest)"
  using assms by (simp add: pureEffect_def castToRange_def split: option.splits)

lemma pureEffect_if:
  "(c \<Longrightarrow> pureEffect opc stk a) \<Longrightarrow> (\<not> c \<Longrightarrow> pureEffect opc stk b) \<Longrightarrow>
     pureEffect opc stk (if c then a else b)"
  by simp

lemma pureEffect_div0:
  "isDivOpcode opc \<Longrightarrow> pureArity opc = 2 \<Longrightarrow> r = 0 \<Longrightarrow>
     pureEffect opc (r # l # rest) (PureFault ''division by zero in IR'' rest)"
  by (simp add: pureEffect_def)

lemma pureEffect_undef:
  "pureUndefinedOn opc stk \<Longrightarrow> pureArity opc \<le> length stk \<Longrightarrow> pureEffect opc stk PureUndefined"
  by (simp add: pureEffect_def)

lemmas pureEffect_rules = pureEffect_if pureEffect_pop2 pureEffect_pop1 pureEffect_push2
  pureEffect_push1 pureEffect_cast pureEffect_div0 pureEffect_undef

lemma pureArity_unary [simp]:
  "pureArity NegI32 = 1" "pureArity NegI64 = 1" "pureArity NegF32 = 1"
  "pureArity NegF64 = 1" "pureArity ConvertI32ToF32 = 1" "pureArity ConvertI64ToF32 = 1"
  "pureArity ConvertU64ToF32 = 1" "pureArity ConvertI32ToF64 = 1" "pureArity ConvertI64ToF64 = 1"
  "pureArity ConvertU64ToF64 = 1" "pureArity ConvertF32ToI32 = 1" "pureArity ConvertF32ToI64 = 1"
  "pureArity ConvertF32ToU64 = 1" "pureArity ConvertF64ToI32 = 1" "pureArity ConvertF64ToI64 = 1"
  "pureArity ConvertF64ToU64 = 1" "pureArity ConvertF32ToF64 = 1" "pureArity ConvertF64ToF32 = 1"
  by (simp_all add: pureArity_def convertOps_def)

lemma pureArity_binary [simp]:
  "pureArity AddI32 = 2" "pureArity AddI64 = 2" "pureArity SubI32 = 2"
  "pureArity SubI64 = 2" "pureArity MulI32 = 2" "pureArity MulI64 = 2"
  "pureArity DivI32 = 2" "pureArity DivI64 = 2" "pureArity DivU64 = 2"
  "pureArity AddF32 = 2" "pureArity SubF32 = 2" "pureArity MulF32 = 2"
  "pureArity DivF32 = 2" "pureArity AddF64 = 2" "pureArity SubF64 = 2"
  "pureArity MulF64 = 2" "pureArity DivF64 = 2"
  by (simp_all add: pureArity_def convertOps_def)

lemma pureArity_all_compare: "\<forall>opc \<in> intCompareOps \<union> floatCompareOps. pureArity opc = 2"
  by (simp add: intCompareOps_def floatCompareOps_def pureArity_def convertOps_def)

lemma pureArity_compare: "opc \<in> intCompareOps \<Longrightarrow> pureArity opc = 2"
  "opc \<in> floatCompareOps \<Longrightarrow> pureArity opc = 2"
  using pureArity_all_compare by blast+

lemma execIntArith_effect:
  assumes "opc \<in> intArithOps"
  shows "pureEffect opc stk (execIntArith opc stk)"
proof -
  have covered: "(opc = AddI32 \<or> opc = AddI64) \<or> (opc = SubI32 \<or> opc = SubI64)
      \<or> (opc = MulI32 \<or> opc = MulI64) \<or> (opc = DivI32 \<or> opc = DivI64) \<or> opc = DivU64
      \<or> (opc = NegI32 \<or> opc = NegI64)"
    using assms unfolding intArithOps_def set_simps insert_iff empty_iff by blast
  show ?thesis
    unfolding execIntArith_def
    apply (intro pureEffect_rules)
    by (auto simp: isDivOpcode_def pureUndefinedOn_def) (use covered in blast)
qed

lemma execFloatArith_effect:
  assumes "opc \<in> floatArithOps"
  shows "pureEffect opc stk (execFloatArith fpu opc stk)"
proof -
  have covered: "(opc = AddF32 \<or> opc = SubF32 \<or> opc = MulF32 \<or> opc = DivF32) \<or> opc = NegF32
      \<or> (opc = AddF64 \<or> opc = SubF64 \<or> opc = MulF64 \<or> opc = DivF64) \<or> opc = NegF64"
    using assms unfolding floatArithOps_def set_simps insert_iff empty_iff by blast
  show ?thesis
    unfolding execFloatArith_def Let_def
    apply (intro pureEffect_rules)
    by auto (use covered in blast)
qed

lemma execIntCompare_effect:
  assumes "opc \<in> intCompareOps"
  shows "pureEffect opc stk (execIntCompare opc stk)"
  unfolding execIntCompare_def Let_def intCompareOps_def [symmetric]
  apply (intro pureEffect_rules)
  using assms by (simp_all add: pureArity_compare)

lemma execFloatCompare_effect:
  assumes "opc \<in> floatCompareOps"
  shows "pureEffect opc stk (execFloatCompare opc stk)"
proof -
  have covered: "opc \<in> set [CmpEqF32, CmpNeF32, CmpLtF32, CmpLeF32, CmpGtF32, CmpGeF32]
      \<or> opc \<in> set [CmpEqF64, CmpNeF64, CmpLtF64, CmpLeF64, CmpGtF64, CmpGeF64]"
    using assms unfolding floatCompareOps_def set_simps insert_iff empty_iff by blast
  show ?thesis
    unfolding execFloatCompare_def Let_def
    apply (intro pureEffect_rules)
    using pureArity_compare(2) [OF assms] covered by (simp_all del: set_simps)
qed

lemma execConvert_effect:
  assumes "opc \<in> convertOps"
  shows "pureEffect opc stk (execConvert fpu opc stk)"
proof -
  have covered: "(opc = ConvertI32ToF32 \<or> opc = ConvertI64ToF32 \<or> opc = ConvertU64ToF32)
      \<or> (opc = ConvertI32ToF64 \<or> opc = ConvertI64ToF64 \<or> opc = ConvertU64ToF64)
      \<or> (opc = ConvertF32ToI32 \<or> opc = ConvertF32ToI64 \<or> opc = ConvertF32ToU64)
      \<or> (opc = ConvertF64ToI32 \<or> opc = ConvertF64ToI64 \<or> opc = ConvertF64ToU64)
      \<or> opc = ConvertF32ToF64 \<or> opc = ConvertF64ToF32"
    using assms unfolding convertOps_def set_simps insert_iff empty_iff by blast
  show ?thesis
    unfolding execConvert_def Let_def
    apply (intro pureEffect_rules)
    by (auto simp: pureUndefinedOn_def) (use covered in blast)
qed

lemma pureEffect_executePure:
  assumes "isPureNumericOpcode (op inst)"
  shows "pureEffect (op inst) stk (executePureNumericOpcode fpu inst stk)"
proof -
  have groups: "op inst \<in> intArithOps \<or> op inst \<in> floatArithOps \<or> op inst \<in> intCompareOps
      \<or> op inst \<in> floatCompareOps \<or> op inst \<in> convertOps"
    using assms by (simp add: isPureNumericOpcode_groups)
  let ?P = "pureEffect (op inst) stk"
  have step: "(a \<noteq> NotHandled \<Longrightarrow> ?P a) \<Longrightarrow> (a = NotHandled \<Longrightarrow> ?P b) \<Longrightarrow> ?P (orElse a b)" for a b
    by (simp add: orElse_def)
  show ?thesis
    unfolding executePureNumericOpcode_def
    by (intro step execIntArith_effect execFloatArith_effect execIntCompare_effect
        execFloatCompare_effect execConvert_effect)
      (use groups in \<open>auto simp: exec_group_NotHandled\<close>)
qed


section \<open>Integer arithmetic on canonical operands\<close>

text \<open>
  A slot holds a canonical \<^verbatim>\<open>i32\<close> when it is the sign extension of its low 32 bits, as
  \<^verbatim>\<open>PushI32\<close> leaves it. The 32-bit opcodes compute on the whole 64-bit slot.
\<close>

definition canonical32 :: "u64 \<Rightarrow> bool" where
  "canonical32 w \<longleftrightarrow> sext32 w = w"

definition inI32 :: "int \<Rightarrow> bool" where
  "inI32 i \<longleftrightarrow> - (2 ^ 31) \<le> i \<and> i < 2 ^ 31"

lemma sint_sext32_signed_take_bit: "sint (sext32 w) = signed_take_bit 31 (sint w)"
  unfolding sint_sext32 by (simp add: signed_ucast_eq) (simp add: sint_uint)

lemma canonical32_iff: "canonical32 w \<longleftrightarrow> inI32 (sint w)"
proof -
  have "canonical32 w \<longleftrightarrow> sint (sext32 w) = sint w"
    unfolding canonical32_def by (auto intro: signed_word_eqI)
  then show ?thesis
    by (simp add: sint_sext32_signed_take_bit signed_take_bit_int_eq_self_iff inI32_def)
qed

lemma canonical32_sext32 [simp]: "canonical32 (sext32 w)"
  by (simp add: canonical32_def)

lemma sint_word_of_int64:
  "- (2 ^ 63) \<le> i \<Longrightarrow> i < 2 ^ 63 \<Longrightarrow> sint (word_of_int i :: u64) = i"
  by (simp add: sint_sbintrunc' signed_take_bit_int_eq_self_iff)

definition i32Exact :: "IrOpcode \<Rightarrow> int \<Rightarrow> int \<Rightarrow> int" where
  "i32Exact opc a b =
     (if opc = AddI32 then a + b else if opc = SubI32 then a - b
      else if opc = MulI32 then a * b else a sdiv b)"

lemma abs_sdiv_le: "\<bar>(a::int) sdiv b\<bar> \<le> \<bar>a\<bar>"
proof (cases "b = 0")
  case False
  have "\<bar>a\<bar> div \<bar>b\<bar> \<le> \<bar>a\<bar>"
    using zdiv_mono2 [of "\<bar>a\<bar>" 1 "\<bar>b\<bar>"] False by simp
  moreover have "0 \<le> \<bar>a\<bar> div \<bar>b\<bar>"
    by (simp add: pos_imp_zdiv_nonneg_iff False)
  ultimately show ?thesis
    by (simp add: signed_divide_int_def abs_mult abs_sgn_eq)
qed simp

lemma i32Exact_bounds:
  assumes "inI32 a" and "inI32 b"
  shows "\<bar>i32Exact opc a b\<bar> \<le> 2 ^ 62"
proof -
  have a: "\<bar>a\<bar> \<le> 2 ^ 31" and b: "\<bar>b\<bar> \<le> 2 ^ 31"
    using assms by (auto simp: inI32_def)
  have "\<bar>a * b\<bar> \<le> 2 ^ 31 * 2 ^ 31"
    unfolding abs_mult by (rule mult_mono [OF a b]) simp_all
  then show ?thesis
    using a b abs_sdiv_le [of a b] by (auto simp: i32Exact_def)
qed

lemma i32_arith_result:
  assumes "canonical32 l" and "canonical32 r"
    and "op inst = AddI32 \<or> op inst = SubI32 \<or> op inst = MulI32 \<or> op inst = DivI32"
    and "op inst = DivI32 \<Longrightarrow> r \<noteq> 0"
  shows "executePureNumericOpcode fpu inst (r # l # rest) =
    PureContinue (word_of_int (i32Exact (op inst) (sint l) (sint r)) # rest)"
proof -
  have "l \<noteq> INT64_MIN_bits"
    using assms(1) by (auto simp: canonical32_iff inI32_def INT64_MIN_bits_def)
  moreover have "word_of_int (sint l + sint r) = l + r" "word_of_int (sint l - sint r) = l - r"
    "word_of_int (sint l * sint r) = l * r"
    by simp_all
  ultimately show ?thesis
    using assms(3,4)
    by (auto simp: executePureNumericOpcode_def execIntArith_def i32Exact_def)
qed

text \<open>
  C19: on canonical operands the 32-bit opcodes \<^verbatim>\<open>AddI32\<close>, \<^verbatim>\<open>SubI32\<close>, \<^verbatim>\<open>MulI32\<close> and
  \<^verbatim>\<open>DivI32\<close> never fault and push the exact mathematical result; the pushed slot is again
  canonical exactly when that result fits in 32 bits, so the VM does not wrap \<^verbatim>\<open>i32\<close>
  arithmetic at 32 bits.
\<close>

theorem i32_arith_exact:
  assumes "canonical32 l" and "canonical32 r"
    and "op inst = AddI32 \<or> op inst = SubI32 \<or> op inst = MulI32 \<or> op inst = DivI32"
    and "op inst = DivI32 \<Longrightarrow> r \<noteq> 0"
  shows "\<exists>v. executePureNumericOpcode fpu inst (r # l # rest) = PureContinue (v # rest)
    \<and> sint v = i32Exact (op inst) (sint l) (sint r)
    \<and> (canonical32 v \<longleftrightarrow> inI32 (i32Exact (op inst) (sint l) (sint r)))"
proof -
  let ?e = "i32Exact (op inst) (sint l) (sint r)"
  have "\<bar>?e\<bar> \<le> 2 ^ 62"
    using assms(1,2) by (intro i32Exact_bounds) (simp_all add: canonical32_iff)
  then have "sint (word_of_int ?e :: u64) = ?e"
    by (intro sint_word_of_int64) auto
  then show ?thesis
    using i32_arith_result [OF assms] by (simp add: canonical32_iff)
qed

theorem i32_arith_exact_witness:
  "\<forall>fpu. \<exists>v. executePureNumericOpcode fpu \<lparr>op = AddI32, imm = 0, debugId = 0\<rparr> [1, 2147483647]
       = PureContinue [v] \<and> sint v = 2147483648 \<and> \<not> canonical32 v"
proof
  fix fpu
  have c: "canonical32 2147483647" "canonical32 1"
    by (simp_all add: canonical32_iff inI32_def)
  show "\<exists>v. executePureNumericOpcode fpu \<lparr>op = AddI32, imm = 0, debugId = 0\<rparr> [1, 2147483647]
       = PureContinue [v] \<and> sint v = 2147483648 \<and> \<not> canonical32 v"
    using i32_arith_exact [OF c, of "\<lparr>op = AddI32, imm = 0, debugId = 0\<rparr>" fpu "[]"]
    by (simp add: i32Exact_def inI32_def)
qed


end
