(* ===== verification/VmHeap.thy ===== *)
theory VmHeap
  imports Ir
begin

text \<open>
  The VM heap (\<^verbatim>\<open>src/runtime/VmHeapHelpers.cpp\<close>): one growing vector of 64-bit slots and
  the list of allocations made so far. Heap addresses carry the tag bit 63; addresses
  without it designate a local slot of the running frame. Vector sizes and indices
  (\<^verbatim>\<open>size_t\<close>) are natural numbers: an allocation's end index is at most the size the slot
  vector had, so the additions of the source cannot wrap (lemma \<open>layout_in_bounds\<close>).
  \<^verbatim>\<open>std::vector<uint64_t>::max_size()\<close> is implementation-defined and is the argument
  \<open>maxSlots\<close>; exhaustion of the machine's memory is outside the model.
\<close>

section \<open>State\<close>

record HeapAllocation =
  baseIndex :: nat
  slotCount :: nat
  live :: bool

record VmHeap =
  heapSlots :: "u64 list"
  heapAllocations :: "HeapAllocation list"

definition emptyHeap :: VmHeap where
  "emptyHeap = \<lparr>heapSlots = [], heapAllocations = []\<rparr>"

text \<open>What an indirect address designates (the slot pointer of the source).\<close>

datatype SlotRef = LocalSlot nat | HeapSlot nat

lemma emptyHeap_fields [simp]: "heapSlots emptyHeap = []" "heapAllocations emptyHeap = []"
  by (simp_all add: emptyHeap_def)

section \<open>Operations\<close>

definition kVmHeapAddressTag :: u64 where
  "kVmHeapAddressTag = push_bit 63 1"

definition isVmHeapAddress :: "u64 \<Rightarrow> bool" where
  "isVmHeapAddress address \<longleftrightarrow> (address AND kVmHeapAddressTag) \<noteq> 0"

definition heapIndexOf :: "u64 \<Rightarrow> u64 \<Rightarrow> nat" where
  "heapIndexOf slotBytes address = unat ((address AND NOT kVmHeapAddressTag) div slotBytes)"

definition resolveIndirectAddress :: "u64 \<Rightarrow> u64 \<Rightarrow> u64 list \<Rightarrow> VmHeap \<Rightarrow> SlotRef result" where
  "resolveIndirectAddress address slotBytes locals h =
     (if address mod slotBytes \<noteq> 0
      then Inl (''unaligned indirect address in IR: '' @ dec_nat (unat address))
      else if isVmHeapAddress address then
        (let index = heapIndexOf slotBytes address in
         if index \<ge> length (heapSlots h)
         then Inl (''invalid indirect address in IR: '' @ dec_nat (unat address))
         else
           (case find (\<lambda>a. live a \<and> baseIndex a \<le> index \<and> index < baseIndex a + slotCount a)
                   (heapAllocations h) of
              Some _ \<Rightarrow> Inr (HeapSlot index)
            | None \<Rightarrow> Inl (''invalid indirect address in IR: '' @ dec_nat (unat address))))
      else
        (let index = unat (address div slotBytes) in
         if index \<ge> length locals
         then Inl (''invalid indirect address in IR: '' @ dec_nat (unat address))
         else Inr (LocalSlot index)))"

definition allocateVmHeapSlots :: "nat \<Rightarrow> u64 \<Rightarrow> u64 \<Rightarrow> VmHeap \<Rightarrow> (u64 \<times> VmHeap) result" where
  "allocateVmHeapSlots maxSlots slotCnt slotBytes h =
     (if slotCnt = 0 then Inr (0, h)
      else if unat slotCnt > 2 ^ 64 - 1 then Inl ''VM heap allocation overflow''
      else if unat slotCnt > maxSlots - length (heapSlots h)
        then Inl ''VM heap allocation overflow''
      else if length (heapSlots h) > unat ((- 1 - kVmHeapAddressTag) div slotBytes)
        then Inl ''VM heap allocation overflow''
      else
        (let base = length (heapSlots h) in
         Inr (kVmHeapAddressTag + of_nat base * slotBytes,
              \<lparr>heapSlots = heapSlots h @ replicate (unat slotCnt) 0,
               heapAllocations = heapAllocations h @
                 [\<lparr>baseIndex = base, slotCount = unat slotCnt, live = True\<rparr>]\<rparr>)))"

text \<open>The first entry of the allocation list with the given base, as the loops search it.\<close>

fun findBase :: "nat \<Rightarrow> HeapAllocation list \<Rightarrow> nat option" where
  "findBase b [] = None"
| "findBase b (a # as) = (if baseIndex a \<noteq> b then map_option Suc (findBase b as) else Some 0)"

definition freeVmHeapSlots :: "u64 \<Rightarrow> u64 \<Rightarrow> VmHeap \<Rightarrow> VmHeap result" where
  "freeVmHeapSlots address slotBytes h =
     (let bad = Inl (''invalid heap free address in IR: '' @ dec_nat (unat address)) in
      if address = 0 then Inr h
      else if \<not> isVmHeapAddress address \<or> address mod slotBytes \<noteq> 0 then bad
      else
        (case findBase (heapIndexOf slotBytes address) (heapAllocations h) of
           None \<Rightarrow> bad
         | Some k \<Rightarrow>
             (let a = heapAllocations h ! k; endIndex = baseIndex a + slotCount a in
              if \<not> live a then bad
              else if endIndex > length (heapSlots h) then bad
              else Inr \<lparr>heapSlots = fill_range (baseIndex a) endIndex 0 (heapSlots h),
                        heapAllocations = (heapAllocations h)[k := a\<lparr>live := False\<rparr>]\<rparr>)))"

definition reallocVmHeapSlots :: "nat \<Rightarrow> u64 \<Rightarrow> u64 \<Rightarrow> u64 \<Rightarrow> VmHeap \<Rightarrow> (u64 \<times> VmHeap) result"
  where
  "reallocVmHeapSlots maxSlots address slotCnt slotBytes h =
     (let bad = Inl (''invalid heap realloc address in IR: '' @ dec_nat (unat address)) in
      if address = 0 then allocateVmHeapSlots maxSlots slotCnt slotBytes h
      else if slotCnt = 0 then
        (case freeVmHeapSlots address slotBytes h of Inl e \<Rightarrow> Inl e | Inr h' \<Rightarrow> Inr (0, h'))
      else if \<not> isVmHeapAddress address \<or> address mod slotBytes \<noteq> 0 then bad
      else
        (case findBase (heapIndexOf slotBytes address) (heapAllocations h) of
           None \<Rightarrow> bad
         | Some k \<Rightarrow>
             (let a = heapAllocations h ! k; endIndex = baseIndex a + slotCount a in
              if \<not> live a then bad
              else if endIndex > length (heapSlots h) then bad
              else
                (case allocateVmHeapSlots maxSlots slotCnt slotBytes h of
                   Inl e \<Rightarrow> Inl e
                 | Inr (newAddress, h1) \<Rightarrow>
                     (let newBase = heapIndexOf slotBytes newAddress;
                          copySlots = min (slotCount a) (unat slotCnt);
                          copied = copy_range newBase (baseIndex a) copySlots (heapSlots h1);
                          cleared = fill_range (baseIndex a) endIndex 0 copied
                      in Inr (newAddress,
                           \<lparr>heapSlots = cleared,
                            heapAllocations =
                              (case findBase (baseIndex a) (heapAllocations h1) of
                                 None \<Rightarrow> heapAllocations h1
                               | Some j \<Rightarrow> (heapAllocations h1)
                                   [j := (heapAllocations h1 ! j)\<lparr>live := False\<rparr>])\<rparr>))))))"

text \<open>Reading and writing through the resolved pointer.\<close>

definition loadSlot :: "u64 list \<Rightarrow> VmHeap \<Rightarrow> SlotRef \<Rightarrow> u64" where
  "loadSlot locals h r = (case r of LocalSlot i \<Rightarrow> locals ! i | HeapSlot i \<Rightarrow> heapSlots h ! i)"

definition storeSlot :: "u64 list \<Rightarrow> VmHeap \<Rightarrow> SlotRef \<Rightarrow> u64 \<Rightarrow> u64 list \<times> VmHeap" where
  "storeSlot locals h r v =
     (case r of
        LocalSlot i \<Rightarrow> (locals[i := v], h)
      | HeapSlot i \<Rightarrow> (locals, h\<lparr>heapSlots := (heapSlots h)[i := v]\<rparr>))"

section \<open>Addresses\<close>

lemma tag_eq_exp: "kVmHeapAddressTag = 2 ^ 63"
  by (simp add: kVmHeapAddressTag_def push_bit_eq_mult)

lemma bit_63_iff: "bit (w :: u64) 63 \<longleftrightarrow> 2 ^ 63 \<le> unat w"
proof -
  have "unat w < 2 ^ 64"
    using unsigned_less [of w] by simp
  then have "unat w div 2 ^ 63 = (if 2 ^ 63 \<le> unat w then 1 else 0)"
    by (auto intro: div_nat_eqI simp: div_eq_0_iff)
  moreover have "bit w 63 \<longleftrightarrow> odd (unat w div 2 ^ 63)"
    unfolding bit_iff_odd [of "unat w" 63, symmetric] by (simp add: bit_unsigned_iff)
  ultimately show ?thesis by simp
qed

lemma isVmHeapAddress_iff: "isVmHeapAddress w \<longleftrightarrow> 2 ^ 63 \<le> unat w"
  unfolding isVmHeapAddress_def tag_eq_exp and_exp_eq_0_iff_not_bit by (simp add: bit_63_iff)

lemma untagged: "unat (w AND NOT kVmHeapAddressTag) = unat w mod 2 ^ 63"
proof -
  have "bit (NOT kVmHeapAddressTag) n \<longleftrightarrow> n < 63" if "n < 64" for n
    using that unfolding kVmHeapAddressTag_def
    by (auto simp: bit_not_iff bit_push_bit_iff bit_1_iff simp del: push_bit_of_1 push_bit_numeral)
  then have "(w AND NOT kVmHeapAddressTag) = take_bit 63 w"
    by (intro bit_word_eqI) (auto simp: bit_and_iff bit_take_bit_iff)
  then show ?thesis
    by (simp only: unsigned_take_bit_eq take_bit_nat_def)
qed

lemma heapIndexOf_eq: "heapIndexOf IrSlotBytes w = (unat w mod 2 ^ 63) div 16"
  by (simp add: heapIndexOf_def unat_div untagged IrSlotBytes_def)

definition heapAddress :: "nat \<Rightarrow> u64" where
  "heapAddress i = kVmHeapAddressTag + of_nat i * IrSlotBytes"

lemma unat_heapAddress: "i < 2 ^ 59 \<Longrightarrow> unat (heapAddress i) = 2 ^ 63 + i * 16"
  by (simp add: heapAddress_def tag_eq_exp IrSlotBytes_def unat_word_ariths unat_of_nat)

lemma heapAddress_facts:
  assumes "i < 2 ^ 59"
  shows "isVmHeapAddress (heapAddress i)" "heapIndexOf IrSlotBytes (heapAddress i) = i"
    "heapAddress i mod IrSlotBytes = 0" "heapAddress i \<noteq> 0"
proof -
  note u = unat_heapAddress [OF assms]
  show "isVmHeapAddress (heapAddress i)"
    by (simp add: isVmHeapAddress_iff u)
  show "heapIndexOf IrSlotBytes (heapAddress i) = i"
    using assms by (simp add: heapIndexOf_eq u)
  have "unat (heapAddress i mod IrSlotBytes) = (2 ^ 63 + i * 16) mod 16"
    by (simp add: unat_mod u IrSlotBytes_def)
  then show "heapAddress i mod IrSlotBytes = 0"
    by (simp add: unat_eq_0)
  show "heapAddress i \<noteq> 0"
    using u by (metis add_is_0 power_eq_0_iff unat_0 zero_neq_numeral)
qed

lemma maxAddressableIndex: "unat ((- 1 - kVmHeapAddressTag) div IrSlotBytes) = 2 ^ 59 - 1"
  by (simp add: tag_eq_exp IrSlotBytes_def)

section \<open>The layout invariant\<close>

text \<open>The allocations, in order, tile the slot vector from slot \<open>b\<close> to slot \<open>n\<close>.\<close>

fun layout :: "nat \<Rightarrow> HeapAllocation list \<Rightarrow> nat \<Rightarrow> bool" where
  "layout b [] n \<longleftrightarrow> b = n"
| "layout b (a # as) n \<longleftrightarrow>
     baseIndex a = b \<and> 0 < slotCount a \<and> layout (b + slotCount a) as n"

definition heap_inv :: "VmHeap \<Rightarrow> bool" where
  "heap_inv h \<longleftrightarrow>
     layout 0 (heapAllocations h) (length (heapSlots h))
     \<and> (\<forall>a \<in> set (heapAllocations h). baseIndex a < 2 ^ 59)
     \<and> (\<forall>a \<in> set (heapAllocations h). \<not> live a \<longrightarrow>
          (\<forall>i. baseIndex a \<le> i \<and> i < baseIndex a + slotCount a \<longrightarrow> heapSlots h ! i = 0))"

lemma layout_snoc:
  "layout b as n \<Longrightarrow> 0 < c \<Longrightarrow>
     layout b (as @ [\<lparr>baseIndex = n, slotCount = c, live = l\<rparr>]) (n + c)"
  by (induction as arbitrary: b) auto

lemma layout_le: "layout b as n \<Longrightarrow> b \<le> n"
  by (induction as arbitrary: b) fastforce+

lemma layout_nth_bounds:
  "layout b as n \<Longrightarrow> k < length as \<Longrightarrow>
     b \<le> baseIndex (as ! k) \<and> 0 < slotCount (as ! k) \<and> baseIndex (as ! k) + slotCount (as ! k) \<le> n"
proof (induction as arbitrary: b k)
  case (Cons a as)
  then show ?case
    by (cases k) (use layout_le in \<open>fastforce+\<close>)
qed simp

lemma layout_in_bounds:
  "layout b as n \<Longrightarrow> a \<in> set as \<Longrightarrow>
     b \<le> baseIndex a \<and> 0 < slotCount a \<and> baseIndex a + slotCount a \<le> n"
  by (metis in_set_conv_nth layout_nth_bounds)

lemma layout_disjoint:
  "layout b as n \<Longrightarrow> j < k \<Longrightarrow> k < length as \<Longrightarrow>
     baseIndex (as ! j) + slotCount (as ! j) \<le> baseIndex (as ! k)"
proof (induction as arbitrary: b j k)
  case (Cons a as)
  then obtain k' where k: "k = Suc k'" "k' < length as"
    by (cases k) auto
  from Cons.prems have tl: "layout (b + slotCount a) as n" and a: "baseIndex a = b"
    by auto
  show ?case
  proof (cases j)
    case 0
    then show ?thesis using layout_nth_bounds [OF tl k(2)] a k by simp
  next
    case (Suc j')
    then show ?thesis using Cons.IH [OF tl] Cons.prems k by simp
  qed
qed simp

text \<open>A slot lies in one allocation only.\<close>

definition inBlock :: "HeapAllocation \<Rightarrow> nat \<Rightarrow> bool" where
  "inBlock a i \<longleftrightarrow> baseIndex a \<le> i \<and> i < baseIndex a + slotCount a"

lemma layout_block_unique:
  assumes "layout b as n" and "j < length as" and "k < length as"
    and "inBlock (as ! j) i" and "inBlock (as ! k) i"
  shows "j = k"
  using assms layout_disjoint [OF assms(1), of j k] layout_disjoint [OF assms(1), of k j]
  by (cases j k rule: linorder_cases) (auto simp: inBlock_def)

lemma inBlock_base: "layout b as n \<Longrightarrow> k < length as \<Longrightarrow> inBlock (as ! k) (baseIndex (as ! k))"
  using layout_nth_bounds by (fastforce simp: inBlock_def)

lemma layout_live_update:
  "layout b as n \<Longrightarrow> layout b (as[k := (as ! k)\<lparr>live := l\<rparr>]) n"
proof (induction as arbitrary: b k)
  case (Cons a as)
  then show ?case by (cases k) auto
qed simp

lemma findBase_SomeD:
  "findBase b as = Some k \<Longrightarrow> k < length as \<and> baseIndex (as ! k) = b"
  by (induction as arbitrary: k) (auto split: if_splits)

lemma findBase_None_iff: "findBase b as = None \<longleftrightarrow> (\<forall>a \<in> set as. baseIndex a \<noteq> b)"
  by (induction as) auto

lemma findBase_nth:
  assumes "layout b0 as n" and "k < length as"
  shows "findBase (baseIndex (as ! k)) as = Some k"
proof (cases "findBase (baseIndex (as ! k)) as")
  case None
  then show ?thesis using assms(2) by (metis findBase_None_iff nth_mem)
next
  case (Some j)
  then have "j < length as" "baseIndex (as ! j) = baseIndex (as ! k)"
    by (auto dest: findBase_SomeD)
  then show ?thesis
    using Some layout_block_unique [OF assms(1), of j k "baseIndex (as ! k)"]
      inBlock_base [OF assms(1)] assms(2)
    by metis
qed

section \<open>The abstract heap\<close>

text \<open>
  What the heap promises its client: a map from the base slots of the live blocks to their
  contents.
\<close>

definition blockContents :: "VmHeap \<Rightarrow> HeapAllocation \<Rightarrow> u64 list" where
  "blockContents h a = take (slotCount a) (drop (baseIndex a) (heapSlots h))"

definition absHeap :: "VmHeap \<Rightarrow> nat \<Rightarrow> u64 list option" where
  "absHeap h b =
     (case findBase b (heapAllocations h) of
        None \<Rightarrow> None
      | Some k \<Rightarrow>
          (let a = heapAllocations h ! k in if live a then Some (blockContents h a) else None))"

lemma heap_inv_layout: "heap_inv h \<Longrightarrow> layout 0 (heapAllocations h) (length (heapSlots h))"
  by (simp add: heap_inv_def)

lemma heap_inv_empty: "heap_inv emptyHeap"
  by (simp add: heap_inv_def emptyHeap_def)

lemma absHeap_empty: "absHeap emptyHeap = Map.empty"
  by (rule ext) (simp add: absHeap_def emptyHeap_def)

lemma absHeap_nth:
  assumes "heap_inv h" and "k < length (heapAllocations h)"
  shows "absHeap h (baseIndex (heapAllocations h ! k)) =
    (if live (heapAllocations h ! k) then Some (blockContents h (heapAllocations h ! k)) else None)"
  by (simp add: absHeap_def findBase_nth [OF heap_inv_layout [OF assms(1)] assms(2)])

lemma absHeap_SomeE:
  assumes "absHeap h b = Some xs"
  obtains k where "findBase b (heapAllocations h) = Some k" and "k < length (heapAllocations h)"
    and "baseIndex (heapAllocations h ! k) = b" and "live (heapAllocations h ! k)"
    and "xs = blockContents h (heapAllocations h ! k)"
  using assms findBase_SomeD by (fastforce simp: absHeap_def Let_def split: option.splits if_splits)

lemma length_blockContents:
  assumes "heap_inv h" and "a \<in> set (heapAllocations h)"
  shows "length (blockContents h a) = slotCount a"
  using layout_in_bounds [OF heap_inv_layout [OF assms(1)] assms(2)]
  by (auto simp: blockContents_def min_def)

text \<open>Two blocks' contents agree when the slots of the block do.\<close>

lemma blockContents_cong:
  assumes "baseIndex a' = baseIndex a" and "slotCount a' = slotCount a"
    and "baseIndex a + slotCount a \<le> length (heapSlots h)"
    and "baseIndex a + slotCount a \<le> length (heapSlots h')"
    and "\<And>i. inBlock a i \<Longrightarrow> heapSlots h' ! i = heapSlots h ! i"
  shows "blockContents h' a' = blockContents h a"
  using assms by (intro nth_equalityI) (auto simp: blockContents_def inBlock_def)

lemma findBase_snoc:
  "findBase b (as @ [a]) =
     (case findBase b as of Some k \<Rightarrow> Some k
      | None \<Rightarrow> if baseIndex a = b then Some (length as) else None)"
  by (induction as) (auto split: option.splits)

lemma findBase_kill: "findBase b (as[k := (as ! k)\<lparr>live := l\<rparr>]) = findBase b as"
proof (induction as arbitrary: k)
  case (Cons a as)
  then show ?case by (cases k) auto
qed simp

section \<open>Allocation\<close>

lemma allocate_success:
  assumes "allocateVmHeapSlots maxSlots n IrSlotBytes h = Inr (addr, h')" and "n \<noteq> 0"
  shows "length (heapSlots h) < 2 ^ 59" "addr = heapAddress (length (heapSlots h))"
    "heapSlots h' = heapSlots h @ replicate (unat n) 0"
    "heapAllocations h' = heapAllocations h @
       [\<lparr>baseIndex = length (heapSlots h), slotCount = unat n, live = True\<rparr>]"
  using assms
  by (auto simp: allocateVmHeapSlots_def maxAddressableIndex heapAddress_def Let_def
      split: if_splits)

lemma allocate_inv:
  assumes "heap_inv h" and "allocateVmHeapSlots maxSlots n IrSlotBytes h = Inr (addr, h')"
  shows "heap_inv h'"
proof (cases "n = 0")
  case True
  then show ?thesis using assms by (simp add: allocateVmHeapSlots_def)
next
  case False
  note s = allocate_success [OF assms(2) False]
  have lay: "layout 0 (heapAllocations h) (length (heapSlots h))"
    by (rule heap_inv_layout [OF assms(1)])
  have "0 < unat n" using False by (simp add: unat_gt_0)
  then have "layout 0 (heapAllocations h') (length (heapSlots h'))"
    using layout_snoc [OF lay, of "unat n" True] by (simp add: s)
  moreover have "heapSlots h' ! i = 0"
    if "a \<in> set (heapAllocations h)" "\<not> live a" "baseIndex a \<le> i" "i < baseIndex a + slotCount a"
    for a i
    using that assms(1) layout_in_bounds [OF lay that(1)] by (auto simp: heap_inv_def s nth_append)
  ultimately show ?thesis
    using assms(1) s(1) by (auto simp: heap_inv_def s(4))
qed

lemma allocate_abs:
  assumes "heap_inv h" and "allocateVmHeapSlots maxSlots n IrSlotBytes h = Inr (addr, h')"
    and "n \<noteq> 0"
  shows "absHeap h (length (heapSlots h)) = None"
    "absHeap h' = (absHeap h)(length (heapSlots h) \<mapsto> replicate (unat n) 0)"
proof -
  note s = allocate_success [OF assms(2,3)]
  note lay = heap_inv_layout [OF assms(1)]
  let ?b = "length (heapSlots h)"
  have fresh: "findBase ?b (heapAllocations h) = None"
    using layout_in_bounds [OF lay] by (fastforce simp: findBase_None_iff)
  then show "absHeap h ?b = None" by (simp add: absHeap_def)
  show "absHeap h' = (absHeap h)(?b \<mapsto> replicate (unat n) 0)"
  proof
    fix b
    show "absHeap h' b = ((absHeap h)(?b \<mapsto> replicate (unat n) 0)) b"
    proof (cases "findBase b (heapAllocations h)")
      case None
      then show ?thesis
        by (auto simp: absHeap_def s findBase_snoc blockContents_def)
    next
      case (Some k)
      then have k: "k < length (heapAllocations h)" by (auto dest: findBase_SomeD)
      then have "blockContents h' (heapAllocations h ! k) = blockContents h (heapAllocations h ! k)"
        using layout_nth_bounds [OF lay k]
        by (intro blockContents_cong) (auto simp: s inBlock_def nth_append)
      then show ?thesis
        using Some fresh k by (auto simp: absHeap_def s findBase_snoc nth_append Let_def)
    qed
  qed
qed

section \<open>Writing inside a live block, releasing a block\<close>

lemma block_write:
  assumes inv: "heap_inv h" and k: "k < length (heapAllocations h)"
    and lv: "live (heapAllocations h ! k)"
    and len: "length ys = length (heapSlots h)"
    and outside: "\<And>i. \<not> inBlock (heapAllocations h ! k) i \<Longrightarrow> i < length ys \<Longrightarrow> ys ! i = heapSlots h ! i"
  defines "h' \<equiv> h\<lparr>heapSlots := ys\<rparr>"
  shows "heap_inv h'"
    "absHeap h' = (absHeap h)(baseIndex (heapAllocations h ! k) \<mapsto>
       blockContents h' (heapAllocations h ! k))"
proof -
  note lay = heap_inv_layout [OF inv]
  let ?as = "heapAllocations h"
  have same: "ys ! i = heapSlots h ! i" if "j < length ?as" "j \<noteq> k" "inBlock (?as ! j) i" for i j
  proof -
    have "\<not> inBlock (?as ! k) i"
      using layout_block_unique [OF lay that(1) k that(3)] that(2) by blast
    moreover have "i < length ys"
      using layout_nth_bounds [OF lay that(1)] that(3) len by (simp add: inBlock_def)
    ultimately show ?thesis by (rule outside)
  qed
  have dead: "ys ! i = 0" if "a \<in> set ?as" "\<not> live a" "baseIndex a \<le> i" "i < baseIndex a + slotCount a"
    for a i
  proof -
    obtain j where j: "j < length ?as" "?as ! j = a"
      using \<open>a \<in> set ?as\<close> by (auto simp: in_set_conv_nth)
    with lv that(2) have "j \<noteq> k" by auto
    with same [OF j(1)] j that inv show ?thesis
      by (auto simp: heap_inv_def inBlock_def)
  qed
  then show "heap_inv h'"
    using inv len by (auto simp: heap_inv_def h'_def)
  show "absHeap h' = (absHeap h)(baseIndex (?as ! k) \<mapsto> blockContents h' (?as ! k))"
  proof
    fix b
    show "absHeap h' b = ((absHeap h)(baseIndex (?as ! k) \<mapsto> blockContents h' (?as ! k))) b"
    proof (cases "findBase b ?as")
      case None
      moreover have "b \<noteq> baseIndex (?as ! k)" using findBase_nth [OF lay k] None by auto
      ultimately show ?thesis by (simp add: absHeap_def h'_def)
    next
      case (Some j)
      then have j: "j < length ?as" "baseIndex (?as ! j) = b" by (auto dest: findBase_SomeD)
      show ?thesis
      proof (cases "j = k")
        case True
        then show ?thesis using Some j lv by (simp add: absHeap_def h'_def)
      next
        case False
        have "blockContents h' (?as ! j) = blockContents h (?as ! j)"
          using layout_nth_bounds [OF lay j(1)] same [OF j(1) False] len
          by (intro blockContents_cong) (auto simp: h'_def)
        moreover have "b \<noteq> baseIndex (?as ! k)"
          using Some findBase_nth [OF lay k] False by auto
        ultimately show ?thesis using Some by (simp add: absHeap_def h'_def Let_def)
      qed
    qed
  qed
qed

definition killBlock :: "nat \<Rightarrow> VmHeap \<Rightarrow> VmHeap" where
  "killBlock k h =
     (let a = heapAllocations h ! k in
      \<lparr>heapSlots = fill_range (baseIndex a) (baseIndex a + slotCount a) 0 (heapSlots h),
       heapAllocations = (heapAllocations h)[k := a\<lparr>live := False\<rparr>]\<rparr>)"

lemma killBlock_fields:
  "length (heapSlots (killBlock k h)) = length (heapSlots h)"
  "heapAllocations (killBlock k h) = (heapAllocations h)[k := (heapAllocations h ! k)\<lparr>live := False\<rparr>]"
  "i < length (heapSlots h) \<Longrightarrow> heapSlots (killBlock k h) ! i =
     (if inBlock (heapAllocations h ! k) i then 0 else heapSlots h ! i)"
  by (simp_all add: killBlock_def Let_def nth_fill_range inBlock_def)

lemma killBlock_inv:
  assumes inv: "heap_inv h" and k: "k < length (heapAllocations h)"
  shows "heap_inv (killBlock k h)"
proof -
  note lay = heap_inv_layout [OF inv]
  let ?as = "heapAllocations h" and ?h' = "killBlock k h"
  have "layout 0 (heapAllocations ?h') (length (heapSlots ?h'))"
    using layout_live_update [OF lay] by (simp add: killBlock_fields)
  moreover have "baseIndex a < 2 ^ 59" if "a \<in> set (heapAllocations ?h')" for a
    using that inv k by (auto simp: killBlock_fields heap_inv_def dest!: set_update_subset_insert [THEN subsetD])
  moreover have "heapSlots ?h' ! i = 0"
    if a: "a \<in> set (heapAllocations ?h')" "\<not> live a" and i: "baseIndex a \<le> i \<and> i < baseIndex a + slotCount a"
    for a i
  proof -
    obtain j where j: "j < length ?as" and aj: "a = heapAllocations ?h' ! j"
      using a(1) by (auto simp: in_set_conv_nth killBlock_fields)
    have blk: "inBlock (?as ! j) i"
      using aj i j k by (auto simp: killBlock_fields inBlock_def nth_list_update split: if_splits)
    have len: "i < length (heapSlots h)"
      using layout_nth_bounds [OF lay j] blk by (simp add: inBlock_def)
    show ?thesis
    proof (cases "j = k")
      case True
      then show ?thesis using blk len by (simp add: killBlock_fields)
    next
      case False
      then have "?as ! j \<in> set ?as" "\<not> live (?as ! j)"
        using a(2) aj j by (auto simp: killBlock_fields)
      then have "heapSlots h ! i = 0"
        using inv blk by (auto simp: heap_inv_def inBlock_def)
      then show ?thesis using len by (simp add: killBlock_fields)
    qed
  qed
  ultimately show ?thesis by (auto simp: heap_inv_def)
qed

lemma killBlock_abs:
  assumes inv: "heap_inv h" and k: "k < length (heapAllocations h)"
  shows "absHeap (killBlock k h) = (absHeap h)(baseIndex (heapAllocations h ! k) := None)"
proof
  fix b
  note lay = heap_inv_layout [OF inv]
  let ?as = "heapAllocations h" and ?h' = "killBlock k h"
  have fb: "findBase b (heapAllocations ?h') = findBase b ?as"
    by (simp add: killBlock_fields findBase_kill)
  show "absHeap ?h' b = ((absHeap h)(baseIndex (?as ! k) := None)) b"
  proof (cases "findBase b ?as")
    case None
    then show ?thesis by (simp add: absHeap_def fb)
  next
    case (Some j)
    then have j: "j < length ?as" "baseIndex (?as ! j) = b" by (auto dest: findBase_SomeD)
    show ?thesis
    proof (cases "j = k")
      case True
      then show ?thesis using Some j fb k by (simp add: absHeap_def killBlock_fields)
    next
      case False
      have "blockContents ?h' (?as ! j) = blockContents h (?as ! j)"
        using layout_nth_bounds [OF lay j(1)] layout_block_unique [OF lay j(1) k] False
        by (intro blockContents_cong) (auto simp: killBlock_fields inBlock_def)
      moreover have "b \<noteq> baseIndex (?as ! k)"
        using Some findBase_nth [OF lay k] False by auto
      ultimately show ?thesis using Some fb False j by (simp add: absHeap_def killBlock_fields Let_def)
    qed
  qed
qed

section \<open>Release and reallocation refine the abstract heap\<close>

text \<open>The block a base address names, if the address is well formed and the block live.\<close>

definition addressedBlock :: "VmHeap \<Rightarrow> u64 \<Rightarrow> nat option" where
  "addressedBlock h address =
     (if isVmHeapAddress address \<and> address mod IrSlotBytes = 0
         \<and> absHeap h (heapIndexOf IrSlotBytes address) \<noteq> None
      then Some (heapIndexOf IrSlotBytes address) else None)"

lemma addressedBlock_SomeE:
  assumes "heap_inv h" and "addressedBlock h address = Some b"
  obtains k where "b = heapIndexOf IrSlotBytes address" and "findBase b (heapAllocations h) = Some k"
    and "k < length (heapAllocations h)" and "baseIndex (heapAllocations h ! k) = b"
    and "live (heapAllocations h ! k)" and "isVmHeapAddress address" and "address mod IrSlotBytes = 0"
    and "baseIndex (heapAllocations h ! k) + slotCount (heapAllocations h ! k) \<le> length (heapSlots h)"
    and "absHeap h b = Some (blockContents h (heapAllocations h ! k))"
proof -
  from assms(2) obtain xs where x: "absHeap h b = Some xs" and b: "b = heapIndexOf IrSlotBytes address"
    and a: "isVmHeapAddress address" "address mod IrSlotBytes = 0"
    by (auto simp: addressedBlock_def split: if_splits)
  from x obtain k where k: "findBase b (heapAllocations h) = Some k" "k < length (heapAllocations h)"
    "baseIndex (heapAllocations h ! k) = b" "live (heapAllocations h ! k)"
    "xs = blockContents h (heapAllocations h ! k)"
    by (rule absHeap_SomeE)
  show ?thesis
    using that [of k] k a b x layout_nth_bounds [OF heap_inv_layout [OF assms(1)] k(2)] by simp
qed

lemma free_eq:
  assumes "heap_inv h" and "address \<noteq> 0"
  shows "freeVmHeapSlots address IrSlotBytes h =
    (case addressedBlock h address of
       None \<Rightarrow> Inl (''invalid heap free address in IR: '' @ dec_nat (unat address))
     | Some b \<Rightarrow> Inr (killBlock (the (findBase b (heapAllocations h))) h))"
proof (cases "addressedBlock h address")
  case None
  then show ?thesis
    using assms(2) by (auto simp: freeVmHeapSlots_def addressedBlock_def absHeap_def Let_def
        split: option.splits if_splits)
next
  case (Some b)
  with assms(1) show ?thesis
  proof (rule addressedBlock_SomeE)
    fix k
    assume k: "b = heapIndexOf IrSlotBytes address" "findBase b (heapAllocations h) = Some k"
      "live (heapAllocations h ! k)" "isVmHeapAddress address" "address mod IrSlotBytes = 0"
      "baseIndex (heapAllocations h ! k) + slotCount (heapAllocations h ! k) \<le> length (heapSlots h)"
    then have "freeVmHeapSlots address IrSlotBytes h = Inr (killBlock k h)"
      using assms(2) by (simp add: freeVmHeapSlots_def Let_def killBlock_def k(1) [symmetric]
          k(2-5) not_less)
    then show ?thesis
      using Some k(2) by simp
  qed
qed

lemma free_refines:
  assumes "heap_inv h" and "address \<noteq> 0"
  shows "freeVmHeapSlots address IrSlotBytes h \<in> range Inl \<longleftrightarrow> addressedBlock h address = None"
    and "freeVmHeapSlots address IrSlotBytes h = Inr h' \<Longrightarrow>
      heap_inv h' \<and> absHeap h' = (absHeap h)(heapIndexOf IrSlotBytes address := None)
      \<and> length (heapSlots h') = length (heapSlots h)"
proof -
  show "freeVmHeapSlots address IrSlotBytes h \<in> range Inl \<longleftrightarrow> addressedBlock h address = None"
    by (auto simp: free_eq [OF assms] split: option.splits)
  assume f: "freeVmHeapSlots address IrSlotBytes h = Inr h'"
  then obtain b where b: "addressedBlock h address = Some b"
    by (cases "addressedBlock h address") (auto simp: free_eq [OF assms])
  then have bi: "b = heapIndexOf IrSlotBytes address"
    by (auto simp: addressedBlock_def split: if_splits)
  from assms(1) b show "heap_inv h' \<and> absHeap h' = (absHeap h)(heapIndexOf IrSlotBytes address := None)
      \<and> length (heapSlots h') = length (heapSlots h)"
    by (rule addressedBlock_SomeE)
      (use f b bi in \<open>auto simp: free_eq [OF assms] killBlock_inv [OF assms(1)]
          killBlock_abs [OF assms(1)] killBlock_fields\<close>)
qed

lemma free_inv:
  assumes "heap_inv h" and "freeVmHeapSlots address IrSlotBytes h = Inr h'"
  shows "heap_inv h'"
  using assms free_refines(2) [OF assms(1), of address h']
  by (cases "address = 0") (auto simp: freeVmHeapSlots_def)

text \<open>
  Reallocation of a live block: a fresh block that starts with the old contents, cut or
  padded with zeros, and the old block gone.
\<close>

definition resized :: "nat \<Rightarrow> u64 list \<Rightarrow> u64 list" where
  "resized n xs = take n xs @ replicate (n - length xs) 0"

text \<open>The heap between the copy and the release of the old block.\<close>

definition copiedHeap :: "HeapAllocation \<Rightarrow> nat \<Rightarrow> nat \<Rightarrow> VmHeap \<Rightarrow> VmHeap" where
  "copiedHeap a newBase n h1 =
     h1\<lparr>heapSlots := copy_range newBase (baseIndex a) (min (slotCount a) n) (heapSlots h1)\<rparr>"

lemma realloc_missing:
  assumes "addressedBlock h address = None" and "address \<noteq> 0" and "n \<noteq> 0"
  shows "reallocVmHeapSlots maxSlots address n IrSlotBytes h =
    Inl (''invalid heap realloc address in IR: '' @ dec_nat (unat address))"
  using assms by (auto simp: reallocVmHeapSlots_def addressedBlock_def absHeap_def Let_def
      split: option.splits if_splits)

lemma realloc_live_eq:
  assumes "heapIndexOf IrSlotBytes address = b" and "findBase b (heapAllocations h) = Some k"
    and "isVmHeapAddress address" and "address mod IrSlotBytes = 0"
    and "live (heapAllocations h ! k)" and "baseIndex (heapAllocations h ! k) = b"
    and "b + slotCount (heapAllocations h ! k) \<le> length (heapSlots h)"
    and "k < length (heapAllocations h)" and "address \<noteq> 0" and "n \<noteq> 0"
  shows "reallocVmHeapSlots maxSlots address n IrSlotBytes h =
    (case allocateVmHeapSlots maxSlots n IrSlotBytes h of
       Inl e \<Rightarrow> Inl e
     | Inr (addr, h1) \<Rightarrow>
         Inr (addr, killBlock k (copiedHeap (heapAllocations h ! k) (length (heapSlots h)) (unat n) h1)))"
proof (cases "allocateVmHeapSlots maxSlots n IrSlotBytes h")
  case (Inl e)
  then show ?thesis
    using assms by (simp add: reallocVmHeapSlots_def not_less)
next
  case (Inr r)
  then obtain addr h1 where r: "allocateVmHeapSlots maxSlots n IrSlotBytes h = Inr (addr, h1)"
    by (cases r) auto
  note s = allocate_success [OF r assms(10)]
  have f: "findBase b (heapAllocations h1) = Some k"
    by (simp add: s(4) findBase_snoc assms(2))
  have i: "heapIndexOf IrSlotBytes addr = length (heapSlots h)"
    using s(1) by (simp add: s(2) heapAddress_facts)
  have e: "heapAllocations h1 ! k = heapAllocations h ! k"
    using assms(8) by (simp add: s(4) nth_append)
  show ?thesis
    using assms by (simp add: reallocVmHeapSlots_def r f i e not_less killBlock_def copiedHeap_def Let_def)
qed

lemma realloc_eq:
  assumes inv: "heap_inv h" and b: "addressedBlock h address = Some b"
    and "address \<noteq> 0" and "n \<noteq> 0"
    and k: "findBase b (heapAllocations h) = Some k"
  shows "reallocVmHeapSlots maxSlots address n IrSlotBytes h =
    (case allocateVmHeapSlots maxSlots n IrSlotBytes h of
       Inl e \<Rightarrow> Inl e
     | Inr (addr, h1) \<Rightarrow>
         Inr (addr, killBlock k (copiedHeap (heapAllocations h ! k) (length (heapSlots h)) (unat n) h1)))"
  using inv b
proof (rule addressedBlock_SomeE)
  fix k'
  assume kk: "b = heapIndexOf IrSlotBytes address" "findBase b (heapAllocations h) = Some k'"
    "k' < length (heapAllocations h)" "baseIndex (heapAllocations h ! k') = b"
    "live (heapAllocations h ! k')" "isVmHeapAddress address" "address mod IrSlotBytes = 0"
    "baseIndex (heapAllocations h ! k') + slotCount (heapAllocations h ! k') \<le> length (heapSlots h)"
  then have "k' = k" using k by simp
  show ?thesis
    by (rule realloc_live_eq [where b = b]) (use kk \<open>k' = k\<close> assms(3,4) in simp_all)
qed

lemma copiedHeap_refines:
  assumes inv: "heap_inv h" and k: "k < length (heapAllocations h)"
    and r: "allocateVmHeapSlots maxSlots n IrSlotBytes h = Inr (addr, h1)" and n: "n \<noteq> 0"
  defines "a \<equiv> heapAllocations h ! k" and "L \<equiv> length (heapSlots h)"
  defines "h2 \<equiv> copiedHeap a L (unat n) h1"
  shows "heap_inv h2"
    "absHeap h2 = (absHeap h)(L \<mapsto> resized (unat n) (blockContents h a))"
proof -
  note s = allocate_success [OF r n]
  note bnd = layout_nth_bounds [OF heap_inv_layout [OF inv] k, folded a_def]
  let ?m = "min (slotCount a) (unat n)" and ?K = "length (heapAllocations h)"
  have K: "?K < length (heapAllocations h1)" and new: "heapAllocations h1 ! ?K =
      \<lparr>baseIndex = L, slotCount = unat n, live = True\<rparr>"
    by (simp_all add: s L_def)
  have copy: "copy_range L (baseIndex a) ?m (heapSlots h1) ! i =
      (if L \<le> i \<and> i < L + ?m then heapSlots h1 ! (baseIndex a + (i - L)) else heapSlots h1 ! i)"
    if "i < L + unat n" for i
    using bnd that by (intro nth_copy_range) (auto simp: s L_def)
  have len: "length (heapSlots h1) = L + unat n" by (simp add: s L_def)
  have outside: "copy_range L (baseIndex a) ?m (heapSlots h1) ! i = heapSlots h1 ! i"
    if "\<not> inBlock (heapAllocations h1 ! ?K) i"
      "i < length (copy_range L (baseIndex a) ?m (heapSlots h1))" for i
    using that by (auto simp: copy new inBlock_def len)
  note w = block_write [OF allocate_inv [OF inv r] K _ _ outside, unfolded new, simplified]
  show "heap_inv h2"
    using w(1) by (simp add: h2_def copiedHeap_def)
  let ?new = "\<lparr>baseIndex = L, slotCount = unat n, live = True\<rparr>"
  have lnew: "length (blockContents h2 ?new) = unat n"
    by (simp add: blockContents_def h2_def copiedHeap_def len)
  have lold: "length (blockContents h a) = slotCount a"
    using length_blockContents [OF inv] k by (simp add: a_def)
  have "blockContents h2 ?new = resized (unat n) (blockContents h a)"
  proof (rule nth_equalityI)
    show "length (blockContents h2 ?new) = length (resized (unat n) (blockContents h a))"
      by (simp add: lnew lold resized_def)
    fix i assume "i < length (blockContents h2 ?new)"
    then have i: "i < unat n" by (simp add: lnew)
    then have "blockContents h2 ?new ! i = copy_range L (baseIndex a) ?m (heapSlots h1) ! (L + i)"
      by (simp add: blockContents_def h2_def copiedHeap_def len)
    also have "\<dots> = (if i < ?m then heapSlots h ! (baseIndex a + i) else 0)"
      using i bnd by (simp only: copy nat_add_left_cancel_less) (auto simp: s(3) L_def nth_append)
    also have "\<dots> = resized (unat n) (blockContents h a) ! i"
      using i bnd by (auto simp: resized_def nth_append lold blockContents_def)
    finally show "blockContents h2 ?new ! i = resized (unat n) (blockContents h a) ! i" .
  qed
  then show "absHeap h2 = (absHeap h)(L \<mapsto> resized (unat n) (blockContents h a))"
    using w(2) allocate_abs(2) [OF inv r n] by (simp add: h2_def copiedHeap_def L_def)
qed

lemma realloc_refines:
  assumes inv: "heap_inv h" and b: "addressedBlock h address = Some b"
    and addr: "address \<noteq> 0" and n: "n \<noteq> 0"
    and r: "reallocVmHeapSlots maxSlots address n IrSlotBytes h = Inr (naddr, h')"
  shows "heap_inv h'" "naddr = heapAddress (length (heapSlots h))"
    "absHeap h' = (absHeap h)(length (heapSlots h) \<mapsto> resized (unat n) (the (absHeap h b)), b := None)"
    "length (heapSlots h) \<le> length (heapSlots h')"
proof -
  have "heap_inv h' \<and> naddr = heapAddress (length (heapSlots h)) \<and>
    absHeap h' = (absHeap h)(length (heapSlots h) \<mapsto> resized (unat n) (the (absHeap h b)), b := None)
    \<and> length (heapSlots h) \<le> length (heapSlots h')"
    using inv b
  proof (rule addressedBlock_SomeE)
    fix k
    assume k: "findBase b (heapAllocations h) = Some k" "k < length (heapAllocations h)"
      "baseIndex (heapAllocations h ! k) = b" "absHeap h b = Some (blockContents h (heapAllocations h ! k))"
    from r obtain h1 where a: "allocateVmHeapSlots maxSlots n IrSlotBytes h = Inr (naddr, h1)"
      and h': "h' = killBlock k (copiedHeap (heapAllocations h ! k) (length (heapSlots h)) (unat n) h1)"
      by (auto simp: realloc_eq [OF inv b addr n k(1)] split: sum.splits prod.splits)
    note c = copiedHeap_refines [OF inv k(2) a n]
    note s = allocate_success [OF a n]
    let ?h2 = "copiedHeap (heapAllocations h ! k) (length (heapSlots h)) (unat n) h1"
    have k2: "k < length (heapAllocations ?h2)" "heapAllocations ?h2 ! k = heapAllocations h ! k"
      using k(2) by (simp_all add: copiedHeap_def s nth_append)
    show ?thesis
      using killBlock_inv [OF c(1) k2(1)] killBlock_abs [OF c(1) k2(1)] s(2) k(3,4)
      by (simp add: h' c(2) k2(2) killBlock_fields) (simp add: copiedHeap_def s(3))
  qed
  then show "heap_inv h'" "naddr = heapAddress (length (heapSlots h))"
    "absHeap h' = (absHeap h)(length (heapSlots h) \<mapsto> resized (unat n) (the (absHeap h b)), b := None)"
    "length (heapSlots h) \<le> length (heapSlots h')"
    by simp_all
qed

section \<open>Indirect addresses\<close>

definition liveSlot :: "VmHeap \<Rightarrow> nat \<Rightarrow> bool" where
  "liveSlot h i \<longleftrightarrow> (\<exists>b xs. absHeap h b = Some xs \<and> b \<le> i \<and> i < b + length xs)"

lemma liveSlot_iff:
  assumes inv: "heap_inv h"
  shows "liveSlot h i \<longleftrightarrow> (\<exists>a \<in> set (heapAllocations h). live a \<and> inBlock a i)"
proof
  assume "liveSlot h i"
  then obtain b xs where "absHeap h b = Some xs" and i: "b \<le> i" "i < b + length xs"
    by (auto simp: liveSlot_def)
  then show "\<exists>a \<in> set (heapAllocations h). live a \<and> inBlock a i"
    by (elim absHeap_SomeE) (use i length_blockContents [OF inv] in \<open>auto simp: inBlock_def\<close>)
next
  assume "\<exists>a \<in> set (heapAllocations h). live a \<and> inBlock a i"
  then obtain k where "k < length (heapAllocations h)" "live (heapAllocations h ! k)"
    "inBlock (heapAllocations h ! k) i"
    by (auto simp: in_set_conv_nth)
  with absHeap_nth [OF inv, of k] length_blockContents [OF inv, of "heapAllocations h ! k"]
  show "liveSlot h i"
    by (auto simp: liveSlot_def inBlock_def
        intro!: exI [where x = "baseIndex (heapAllocations h ! k)"])
qed

lemma liveSlot_bound: "heap_inv h \<Longrightarrow> liveSlot h i \<Longrightarrow> i < length (heapSlots h)"
  by (fastforce simp: liveSlot_iff inBlock_def dest: layout_in_bounds [OF heap_inv_layout])

lemma resolve_eq:
  assumes "heap_inv h"
  shows "resolveIndirectAddress a IrSlotBytes locals h =
    (if a mod IrSlotBytes \<noteq> 0 then Inl (''unaligned indirect address in IR: '' @ dec_nat (unat a))
     else if isVmHeapAddress a \<and> liveSlot h (heapIndexOf IrSlotBytes a)
       then Inr (HeapSlot (heapIndexOf IrSlotBytes a))
     else if \<not> isVmHeapAddress a \<and> unat (a div IrSlotBytes) < length locals
       then Inr (LocalSlot (unat (a div IrSlotBytes)))
     else Inl (''invalid indirect address in IR: '' @ dec_nat (unat a)))"
proof -
  let ?i = "heapIndexOf IrSlotBytes a"
  have "liveSlot h ?i \<longleftrightarrow> ?i < length (heapSlots h) \<and>
      find (\<lambda>a. live a \<and> baseIndex a \<le> ?i \<and> ?i < baseIndex a + slotCount a) (heapAllocations h) \<noteq> None"
    using liveSlot_bound [OF assms, of ?i]
    by (auto simp: liveSlot_iff [OF assms] find_None_iff inBlock_def)
  then show ?thesis
    by (auto simp: resolveIndirectAddress_def Let_def not_le split: option.splits)
qed

lemma store_heap:
  fixes v :: u64
  assumes inv: "heap_inv h" and l: "liveSlot h i"
  defines "h' \<equiv> h\<lparr>heapSlots := (heapSlots h)[i := v]\<rparr>"
  shows "heap_inv h'" "liveSlot h' j \<longleftrightarrow> liveSlot h j"
proof -
  obtain k where k: "k < length (heapAllocations h)" "live (heapAllocations h ! k)"
    "inBlock (heapAllocations h ! k) i"
    using l by (auto simp: liveSlot_iff [OF inv] in_set_conv_nth)
  show inv': "heap_inv h'"
    unfolding h'_def by (rule block_write(1) [OF inv k(1,2)]) (simp, metis k(3) nth_list_update_neq)
  show "liveSlot h' j \<longleftrightarrow> liveSlot h j"
    by (simp add: liveSlot_iff [OF inv] liveSlot_iff [OF inv']) (simp add: h'_def)
qed

section \<open>Heap histories\<close>

text \<open>What a program can do to the heap: the three heap opcodes and indirect stores.\<close>

inductive heapStep :: "nat \<Rightarrow> VmHeap \<Rightarrow> VmHeap \<Rightarrow> bool" for maxSlots where
  step_alloc: "allocateVmHeapSlots maxSlots n IrSlotBytes h = Inr (addr, h') \<Longrightarrow> heapStep maxSlots h h'"
| step_free: "freeVmHeapSlots addr IrSlotBytes h = Inr h' \<Longrightarrow> heapStep maxSlots h h'"
| step_realloc: "reallocVmHeapSlots maxSlots addr n IrSlotBytes h = Inr (naddr, h') \<Longrightarrow>
     heapStep maxSlots h h'"
| step_store: "resolveIndirectAddress addr IrSlotBytes locals h = Inr r \<Longrightarrow>
     heapStep maxSlots h (snd (storeSlot locals h r v))"

lemma liveSlot_upd:
  assumes "absHeap h' = (absHeap h)(b \<mapsto> xs)" and "liveSlot h' i"
  shows "liveSlot h i \<or> b \<le> i"
  using assms by (auto simp: liveSlot_def split: if_splits)

lemma liveSlot_del:
  assumes "absHeap h' = m(b := None)" and "liveSlot h' i"
  shows "\<exists>c xs. m c = Some xs \<and> c \<noteq> b \<and> c \<le> i \<and> i < c + length xs"
  using assms by (auto simp: liveSlot_def split: if_splits)

lemma allocate_zero: "allocateVmHeapSlots maxSlots 0 sb h = Inr (0, h)"
  by (simp add: allocateVmHeapSlots_def)

lemma alloc_step:
  assumes "heap_inv h" and r: "allocateVmHeapSlots maxSlots n IrSlotBytes h = Inr (addr, h')"
  shows "heap_inv h' \<and> length (heapSlots h) \<le> length (heapSlots h')
    \<and> (liveSlot h' i \<longrightarrow> liveSlot h i \<or> length (heapSlots h) \<le> i)"
proof (cases "n = 0")
  case True
  then show ?thesis using assms by (simp add: allocate_zero)
next
  case False
  then show ?thesis
    using allocate_inv [OF assms] allocate_success [OF r False]
      liveSlot_upd [OF allocate_abs(2) [OF assms False]] by auto
qed

lemma free_step:
  assumes "heap_inv h" and r: "freeVmHeapSlots addr IrSlotBytes h = Inr h'"
  shows "heap_inv h' \<and> length (heapSlots h) \<le> length (heapSlots h')
    \<and> (liveSlot h' i \<longrightarrow> liveSlot h i)"
proof (cases "addr = 0")
  case True
  then show ?thesis using assms by (simp add: freeVmHeapSlots_def)
next
  case False
  note f = free_refines(2) [OF assms(1) False r]
  then show ?thesis
    using liveSlot_del [of h' "absHeap h" _ i] by (auto simp: liveSlot_def)
qed

lemma realloc_step:
  assumes inv: "heap_inv h" and r: "reallocVmHeapSlots maxSlots addr n IrSlotBytes h = Inr (naddr, h')"
  shows "heap_inv h' \<and> length (heapSlots h) \<le> length (heapSlots h')
    \<and> (liveSlot h' i \<longrightarrow> liveSlot h i \<or> length (heapSlots h) \<le> i)"
proof (cases "addr = 0 \<or> n = 0")
  case True
  show ?thesis
  proof (cases "addr = 0")
    case True
    then show ?thesis using alloc_step [OF inv] r by (simp add: reallocVmHeapSlots_def)
  next
    case False
    with True r have "freeVmHeapSlots addr IrSlotBytes h = Inr h'"
      by (auto simp: reallocVmHeapSlots_def split: sum.splits)
    then show ?thesis using free_step [OF inv] by blast
  qed
next
  case False
  then obtain b where b: "addressedBlock h addr = Some b"
    using r realloc_missing [of h addr n maxSlots] by (cases "addressedBlock h addr") auto
  note rr = realloc_refines [OF inv b _ _ r]
  have "liveSlot h i \<or> length (heapSlots h) \<le> i" if "liveSlot h' i"
    using liveSlot_del [OF rr(3) that] False by (auto simp: liveSlot_def split: if_splits)
  then show ?thesis using rr False by auto
qed

lemma store_step:
  assumes inv: "heap_inv h" and r: "resolveIndirectAddress addr IrSlotBytes locals h = Inr r"
  shows "heap_inv (snd (storeSlot locals h r v))
    \<and> length (heapSlots h) \<le> length (heapSlots (snd (storeSlot locals h r v)))
    \<and> (liveSlot (snd (storeSlot locals h r v)) i \<longrightarrow> liveSlot h i)"
  using r inv store_heap [OF inv] by (auto simp: resolve_eq [OF inv] storeSlot_def split: if_splits)

lemma heapStep_facts:
  assumes "heap_inv h" and "heapStep maxSlots h h'"
  shows "heap_inv h'" "length (heapSlots h) \<le> length (heapSlots h')"
    "liveSlot h' i \<Longrightarrow> liveSlot h i \<or> length (heapSlots h) \<le> i"
  using assms(2) alloc_step [OF assms(1)] free_step [OF assms(1)] realloc_step [OF assms(1)]
    store_step [OF assms(1)]
  by (cases rule: heapStep.cases; blast)+

interpretation vm_heap: no_revival heap_inv "heapStep maxSlots" "\<lambda>h. length (heapSlots h)" liveSlot
  for maxSlots
  by unfold_locales (use heapStep_facts in blast)+

section \<open>Properties\<close>

text \<open>
  C15: allocation of \<open>n > 0\<close> slots, when it succeeds, returns the address of a block that
  was not live before, adds exactly that block, filled with zeros, to the abstract heap and
  keeps the heap invariant; it fails, with the overflow message and nothing changed, exactly
  when the slot vector cannot hold the block or the new base index is not addressable.
\<close>

theorem heap_alloc_refines:
  assumes "heap_inv h" and "n \<noteq> 0"
  shows "case allocateVmHeapSlots maxSlots n IrSlotBytes h of
      Inl e \<Rightarrow> e = ''VM heap allocation overflow''
        \<and> (maxSlots - length (heapSlots h) < unat n \<or> 2 ^ 59 \<le> length (heapSlots h))
    | Inr (addr, h') \<Rightarrow>
        unat n \<le> maxSlots - length (heapSlots h) \<and> length (heapSlots h) < 2 ^ 59
        \<and> heap_inv h' \<and> addressedBlock h addr = None
        \<and> addressedBlock h' addr = Some (length (heapSlots h))
        \<and> absHeap h' = (absHeap h)(length (heapSlots h) \<mapsto> replicate (unat n) 0)"
proof (cases "allocateVmHeapSlots maxSlots n IrSlotBytes h")
  case (Inl e)
  have "unat n < 2 ^ 64"
    using unsigned_less [of n] by simp
  with Inl show ?thesis
    using assms(2)
    by (auto simp: allocateVmHeapSlots_def maxAddressableIndex Let_def split: if_splits)
next
  case (Inr r)
  then obtain addr h' where r: "allocateVmHeapSlots maxSlots n IrSlotBytes h = Inr (addr, h')"
    by (cases r) auto
  note s = allocate_success [OF r assms(2)]
  have "unat n \<le> maxSlots - length (heapSlots h)"
    using r assms(2) by (auto simp: allocateVmHeapSlots_def split: if_splits)
  then show ?thesis
    using allocate_inv [OF assms(1) r] allocate_abs [OF assms(1) r assms(2)] s(1)
    by (simp add: r addressedBlock_def s(2) heapAddress_facts)
qed

theorem heap_alloc_refines_witness:
  "\<exists>addr h'. allocateVmHeapSlots 100 3 IrSlotBytes emptyHeap = Inr (addr, h')
    \<and> absHeap h' = [0 \<mapsto> [0, 0, 0]] \<and> addressedBlock h' addr = Some 0"
proof -
  have replicate3: "replicate 3 (0 :: u64) = [0, 0, 0]"
    by (simp add: eval_nat_numeral)
  have "\<exists>addr h'. allocateVmHeapSlots 100 3 IrSlotBytes emptyHeap = Inr (addr, h')"
    by (simp add: allocateVmHeapSlots_def maxAddressableIndex Let_def)
  then show ?thesis
    using heap_alloc_refines [OF heap_inv_empty, of 3 100]
    by (auto simp: absHeap_empty replicate3)
qed

text \<open>
  C16: freeing a nonzero address succeeds exactly when the address is the base address of a
  live block, and then removes that block and nothing else; every other address (an interior
  one, an unaligned one, one already freed) is reported as invalid.
\<close>

theorem heap_free_refines:
  assumes "heap_inv h" and "addr \<noteq> 0"
  shows "case freeVmHeapSlots addr IrSlotBytes h of
      Inl e \<Rightarrow> addressedBlock h addr = None
        \<and> e = ''invalid heap free address in IR: '' @ dec_nat (unat addr)
    | Inr h' \<Rightarrow> \<exists>b. addressedBlock h addr = Some b \<and> heap_inv h'
        \<and> absHeap h' = (absHeap h)(b := None)
        \<and> freeVmHeapSlots addr IrSlotBytes h'
            = Inl (''invalid heap free address in IR: '' @ dec_nat (unat addr))"
proof (cases "addressedBlock h addr")
  case None
  then show ?thesis by (simp add: free_eq [OF assms])
next
  case (Some b)
  then obtain h' where r: "freeVmHeapSlots addr IrSlotBytes h = Inr h'"
    by (simp add: free_eq [OF assms])
  note f = free_refines(2) [OF assms r]
  have b: "b = heapIndexOf IrSlotBytes addr"
    using Some by (auto simp: addressedBlock_def split: if_splits)
  have "addressedBlock h' addr = None"
    using f by (simp add: addressedBlock_def)
  then show ?thesis
    using f b Some by (simp add: r free_eq assms(2))
qed

definition twoBlockHeap :: VmHeap where
  "twoBlockHeap =
     \<lparr>heapSlots = [7, 8, 9],
      heapAllocations = [\<lparr>baseIndex = 0, slotCount = 2, live = True\<rparr>,
                         \<lparr>baseIndex = 2, slotCount = 1, live = True\<rparr>]\<rparr>"

lemma twoBlockHeap_inv: "heap_inv twoBlockHeap"
  by (simp add: heap_inv_def twoBlockHeap_def)

theorem heap_free_refines_witness:
  "\<exists>h'. freeVmHeapSlots (heapAddress 0) IrSlotBytes twoBlockHeap = Inr h'
    \<and> freeVmHeapSlots (heapAddress 0) IrSlotBytes h'
        = Inl (''invalid heap free address in IR: '' @ dec_nat (2 ^ 63))"
proof -
  have ne: "heapAddress 0 \<noteq> 0" by (rule heapAddress_facts) simp
  have "addressedBlock twoBlockHeap (heapAddress 0) = Some 0"
    by (simp add: addressedBlock_def heapAddress_facts)
      (simp add: absHeap_def twoBlockHeap_def Let_def)
  then show ?thesis
    using heap_free_refines [OF twoBlockHeap_inv ne]
    by (simp add: unat_heapAddress free_eq [OF twoBlockHeap_inv ne])
qed

text \<open>
  C14: reallocating a live block to \<open>n > 0\<close> slots, when it succeeds, moves it to a fresh
  block that keeps the first \<open>n\<close> old values and pads with zeros, releases the old block and
  leaves every other block as it was.
\<close>

theorem heap_realloc_refines:
  assumes "heap_inv h" and "addr \<noteq> 0" and "n \<noteq> 0"
    and "reallocVmHeapSlots maxSlots addr n IrSlotBytes h = Inr (naddr, h')"
  shows "\<exists>b xs. addressedBlock h addr = Some b \<and> absHeap h b = Some xs
    \<and> heap_inv h' \<and> absHeap h (length (heapSlots h)) = None
    \<and> addressedBlock h' naddr = Some (length (heapSlots h))
    \<and> absHeap h' = (absHeap h)(length (heapSlots h) \<mapsto> resized (unat n) xs, b := None)"
proof -
  obtain b where b: "addressedBlock h addr = Some b"
    using assms realloc_missing [of h addr n maxSlots] by (cases "addressedBlock h addr") auto
  then obtain xs where x: "absHeap h b = Some xs"
    by (auto simp: addressedBlock_def split: if_splits)
  note r = realloc_refines [OF assms(1) b assms(2-4)]
  obtain k where "findBase b (heapAllocations h) = Some k"
    using x by (auto elim: absHeap_SomeE)
  then obtain h1 where a: "allocateVmHeapSlots maxSlots n IrSlotBytes h = Inr (naddr, h1)"
    using assms(4) by (auto simp: realloc_eq [OF assms(1) b assms(2,3)] split: sum.splits prod.splits)
  note s = allocate_success(1) [OF a assms(3)] allocate_abs(1) [OF assms(1) a assms(3)]
  then have "b \<noteq> length (heapSlots h)" using x by auto
  then have "addressedBlock h' naddr = Some (length (heapSlots h))"
    using r(2,3) s(1) by (simp add: addressedBlock_def heapAddress_facts)
  then show ?thesis using b x r(1,3) s(2) by auto
qed

theorem heap_realloc_refines_witness:
  "\<exists>naddr h'. reallocVmHeapSlots 100 (heapAddress 0) 3 IrSlotBytes twoBlockHeap = Inr (naddr, h')
    \<and> absHeap h' 3 = Some [7, 8, 0] \<and> absHeap h' 0 = None \<and> absHeap h' 2 = Some [9]"
proof -
  have ne: "heapAddress 0 \<noteq> 0" "(3 :: u64) \<noteq> 0" by (rule heapAddress_facts) simp_all
  have b: "addressedBlock twoBlockHeap (heapAddress 0) = Some 0"
    by (simp add: addressedBlock_def heapAddress_facts) (simp add: absHeap_def twoBlockHeap_def Let_def)
  have "\<exists>r. reallocVmHeapSlots 100 (heapAddress 0) 3 IrSlotBytes twoBlockHeap = Inr r"
    by (subst realloc_eq [OF twoBlockHeap_inv b ne, of 0])
      (simp_all add: twoBlockHeap_def allocateVmHeapSlots_def maxAddressableIndex Let_def)
  then obtain naddr h' where
    r: "reallocVmHeapSlots 100 (heapAddress 0) 3 IrSlotBytes twoBlockHeap = Inr (naddr, h')"
    by auto
  from heap_realloc_refines [OF twoBlockHeap_inv ne r] b
  have "absHeap h' = (absHeap twoBlockHeap)
      (3 \<mapsto> resized 3 (the (absHeap twoBlockHeap 0)), 0 := None)"
    by (auto simp: twoBlockHeap_def)
  moreover have "absHeap twoBlockHeap 0 = Some [7, 8]" "absHeap twoBlockHeap 2 = Some [9]"
    by (simp_all add: absHeap_def twoBlockHeap_def blockContents_def Let_def)
  ultimately show ?thesis
    using r by (simp add: resized_def)
qed

text \<open>
  C17: an indirect address resolves exactly when it is aligned and names a slot of a live
  block (tagged address) or a slot of the running frame (untagged address). Storing through
  a resolved address and loading from it returns the value stored, changes no other slot,
  keeps the heap invariant and changes the resolution of no address.
\<close>

theorem indirect_store_load:
  assumes "heap_inv h" and "resolveIndirectAddress a IrSlotBytes locals h = Inr r"
    and "storeSlot locals h r v = (locals', h')"
  shows "loadSlot locals' h' r = v \<and> heap_inv h'
    \<and> (\<forall>a2 r2. resolveIndirectAddress a2 IrSlotBytes locals h = Inr r2 \<and> r2 \<noteq> r \<longrightarrow>
         loadSlot locals' h' r2 = loadSlot locals h r2)
    \<and> (\<forall>a2. resolveIndirectAddress a2 IrSlotBytes locals' h' = resolveIndirectAddress a2 IrSlotBytes locals h)"
proof -
  note inv = assms(1)
  have c: "(\<exists>i. r = HeapSlot i \<and> liveSlot h i \<and> i < length (heapSlots h))
      \<or> (\<exists>i. r = LocalSlot i \<and> i < length locals)"
    using assms(2) liveSlot_bound [OF inv] by (auto simp: resolve_eq [OF inv] split: if_splits)
  have inv': "heap_inv h'"
    using c assms(3) store_heap(1) [OF inv] inv by (auto simp: storeSlot_def)
  have live: "liveSlot h' i \<longleftrightarrow> liveSlot h i" for i
    using c assms(3) store_heap(2) [OF inv] by (auto simp: storeSlot_def)
  have len: "length locals' = length locals"
    using assms(3) by (auto simp: storeSlot_def split: SlotRef.splits)
  have "loadSlot locals' h' r = v"
    using c assms(3) by (auto simp: storeSlot_def loadSlot_def)
  moreover have "\<forall>a2 r2. resolveIndirectAddress a2 IrSlotBytes locals h = Inr r2 \<and> r2 \<noteq> r \<longrightarrow>
       loadSlot locals' h' r2 = loadSlot locals h r2"
    using assms(3) by (auto simp: storeSlot_def loadSlot_def split: SlotRef.splits)
  moreover have "\<forall>a2. resolveIndirectAddress a2 IrSlotBytes locals' h' = resolveIndirectAddress a2 IrSlotBytes locals h"
    by (simp add: resolve_eq [OF inv] resolve_eq [OF inv'] live len)
  ultimately show ?thesis using inv' by blast
qed

theorem indirect_store_load_witness:
  "\<exists>r h'. resolveIndirectAddress (heapAddress 1) IrSlotBytes [5] twoBlockHeap = Inr r
    \<and> storeSlot [5] twoBlockHeap r 42 = ([5], h') \<and> loadSlot [5] h' r = 42"
proof -
  have "resolveIndirectAddress (heapAddress 1) IrSlotBytes [5] twoBlockHeap = Inr (HeapSlot 1)"
    using heapAddress_facts [of 1] liveSlot_iff [OF twoBlockHeap_inv, of 1]
    by (simp add: resolve_eq [OF twoBlockHeap_inv]) (simp add: twoBlockHeap_def inBlock_def)
  then show ?thesis
    using indirect_store_load [OF twoBlockHeap_inv, of "heapAddress 1" "[5]" "HeapSlot 1" 42]
    by (simp add: storeSlot_def)
qed

text \<open>
  C4: no use after free. Once a block is freed, no later sequence of allocations, frees,
  reallocations and indirect stores makes any of its slots resolvable again, so every
  dangling heap address faults for the rest of the run.
\<close>

theorem heap_no_use_after_free:
  assumes "heap_inv h" and "freeVmHeapSlots addr IrSlotBytes h = Inr h1"
    and "absHeap h (heapIndexOf IrSlotBytes addr) = Some xs" and "addr \<noteq> 0"
    and "(heapStep maxSlots)\<^sup>*\<^sup>* h1 h2"
    and "isVmHeapAddress a" and "heapIndexOf IrSlotBytes addr \<le> heapIndexOf IrSlotBytes a"
    and "heapIndexOf IrSlotBytes a < heapIndexOf IrSlotBytes addr + length xs"
  shows "resolveIndirectAddress a IrSlotBytes locals h2 \<in> range Inl"
proof -
  let ?i = "heapIndexOf IrSlotBytes a" and ?b = "heapIndexOf IrSlotBytes addr"
  note f = free_refines(2) [OF assms(1,4,2)]
  have live: "liveSlot h ?i"
    using assms(3,7,8) by (auto simp: liveSlot_def)
  have "\<not> liveSlot h1 ?i"
  proof
    assume "liveSlot h1 ?i"
    then obtain c ys where c: "absHeap h c = Some ys" "c \<noteq> ?b" "c \<le> ?i" "?i < c + length ys"
      using liveSlot_del [of h1 "absHeap h" ?b ?i] f by auto
    obtain k where k: "k < length (heapAllocations h)" "baseIndex (heapAllocations h ! k) = c"
      "inBlock (heapAllocations h ! k) ?i"
      using c length_blockContents [OF assms(1)]
      by (auto elim!: absHeap_SomeE simp: inBlock_def)
    obtain j where j: "j < length (heapAllocations h)" "baseIndex (heapAllocations h ! j) = ?b"
      "inBlock (heapAllocations h ! j) ?i"
      using assms(3,7,8) length_blockContents [OF assms(1)]
      by (auto elim!: absHeap_SomeE simp: inBlock_def)
    from layout_block_unique [OF heap_inv_layout [OF assms(1)] k(1) j(1) k(3) j(3)] k(2) j(2) c(2)
    show False by simp
  qed
  moreover have "?i < length (heapSlots h1)"
    using liveSlot_bound [OF assms(1) live] f by simp
  ultimately have "\<not> liveSlot h2 ?i" and "heap_inv h2"
    using vm_heap.never_revived [OF assms(5)] vm_heap.run_inv [OF assms(5)] f by auto
  then show ?thesis
    using assms(6) by (auto simp: resolve_eq)
qed

theorem heap_no_use_after_free_witness:
  "\<exists>h1 h2. freeVmHeapSlots (heapAddress 0) IrSlotBytes twoBlockHeap = Inr h1
    \<and> (heapStep 100)\<^sup>*\<^sup>* h1 h2 \<and> h1 \<noteq> h2
    \<and> resolveIndirectAddress (heapAddress 1) IrSlotBytes [] h2 \<in> range Inl"
proof -
  have ne: "heapAddress 0 \<noteq> 0" by (rule heapAddress_facts) simp
  have i: "heapIndexOf IrSlotBytes (heapAddress 0) = 0" "heapIndexOf IrSlotBytes (heapAddress 1) = 1"
    by (rule heapAddress_facts, simp)+
  have hp: "isVmHeapAddress (heapAddress 1)" by (rule heapAddress_facts) simp
  have x: "absHeap twoBlockHeap (heapIndexOf IrSlotBytes (heapAddress 0)) = Some [7, 8]"
    unfolding i by (simp add: absHeap_def twoBlockHeap_def Let_def blockContents_def)
  have b: "addressedBlock twoBlockHeap (heapAddress 0) = Some 0"
    using x heapAddress_facts [of 0] by (simp add: addressedBlock_def)
  obtain h1 where h1: "freeVmHeapSlots (heapAddress 0) IrSlotBytes twoBlockHeap = Inr h1"
    by (simp add: free_eq [OF twoBlockHeap_inv ne] b)
  have len: "length (heapSlots h1) = 3"
    using free_refines(2) [OF twoBlockHeap_inv ne h1] by (simp add: twoBlockHeap_def)
  obtain addr h2 where h2: "allocateVmHeapSlots 100 1 IrSlotBytes h1 = Inr (addr, h2)"
    by (simp add: allocateVmHeapSlots_def maxAddressableIndex Let_def len)
  have "length (heapSlots h2) = 4"
    using allocate_success(3) [OF h2] len by simp
  then have "h1 \<noteq> h2" using len by auto
  moreover have s: "(heapStep 100)\<^sup>*\<^sup>* h1 h2"
    using heapStep.step_alloc [OF h2] by blast
  moreover have "resolveIndirectAddress (heapAddress 1) IrSlotBytes [] h2 \<in> range Inl"
    by (rule heap_no_use_after_free [OF twoBlockHeap_inv h1 x ne s hp]) (simp_all only: i, simp_all)
  ultimately show ?thesis using h1 by blast
qed

end
