(* ===== verification/VmControl.thy ===== *)
theory VmControl
  imports Ir
begin

text \<open>
  The control-flow opcodes, shared by the kernel and the debug session
  (\<^verbatim>\<open>src/runtime/VmControlFlowOpcodeShared.cpp\<close>). The outcome carries the operand stack and
  the instruction pointer the handler leaves in its reference arguments.
\<close>

datatype VmControlFlowOutcome =
  CfNotHandled
  | CfContinue "u64 list" nat
  | CfCall nat bool nat
  | CfReturn u64 bool "u64 list"
  | CfExit u64 bool "u64 list"
  | CfFault string "u64 list"

text \<open>\<^verbatim>\<open>frameCount == 1 ? Exit : Return\<close>, with the value and the stack without it.\<close>

definition cfLeave :: "nat \<Rightarrow> u64 \<Rightarrow> bool \<Rightarrow> u64 list \<Rightarrow> VmControlFlowOutcome" where
  "cfLeave frameCount v ret stk = (if frameCount = 1 then CfExit v ret stk else CfReturn v ret stk)"

definition isControlFlowOpcode :: "IrOpcode \<Rightarrow> bool" where
  "isControlFlowOpcode opc \<longleftrightarrow>
     opc \<in> set [JumpIfZero, Jump, Call, CallVoid, ReturnVoid, ReturnI32, ReturnI64, ReturnF64, ReturnF32]"

definition handleSharedVmControlFlowOpcode ::
  "IrInstruction \<Rightarrow> u64 list \<Rightarrow> nat \<Rightarrow> nat \<Rightarrow> nat \<Rightarrow> nat \<Rightarrow> bool \<Rightarrow> nat \<Rightarrow> VmControlFlowOutcome" where
  "handleSharedVmControlFlowOpcode inst stk instructionCount functionCount frameCount maxCallDepth
      currentFrameReturnsValueToCaller ip =
     (if op inst = JumpIfZero then
        (case stk of
           [] \<Rightarrow> CfFault ''IR stack underflow on jump'' []
         | value # rest \<Rightarrow>
             if unat (imm inst) > instructionCount then CfFault ''invalid jump target in IR'' rest
             else if value = 0 then CfContinue rest (unat (imm inst))
             else CfContinue rest (ip + 1))
      else if op inst = Jump then
        (if unat (imm inst) > instructionCount then CfFault ''invalid jump target in IR'' stk
         else CfContinue stk (unat (imm inst)))
      else if op inst = Call \<or> op inst = CallVoid then
        (if unat (imm inst) \<ge> functionCount then CfFault ''invalid call target in IR'' stk
         else if frameCount \<ge> maxCallDepth then CfFault ''VM call stack overflow'' stk
         else CfCall (unat (imm inst)) (op inst = Call) (ip + 1))
      else if op inst = ReturnVoid then
        cfLeave frameCount 0 currentFrameReturnsValueToCaller stk
      else if op inst = ReturnI32 then
        (case stk of
           [] \<Rightarrow> CfFault ''IR stack underflow on return'' []
         | v # rest \<Rightarrow> cfLeave frameCount (sext32 v) currentFrameReturnsValueToCaller rest)
      else if op inst = ReturnI64 \<or> op inst = ReturnF64 then
        (case stk of
           [] \<Rightarrow> CfFault ''IR stack underflow on return'' []
         | v # rest \<Rightarrow> cfLeave frameCount v currentFrameReturnsValueToCaller rest)
      else if op inst = ReturnF32 then
        (case stk of
           [] \<Rightarrow> CfFault ''IR stack underflow on return'' []
         | v # rest \<Rightarrow> cfLeave frameCount (zext32 v) currentFrameReturnsValueToCaller rest)
      else CfNotHandled)"

lemma cfLeave_handled [simp]: "cfLeave n v r stk \<noteq> CfNotHandled"
  by (simp add: cfLeave_def)

lemma control_flow_handled_iff:
  "handleSharedVmControlFlowOpcode inst stk ic fc frc mcd ret ip = CfNotHandled
     \<longleftrightarrow> \<not> isControlFlowOpcode (op inst)"
  by (auto simp: handleSharedVmControlFlowOpcode_def isControlFlowOpcode_def split: list.splits)

text \<open>Where each outcome can come from.\<close>

text \<open>The instruction pointers an instruction can continue at in its own frame.\<close>

definition isJumpOpcode :: "IrOpcode \<Rightarrow> bool" where
  "isJumpOpcode opc \<longleftrightarrow> opc = JumpIfZero \<or> opc = Jump"

definition isCallOpcode :: "IrOpcode \<Rightarrow> bool" where
  "isCallOpcode opc \<longleftrightarrow> opc = Call \<or> opc = CallVoid"

lemma CfContinueD:
  assumes "handleSharedVmControlFlowOpcode inst stk ic fc frc mcd ret ip = CfContinue stk' ip'"
    and "ip < ic"
  shows "ip' \<le> ic \<and> isJumpOpcode (op inst) \<and> (ip' = ip + 1 \<or> ip' = unat (imm inst))
    \<and> (stk' = stk \<or> (\<exists>v. stk = v # stk'))"
  using assms
  by (auto simp: handleSharedVmControlFlowOpcode_def cfLeave_def isJumpOpcode_def
      split: list.splits if_splits)

lemma CfCallD:
  assumes "handleSharedVmControlFlowOpcode inst stk ic fc frc mcd ret ip = CfCall t r ip'"
  shows "t < fc \<and> frc < mcd \<and> ip' = ip + 1 \<and> t = unat (imm inst)
    \<and> isCallOpcode (op inst) \<and> r = (op inst = Call)"
  using assms
  by (auto simp: handleSharedVmControlFlowOpcode_def cfLeave_def isCallOpcode_def
      split: list.splits if_splits)

text \<open>What a return instruction delivers: \<open>ReturnVoid\<close> a zero, the others the value they pop.\<close>

definition isReturnOpcode :: "IrOpcode \<Rightarrow> bool" where
  "isReturnOpcode opc \<longleftrightarrow> opc \<in> set [ReturnVoid, ReturnI32, ReturnI64, ReturnF64, ReturnF32]"

definition returnOperand :: "IrOpcode \<Rightarrow> u64 list \<Rightarrow> (u64 \<times> u64 list) option" where
  "returnOperand opc stk =
     (if opc = ReturnVoid then Some (0, stk)
      else
        (case stk of
           [] \<Rightarrow> None
         | v # rest \<Rightarrow>
             Some (if opc = ReturnI32 then sext32 v else if opc = ReturnF32 then zext32 v else v, rest)))"

lemma CfReturnD:
  assumes "handleSharedVmControlFlowOpcode inst stk ic fc frc mcd ret ip = CfReturn v r stk'"
  shows "frc \<noteq> 1 \<and> r = ret \<and> isReturnOpcode (op inst) \<and> returnOperand (op inst) stk = Some (v, stk')"
  using assms
  by (auto simp: handleSharedVmControlFlowOpcode_def cfLeave_def isReturnOpcode_def returnOperand_def
      split: list.splits if_splits)

lemma CfExitD:
  assumes "handleSharedVmControlFlowOpcode inst stk ic fc frc mcd ret ip = CfExit v r stk'"
  shows "frc = 1 \<and> r = ret \<and> isReturnOpcode (op inst) \<and> returnOperand (op inst) stk = Some (v, stk')"
  using assms
  by (auto simp: handleSharedVmControlFlowOpcode_def cfLeave_def isReturnOpcode_def returnOperand_def
      split: list.splits if_splits)

lemma CfExit_iff:
  "handleSharedVmControlFlowOpcode inst stk ic fc frc mcd ret ip = CfExit v r stk' \<longleftrightarrow>
     frc = 1 \<and> r = ret \<and> isReturnOpcode (op inst) \<and> returnOperand (op inst) stk = Some (v, stk')"
proof
  assume "frc = 1 \<and> r = ret \<and> isReturnOpcode (op inst) \<and> returnOperand (op inst) stk = Some (v, stk')"
  then show "handleSharedVmControlFlowOpcode inst stk ic fc frc mcd ret ip = CfExit v r stk'"
    by (auto simp: isReturnOpcode_def returnOperand_def handleSharedVmControlFlowOpcode_def
        cfLeave_def split: list.splits)
qed (rule CfExitD)

lemma CfFaultD:
  assumes "handleSharedVmControlFlowOpcode inst stk ic fc frc mcd ret ip = CfFault msg stk'"
  shows "msg = ''IR stack underflow on jump'' \<or> msg = ''IR stack underflow on return''
    \<or> msg = ''VM call stack overflow'' \<and> frc \<ge> mcd
    \<or> msg = ''invalid jump target in IR'' \<and> ic < unat (imm inst) \<and> (op inst = Jump \<or> op inst = JumpIfZero)
    \<or> msg = ''invalid call target in IR'' \<and> fc \<le> unat (imm inst) \<and> (op inst = Call \<or> op inst = CallVoid)"
  using assms
  by (auto simp: handleSharedVmControlFlowOpcode_def cfLeave_def split: list.splits if_splits)

end
