(* ===== verification/VmIo.thy ===== *)
theory VmIo
  imports Ir
begin

text \<open>
  Printing and file opcodes of the VM (\<^verbatim>\<open>src/runtime/VmIoHelpers.cpp\<close>). The two output
  streams are the texts written to them. The POSIX calls are a record of functions on an
  abstract system state \<open>'w\<close>: each returns what the C call returns, the \<^verbatim>\<open>errno\<close> it leaves and
  the new state; \<^verbatim>\<open>write\<close> is documented to report at most the bytes it was given.
\<close>

section \<open>The world\<close>

datatype FileOpenFlags = OpenRdOnly | OpenWrOnlyCreatTrunc | OpenWrOnlyCreatAppend

record 'w Sys =
  sys_open :: "string \<Rightarrow> FileOpenFlags \<Rightarrow> 'w \<Rightarrow> int \<times> u32 \<times> 'w"
  sys_close :: "i32 \<Rightarrow> 'w \<Rightarrow> int \<times> u32 \<times> 'w"
  sys_read1 :: "i32 \<Rightarrow> 'w \<Rightarrow> int \<times> u32 \<times> u8 \<times> 'w"
  sys_fsync :: "i32 \<Rightarrow> 'w \<Rightarrow> int \<times> u32 \<times> 'w"
  sys_write :: "i32 \<Rightarrow> string \<Rightarrow> 'w \<Rightarrow> int \<times> u32 \<times> 'w"

record 'w VmWorld =
  stdoutText :: string
  stderrText :: string
  sysState :: 'w

section \<open>Helpers\<close>

definition currentIoErrorCode :: "u32 \<Rightarrow> u32" where
  "currentIoErrorCode err = (if err = 0 then 1 else err)"

definition EIO :: i32 where "EIO = 5"

function writeAll :: "'w Sys \<Rightarrow> i32 \<Rightarrow> string \<Rightarrow> 'w \<Rightarrow> i32 \<times> 'w" where
  "writeAll sys fd text w =
     (if text = [] then (0, w)
      else
        (case sys_write sys fd text w of
           (wrote, err, w') \<Rightarrow>
             if wrote < 0 then (currentIoErrorCode err, w')
             else if wrote = 0 then (EIO, w')
             else writeAll sys fd (drop (nat wrote) text) w'))"
  by pat_completeness auto
termination
  by (relation "measure (\<lambda>(sys, fd, text, w). length text)") auto

declare writeAll.simps [simp del]

definition emitPrintedText :: "string \<Rightarrow> u64 \<Rightarrow> 'w VmWorld \<Rightarrow> 'w VmWorld" where
  "emitPrintedText text flags wd =
     (let out = text @ (if (flags AND PrintFlagNewline) \<noteq> 0 then [CHR 0x0A] else []) in
      if (flags AND PrintFlagStderr) \<noteq> 0 then wd\<lparr>stderrText := stderrText wd @ out\<rparr>
      else wd\<lparr>stdoutText := stdoutText wd @ out\<rparr>)"

text \<open>
  A fault carries the message and the stack left behind. \<open>popStackPair\<close> yields the value
  below the top first.
\<close>

type_synonym 'a io_result = "(string \<times> u64 list) + 'a"

definition popStackValue :: "u64 list \<Rightarrow> string \<Rightarrow> (u64 \<times> u64 list) io_result" where
  "popStackValue stk msg = (case stk of [] \<Rightarrow> Inl (msg, []) | v # rest \<Rightarrow> Inr (v, rest))"

definition popStackPair :: "u64 list \<Rightarrow> string \<Rightarrow> (u64 \<times> u64 \<times> u64 list) io_result" where
  "popStackPair stk msg =
     (case stk of b # a # rest \<Rightarrow> Inr (a, b, rest) | _ \<Rightarrow> Inl (msg, stk))"

definition resolveStringIndex :: "IrModule \<Rightarrow> u64 \<Rightarrow> u64 list \<Rightarrow> string io_result" where
  "resolveStringIndex m stringIndex stk =
     (if unat stringIndex \<ge> length (stringTable m) then Inl (''invalid string index in IR'', stk)
      else Inr (stringTable m ! unat stringIndex))"

definition packFileHandle :: "int \<Rightarrow> u32 \<Rightarrow> u64" where
  "packFileHandle fd err =
     (if fd < 0 then push_bit 32 (ucast (currentIoErrorCode err)) else ucast (word_of_int fd :: u32))"

definition handleFd :: "u64 \<Rightarrow> i32" where
  "handleFd handle = ucast (handle AND 0xffffffff)"

definition resolveFileOpenFlags :: "IrOpcode \<Rightarrow> FileOpenFlags" where
  "resolveFileOpenFlags opc =
     (if opc = FileOpenWrite \<or> opc = FileOpenWriteDynamic then OpenWrOnlyCreatTrunc
      else if opc = FileOpenAppend \<or> opc = FileOpenAppendDynamic then OpenWrOnlyCreatAppend
      else OpenRdOnly)"

text \<open>\<^verbatim>\<open>path->c_str()\<close> ends at the first NUL.\<close>

definition c_str :: "string \<Rightarrow> string" where
  "c_str s = takeWhile (\<lambda>c. c \<noteq> CHR 0x00) s"

section \<open>Printing\<close>

definition handlePrintOpcode ::
  "IrModule \<Rightarrow> IrInstruction \<Rightarrow> u64 list \<Rightarrow> string list option \<Rightarrow> 'w VmWorld
     \<Rightarrow> (u64 list \<times> 'w VmWorld) io_result" where
  "handlePrintOpcode m inst stk args wd =
     (let flags = decodePrintFlags (imm inst) in
      if op inst = PrintI32 then
        rbind (popStackValue stk ''IR stack underflow on print'')
          (\<lambda>(raw, rest). Inr (rest, emitPrintedText (dec_int (sint (ucast raw :: u32))) flags wd))
      else if op inst = PrintI64 then
        rbind (popStackValue stk ''IR stack underflow on print'')
          (\<lambda>(raw, rest). Inr (rest, emitPrintedText (dec_int (sint raw)) flags wd))
      else if op inst = PrintU64 then
        rbind (popStackValue stk ''IR stack underflow on print'')
          (\<lambda>(raw, rest). Inr (rest, emitPrintedText (dec_nat (unat raw)) flags wd))
      else if op inst = PrintString then
        rbind (resolveStringIndex m (decodePrintStringIndex (imm inst)) stk)
          (\<lambda>text. Inr (stk, emitPrintedText text flags wd))
      else if op inst = PrintStringDynamic then
        rbind (popStackValue stk ''IR stack underflow on print'')
          (\<lambda>(stringIndex, rest).
             rbind (resolveStringIndex m stringIndex rest)
               (\<lambda>text. Inr (rest, emitPrintedText text flags wd)))
      else if op inst = PrintArgv \<or> op inst = PrintArgvUnsafe then
        rbind (popStackValue stk ''IR stack underflow on print'')
          (\<lambda>(rawIndex, rest).
             case args of
               None \<Rightarrow> Inl (if op inst = PrintArgv then ''VM missing argv data for PrintArgv''
                            else ''VM missing argv data for PrintArgvUnsafe'', rest)
             | Some texts \<Rightarrow>
                 if sint rawIndex < 0 \<or> nat (sint rawIndex) \<ge> length texts
                 then (if op inst = PrintArgvUnsafe then Inr (rest, wd)
                       else Inl (''invalid argv index in IR'', rest))
                 else Inr (rest, emitPrintedText (texts ! nat (sint rawIndex)) flags wd))
      else Inl (''unsupported print opcode in VM helper'', stk))"

section \<open>Files\<close>

text \<open>Opening, closing, reading a byte and flushing.\<close>

definition openPath :: "'w Sys \<Rightarrow> IrOpcode \<Rightarrow> string \<Rightarrow> u64 list \<Rightarrow> u64 list \<Rightarrow> 'w VmWorld
    \<Rightarrow> u64 list \<times> u64 list \<times> 'w VmWorld" where
  "openPath sys opc path stk locals wd =
     (case sys_open sys (c_str path) (resolveFileOpenFlags opc) (sysState wd) of
        (fd, err, w') \<Rightarrow> (packFileHandle fd err # stk, locals, wd\<lparr>sysState := w'\<rparr>))"

text \<open>The status pushed by \<^verbatim>\<open>close\<close> and \<^verbatim>\<open>fsync\<close>.\<close>

definition statusSlot :: "int \<Rightarrow> u32 \<Rightarrow> u64" where
  "statusSlot rc err = (if rc < 0 then ucast (currentIoErrorCode err) else 0)"

definition isFileOpenStatic :: "IrOpcode \<Rightarrow> bool" where
  "isFileOpenStatic opc \<longleftrightarrow> opc = FileOpenRead \<or> opc = FileOpenWrite \<or> opc = FileOpenAppend"

definition isFileOpenDynamic :: "IrOpcode \<Rightarrow> bool" where
  "isFileOpenDynamic opc \<longleftrightarrow>
     opc = FileOpenReadDynamic \<or> opc = FileOpenWriteDynamic \<or> opc = FileOpenAppendDynamic"

definition handleFileManage ::
  "'w Sys \<Rightarrow> IrModule \<Rightarrow> IrInstruction \<Rightarrow> u64 list \<Rightarrow> u64 list \<Rightarrow> 'w VmWorld
     \<Rightarrow> (u64 list \<times> u64 list \<times> 'w VmWorld) io_result" where
  "handleFileManage sys m inst stk locals wd =
     (if isFileOpenStatic (op inst) then
        rbind (resolveStringIndex m (imm inst) stk)
          (\<lambda>path. Inr (openPath sys (op inst) path stk locals wd))
      else if isFileOpenDynamic (op inst) then
        rbind (popStackValue stk ''IR stack underflow on file open'')
          (\<lambda>(stringIndex, rest).
             rbind (resolveStringIndex m stringIndex rest)
               (\<lambda>path. Inr (openPath sys (op inst) path rest locals wd)))
      else if op inst = FileClose then
        rbind (popStackValue stk ''IR stack underflow on file close'')
          (\<lambda>(handle, rest).
             case sys_close sys (handleFd handle) (sysState wd) of
               (rc, err, w') \<Rightarrow> Inr (statusSlot rc err # rest, locals, wd\<lparr>sysState := w'\<rparr>))
      else if op inst = FileReadByte then
        rbind (popStackValue stk ''IR stack underflow on file read'')
          (\<lambda>(handle, rest).
             if unat (imm inst) \<ge> length locals then Inl (''invalid local index in IR'', rest)
             else
               (case sys_read1 sys (handleFd handle) (sysState wd) of
                  (rc, err, value, w') \<Rightarrow>
                    let code = (if rc < 0 then currentIoErrorCode err
                                else if rc = 0 then FileReadEofCode else 0);
                        locals' = (if rc < 0 \<or> rc = 0 then locals
                                   else locals[unat (imm inst) := ucast value])
                    in Inr (ucast code # rest, locals', wd\<lparr>sysState := w'\<rparr>)))
      else
        rbind (popStackValue stk ''IR stack underflow on file flush'')
          (\<lambda>(handle, rest).
             case sys_fsync sys (handleFd handle) (sysState wd) of
               (rc, err, w') \<Rightarrow> Inr (statusSlot rc err # rest, locals, wd\<lparr>sysState := w'\<rparr>)))"

text \<open>Writing: the text, then the status \<^verbatim>\<open>static_cast<uint64_t>(writeAll(...))\<close>.\<close>

definition writeText :: "'w Sys \<Rightarrow> u64 \<Rightarrow> string \<Rightarrow> u64 list \<Rightarrow> u64 list \<Rightarrow> 'w VmWorld
    \<Rightarrow> u64 list \<times> u64 list \<times> 'w VmWorld" where
  "writeText sys handle text stk locals wd =
     (case writeAll sys (handleFd handle) text (sysState wd) of
        (rc, w') \<Rightarrow> (scast rc # stk, locals, wd\<lparr>sysState := w'\<rparr>))"

definition handleFileWrite ::
  "'w Sys \<Rightarrow> IrModule \<Rightarrow> IrInstruction \<Rightarrow> u64 list \<Rightarrow> u64 list \<Rightarrow> 'w VmWorld
     \<Rightarrow> (u64 list \<times> u64 list \<times> 'w VmWorld) io_result" where
  "handleFileWrite sys m inst stk locals wd =
     (let underflow = ''IR stack underflow on file write'' in
      if op inst = FileWriteI32 then
        rbind (popStackPair stk underflow)
          (\<lambda>(handle, raw, rest).
             Inr (writeText sys handle (dec_int (sint (ucast raw :: u32))) rest locals wd))
      else if op inst = FileWriteI64 then
        rbind (popStackPair stk underflow)
          (\<lambda>(handle, raw, rest). Inr (writeText sys handle (dec_int (sint raw)) rest locals wd))
      else if op inst = FileWriteU64 then
        rbind (popStackPair stk underflow)
          (\<lambda>(handle, raw, rest). Inr (writeText sys handle (dec_nat (unat raw)) rest locals wd))
      else if op inst = FileWriteString then
        rbind (popStackValue stk underflow)
          (\<lambda>(handle, rest).
             rbind (resolveStringIndex m (imm inst) rest)
               (\<lambda>text. Inr (writeText sys handle text rest locals wd)))
      else if op inst = FileWriteStringDynamic then
        rbind (popStackPair stk underflow)
          (\<lambda>(handle, stringIndex, rest).
             rbind (resolveStringIndex m stringIndex rest)
               (\<lambda>text. Inr (writeText sys handle text rest locals wd)))
      else if op inst = FileWriteByte then
        rbind (popStackPair stk underflow)
          (\<lambda>(handle, raw, rest).
             Inr (writeText sys handle [char_of (unat (raw AND 0xff))] rest locals wd))
      else
        rbind (popStackValue stk underflow)
          (\<lambda>(handle, rest). Inr (writeText sys handle [CHR 0x0A] rest locals wd)))"

definition isFileManageOpcode :: "IrOpcode \<Rightarrow> bool" where
  "isFileManageOpcode opc \<longleftrightarrow>
     isFileOpenStatic opc \<or> isFileOpenDynamic opc \<or> opc = FileClose \<or> opc = FileReadByte
     \<or> opc = FileFlush"

definition isFileWriteOpcode :: "IrOpcode \<Rightarrow> bool" where
  "isFileWriteOpcode opc \<longleftrightarrow>
     opc = FileWriteI32 \<or> opc = FileWriteI64 \<or> opc = FileWriteU64 \<or> opc = FileWriteString
     \<or> opc = FileWriteStringDynamic \<or> opc = FileWriteByte \<or> opc = FileWriteNewline"

definition handleFileOpcode ::
  "'w Sys \<Rightarrow> IrModule \<Rightarrow> IrInstruction \<Rightarrow> u64 list \<Rightarrow> u64 list \<Rightarrow> 'w VmWorld
     \<Rightarrow> (u64 list \<times> u64 list \<times> 'w VmWorld) io_result" where
  "handleFileOpcode sys m inst stk locals wd =
     (if isFileManageOpcode (op inst) then handleFileManage sys m inst stk locals wd
      else if isFileWriteOpcode (op inst) then handleFileWrite sys m inst stk locals wd
      else Inl (''unsupported file opcode in VM helper'', stk))"

end
