(* ===== verification/VmKernel.thy ===== *)
theory VmKernel
  imports VmNumeric VmHeap VmControl VmIo
begin

text \<open>
  The execution kernel (\<^verbatim>\<open>src/runtime/VmExecutionKernel.cpp\<close>) on its runtime host
  (\<^verbatim>\<open>RuntimeVmKernelHost\<close> of \<^verbatim>\<open>src/runtime/VmExecution.cpp\<close>) and the entry points of
  \<^verbatim>\<open>src/runtime/Vm.cpp\<close>. The call stack is a list with the running frame
  (\<^verbatim>\<open>frames.back()\<close>) first; a frame names its function by index instead of by pointer. One
  iteration of the interpreter loop is \<open>vmKernelStep\<close>; the loop, which need not end, is a
  partial function with \<open>None\<close> for a run that does not return.
\<close>

section \<open>State\<close>

record VmKernelFrame =
  functionIndex :: nat
  frameLocals :: "u64 list"
  frameIp :: nat
  returnValueToCaller :: bool

record 'w VmState =
  opStack :: "u64 list"
  frames :: "VmKernelFrame list"
  vmHeap :: VmHeap
  world :: "'w VmWorld"

text \<open>What a run is given besides the module: arguments, vector limit, FPU and system.\<close>

record 'w VmHost =
  argumentCount :: u64
  hostArgs :: "string list option"
  maxSlots :: nat
  hostFpu :: Fpu
  hostSys :: "'w Sys"

definition maxCallDepth :: nat where "maxCallDepth = 4096"

datatype 'w VmStepResult =
  Running "'w VmState"
  | Exited u64 "'w VmState"
  | Faulted string "'w VmState"
  | Undefined

text \<open>\<^verbatim>\<open>static_cast<size_t>(inst.imm) + 1\<close> wraps at 64 bits.\<close>

definition isLocalOpcode :: "IrOpcode \<Rightarrow> bool" where
  "isLocalOpcode opc \<longleftrightarrow> opc = LoadLocal \<or> opc = StoreLocal \<or> opc = AddressOfLocal"

definition computeVmKernelLocalCount :: "IrFunction \<Rightarrow> nat" where
  "computeVmKernelLocalCount f =
     fold (\<lambda>inst localCount. if isLocalOpcode (op inst)
             then max localCount (unat (imm inst + 1)) else localCount) (instructions f) 0"

definition newFrame :: "IrModule \<Rightarrow> nat \<Rightarrow> bool \<Rightarrow> VmKernelFrame" where
  "newFrame m fi ret =
     \<lparr>functionIndex = fi,
      frameLocals = replicate (computeVmKernelLocalCount (mod_functions m ! fi)) 0,
      frameIp = 0, returnValueToCaller = ret\<rparr>"

section \<open>Data instructions\<close>

text \<open>
  The outcome of an instruction that stays in the running frame: stack, locals, heap and
  world; a fault keeps only the stack, since no fault path changes anything else.
\<close>

datatype 'w DataOutcome =
  DataNext "u64 list" "u64 list" VmHeap "'w VmWorld"
  | DataFault string "u64 list"
  | DataUndefined
  | DataUnknown

definition isVmKernelPrintOpcode :: "IrOpcode \<Rightarrow> bool" where
  "isVmKernelPrintOpcode opc \<longleftrightarrow>
     opc \<in> set [PrintI32, PrintI64, PrintU64, PrintString, PrintStringDynamic, PrintArgv,
              PrintArgvUnsafe]"

definition isVmKernelFileOpcode :: "IrOpcode \<Rightarrow> bool" where
  "isVmKernelFileOpcode opc \<longleftrightarrow>
     opc \<in> set [FileOpenRead, FileOpenWrite, FileOpenAppend, FileOpenReadDynamic,
              FileOpenWriteDynamic, FileOpenAppendDynamic, FileClose, FileReadByte, FileFlush,
              FileWriteI32, FileWriteI64, FileWriteU64, FileWriteString, FileWriteStringDynamic,
              FileWriteByte, FileWriteNewline]"

text \<open>Pushes and locals.\<close>

definition kernelPushLocal :: "'w VmHost \<Rightarrow> IrInstruction \<Rightarrow> u64 list \<Rightarrow> u64 list \<Rightarrow> VmHeap
    \<Rightarrow> 'w VmWorld \<Rightarrow> 'w DataOutcome" where
  "kernelPushLocal host inst stk locals h wd =
     (if op inst = PushI32 then DataNext (sext32 (imm inst) # stk) locals h wd
      else if op inst = PushI64 \<or> op inst = PushF32 \<or> op inst = PushF64 then
        DataNext (imm inst # stk) locals h wd
      else if op inst = PushArgc then
        DataNext (sext32 (argumentCount host) # stk) locals h wd
      else if op inst = LoadLocal then
        (if unat (imm inst) \<ge> length locals then DataFault ''invalid local index in IR'' stk
         else DataNext (locals ! unat (imm inst) # stk) locals h wd)
      else if op inst = StoreLocal then
        (if unat (imm inst) \<ge> length locals then DataFault ''invalid local index in IR'' stk
         else
           (case stk of
              [] \<Rightarrow> DataFault ''IR stack underflow on store'' []
            | v # rest \<Rightarrow> DataNext rest (locals[unat (imm inst) := v]) h wd))
      else if op inst = AddressOfLocal then
        (if unat (imm inst) \<ge> length locals then DataFault ''invalid local index in IR'' stk
         else DataNext (imm inst * IrSlotBytes # stk) locals h wd)
      else DataUnknown)"

text \<open>Indirect access and the heap.\<close>

definition kernelMemory :: "'w VmHost \<Rightarrow> IrInstruction \<Rightarrow> u64 list \<Rightarrow> u64 list \<Rightarrow> VmHeap
    \<Rightarrow> 'w VmWorld \<Rightarrow> 'w DataOutcome" where
  "kernelMemory host inst stk locals h wd =
     (if op inst = LoadIndirect then
        (case stk of
           [] \<Rightarrow> DataFault ''IR stack underflow on load indirect'' []
         | address # rest \<Rightarrow>
             (case resolveIndirectAddress address IrSlotBytes locals h of
                Inl e \<Rightarrow> DataFault e rest
              | Inr slot \<Rightarrow> DataNext (loadSlot locals h slot # rest) locals h wd))
      else if op inst = StoreIndirect then
        (case stk of
           value # address # rest \<Rightarrow>
             (case resolveIndirectAddress address IrSlotBytes locals h of
                Inl e \<Rightarrow> DataFault e rest
              | Inr slot \<Rightarrow>
                  (case storeSlot locals h slot value of
                     (locals', h') \<Rightarrow> DataNext (value # rest) locals' h' wd))
         | _ \<Rightarrow> DataFault ''IR stack underflow on store indirect'' stk)
      else if op inst = HeapAlloc then
        (case stk of
           [] \<Rightarrow> DataFault ''IR stack underflow on heap alloc'' []
         | slotCnt # rest \<Rightarrow>
             (case allocateVmHeapSlots (maxSlots host) slotCnt IrSlotBytes h of
                Inl e \<Rightarrow> DataFault e rest
              | Inr (address, h') \<Rightarrow> DataNext (address # rest) locals h' wd))
      else if op inst = HeapFree then
        (case stk of
           [] \<Rightarrow> DataFault ''IR stack underflow on heap free'' []
         | address # rest \<Rightarrow>
             (case freeVmHeapSlots address IrSlotBytes h of
                Inl e \<Rightarrow> DataFault e rest
              | Inr h' \<Rightarrow> DataNext rest locals h' wd))
      else if op inst = HeapRealloc then
        (case stk of
           slotCnt # address # rest \<Rightarrow>
             (case reallocVmHeapSlots (maxSlots host) address slotCnt IrSlotBytes h of
                Inl e \<Rightarrow> DataFault e rest
              | Inr (newAddress, h') \<Rightarrow> DataNext (newAddress # rest) locals h' wd)
         | _ \<Rightarrow> DataFault ''IR stack underflow on heap realloc'' stk)
      else DataUnknown)"

text \<open>Stack shuffling and string reads.\<close>

definition kernelStackString :: "IrModule \<Rightarrow> IrInstruction \<Rightarrow> u64 list \<Rightarrow> u64 list \<Rightarrow> VmHeap
    \<Rightarrow> 'w VmWorld \<Rightarrow> 'w DataOutcome" where
  "kernelStackString m inst stk locals h wd =
     (if op inst = Dup then
        (case stk of [] \<Rightarrow> DataFault ''IR stack underflow on dup'' []
         | v # rest \<Rightarrow> DataNext (v # v # rest) locals h wd)
      else if op inst = Pop then
        (case stk of [] \<Rightarrow> DataFault ''IR stack underflow on pop'' []
         | v # rest \<Rightarrow> DataNext rest locals h wd)
      else if op inst = LoadStringByte then
        (case stk of [] \<Rightarrow> DataFault ''IR stack underflow on string index'' []
         | indexRaw # rest \<Rightarrow>
             if unat (imm inst) \<ge> length (stringTable m)
             then DataFault ''invalid string index in IR'' rest
             else
               (let text = stringTable m ! unat (imm inst); index = unat indexRaw in
                if index \<ge> length text then DataFault ''string index out of bounds in IR'' rest
                else DataNext (of_nat (of_char (text ! index)) # rest) locals h wd))
      else if op inst = LoadStringLength then
        (case stk of [] \<Rightarrow> DataFault ''IR stack underflow on string index'' []
         | stringIndex # rest \<Rightarrow>
             if unat stringIndex \<ge> length (stringTable m)
             then DataFault ''invalid string index in IR'' rest
             else DataNext (of_nat (length (stringTable m ! unat stringIndex)) # rest) locals h wd)
      else DataUnknown)"

text \<open>The \<^verbatim>\<open>default\<close> case: numeric, print and file opcodes.\<close>

definition kernelDefault :: "'w VmHost \<Rightarrow> IrModule \<Rightarrow> IrInstruction \<Rightarrow> u64 list \<Rightarrow> u64 list \<Rightarrow> VmHeap
    \<Rightarrow> 'w VmWorld \<Rightarrow> 'w DataOutcome" where
  "kernelDefault host m inst stk locals h wd =
     (if isPureNumericOpcode (op inst) then
        (case handleVmNumericOpcode (hostFpu host) inst stk of
           PureContinue stk' \<Rightarrow> DataNext stk' locals h wd
         | PureFault e stk' \<Rightarrow> DataFault e stk'
         | PureUndefined \<Rightarrow> DataUndefined
         | NotHandled \<Rightarrow> DataUnknown)
      else if isVmKernelPrintOpcode (op inst) then
        (case handlePrintOpcode m inst stk (hostArgs host) wd of
           Inl (e, stk') \<Rightarrow> DataFault e stk'
         | Inr (stk', wd') \<Rightarrow> DataNext stk' locals h wd')
      else if isVmKernelFileOpcode (op inst) then
        (case handleFileOpcode (hostSys host) m inst stk locals wd of
           Inl (e, stk') \<Rightarrow> DataFault e stk'
         | Inr (stk', locals', wd') \<Rightarrow> DataNext stk' locals' h wd')
      else DataFault ''unknown IR opcode'' stk)"

definition isPushLocalOpcode :: "IrOpcode \<Rightarrow> bool" where
  "isPushLocalOpcode opc \<longleftrightarrow>
     opc \<in> set [PushI32, PushI64, PushF32, PushF64, PushArgc, LoadLocal, StoreLocal, AddressOfLocal]"

definition isMemoryOpcode :: "IrOpcode \<Rightarrow> bool" where
  "isMemoryOpcode opc \<longleftrightarrow> opc \<in> set [LoadIndirect, StoreIndirect, HeapAlloc, HeapFree, HeapRealloc]"

definition isStackStringOpcode :: "IrOpcode \<Rightarrow> bool" where
  "isStackStringOpcode opc \<longleftrightarrow> opc \<in> set [Dup, Pop, LoadStringByte, LoadStringLength]"

definition kernelData :: "'w VmHost \<Rightarrow> IrModule \<Rightarrow> IrInstruction \<Rightarrow> u64 list \<Rightarrow> u64 list \<Rightarrow> VmHeap
    \<Rightarrow> 'w VmWorld \<Rightarrow> 'w DataOutcome" where
  "kernelData host m inst stk locals h wd =
     (if isPushLocalOpcode (op inst) then kernelPushLocal host inst stk locals h wd
      else if isMemoryOpcode (op inst) then kernelMemory host inst stk locals h wd
      else if isStackStringOpcode (op inst) then kernelStackString m inst stk locals h wd
      else kernelDefault host m inst stk locals h wd)"

section \<open>The interpreter loop\<close>

text \<open>Every data instruction that succeeds advances the instruction pointer by one.\<close>

definition applyData :: "'w VmState \<Rightarrow> VmKernelFrame \<Rightarrow> VmKernelFrame list \<Rightarrow> 'w DataOutcome
    \<Rightarrow> 'w VmStepResult" where
  "applyData s f fs out =
     (case out of
        DataNext stk locals h wd \<Rightarrow>
          Running \<lparr>opStack = stk,
                   frames = f\<lparr>frameLocals := locals, frameIp := frameIp f + 1\<rparr> # fs,
                   vmHeap = h, world = wd\<rparr>
      | DataFault e stk \<Rightarrow> Faulted e (s\<lparr>opStack := stk\<rparr>)
      | DataUndefined \<Rightarrow> Undefined
      | DataUnknown \<Rightarrow> Faulted ''unknown IR opcode'' s)"

definition vmKernelStep :: "'w VmHost \<Rightarrow> IrModule \<Rightarrow> 'w VmState \<Rightarrow> 'w VmStepResult" where
  "vmKernelStep host m s =
     (case frames s of
        [] \<Rightarrow> Faulted ''missing return in IR'' s
      | f # fs \<Rightarrow>
          (let fn = mod_functions m ! functionIndex f in
           if frameIp f \<ge> length (instructions fn) then
             Faulted (if length (frames s) = 1 then ''missing return in IR''
                      else ''missing return in IR function '' @ fn_name fn) s
           else
             (let inst = instructions fn ! frameIp f in
              case handleSharedVmControlFlowOpcode inst (opStack s) (length (instructions fn))
                     (length (mod_functions m)) (length (frames s)) maxCallDepth
                     (returnValueToCaller f) (frameIp f) of
                CfFault e stk \<Rightarrow> Faulted e (s\<lparr>opStack := stk\<rparr>)
              | CfContinue stk ip \<Rightarrow> Running (s\<lparr>opStack := stk, frames := f\<lparr>frameIp := ip\<rparr> # fs\<rparr>)
              | CfCall target ret ip \<Rightarrow>
                  Running (s\<lparr>frames := newFrame m target ret # f\<lparr>frameIp := ip\<rparr> # fs\<rparr>)
              | CfExit v ret stk \<Rightarrow> Exited v (s\<lparr>opStack := stk\<rparr>)
              | CfReturn v ret stk \<Rightarrow>
                  Running (s\<lparr>opStack := (if ret then v # stk else stk), frames := fs\<rparr>)
              | CfNotHandled \<Rightarrow>
                  applyData s f fs
                    (kernelData host m inst (opStack s) (frameLocals f) (vmHeap s) (world s)))))"

partial_function (option) vmKernelLoop ::
  "'w VmHost \<Rightarrow> IrModule \<Rightarrow> 'w VmState \<Rightarrow> 'w VmStepResult option" where
  "vmKernelLoop host m s =
     (case vmKernelStep host m s of
        Running s' \<Rightarrow> vmKernelLoop host m s'
      | out \<Rightarrow> Some out)"

definition initialState :: "IrModule \<Rightarrow> 'w VmWorld \<Rightarrow> 'w VmState" where
  "initialState m wd =
     \<lparr>opStack = [], frames = [newFrame m (entry_function m) False], vmHeap = emptyHeap, world = wd\<rparr>"

definition executeVmKernel :: "'w VmHost \<Rightarrow> IrModule \<Rightarrow> 'w VmWorld \<Rightarrow> 'w VmStepResult option" where
  "executeVmKernel host m wd =
     (if \<not> entry_in_range m
      then Some (Faulted ''invalid IR entry index''
             \<lparr>opStack = [], frames = [], vmHeap = emptyHeap, world = wd\<rparr>)
      else vmKernelLoop host m (initialState m wd))"

text \<open>\<^verbatim>\<open>Vm::execute\<close> with an argument count alone, and with the argument texts.\<close>

definition vmExecuteCount :: "'w VmHost \<Rightarrow> IrModule \<Rightarrow> u64 \<Rightarrow> 'w VmWorld \<Rightarrow> 'w VmStepResult option"
  where
  "vmExecuteCount host m argCount wd =
     executeVmKernel (host\<lparr>argumentCount := argCount, hostArgs := None\<rparr>) m wd"

definition vmExecuteArgs :: "'w VmHost \<Rightarrow> IrModule \<Rightarrow> string list \<Rightarrow> 'w VmWorld
    \<Rightarrow> 'w VmStepResult option" where
  "vmExecuteArgs host m args wd =
     executeVmKernel (host\<lparr>argumentCount := of_nat (length args), hostArgs := Some args\<rparr>) m wd"

text \<open>Executable iteration: at most \<open>n\<close> steps, \<open>None\<close> when they do not suffice.\<close>

fun runSteps :: "nat \<Rightarrow> 'w VmHost \<Rightarrow> IrModule \<Rightarrow> 'w VmState \<Rightarrow> 'w VmStepResult option" where
  "runSteps 0 host m s = None"
| "runSteps (Suc n) host m s =
     (case vmKernelStep host m s of
        Running s' \<Rightarrow> runSteps n host m s'
      | out \<Rightarrow> Some out)"

section \<open>The loop and its executable iteration\<close>

lemma runSteps_loop: "runSteps n host m s = Some r \<Longrightarrow> vmKernelLoop host m s = Some r"
proof (induction n arbitrary: s)
  case (Suc n)
  then show ?case by (subst vmKernelLoop.simps) (auto split: VmStepResult.splits)
qed simp

lemma loop_runSteps:
  assumes "vmKernelLoop host m s = Some r"
  shows "\<exists>n. runSteps n host m s = Some r"
proof (rule vmKernelLoop.raw_induct
    [where P = "\<lambda>host m s r. \<exists>n. runSteps n host m s = Some r", OF _ assms])
  fix loop host m s r
  assume IH: "\<And>host m s r. loop host m s = Some r \<Longrightarrow> \<exists>n. runSteps n host m s = Some r"
    and eq: "(case vmKernelStep host m s of
        Running s' \<Rightarrow> loop host m s'
      | out \<Rightarrow> Some out) = Some r"
  show "\<exists>n. runSteps n host m s = Some r"
  proof (cases "vmKernelStep host m s")
    case (Running s')
    with eq have "loop host m s' = Some r" by simp
    from IH [OF this] obtain n where "runSteps n host m s' = Some r" ..
    with Running show ?thesis by (intro exI [where x = "Suc n"]) simp
  next
    case (Exited v s')
    with eq have r: "r = Exited v s'" by simp
    show ?thesis unfolding r by (rule exI [where x = "Suc 0"]) (simp add: Exited)
  next
    case (Faulted e s')
    with eq have r: "r = Faulted e s'" by simp
    show ?thesis unfolding r by (rule exI [where x = "Suc 0"]) (simp add: Faulted)
  next
    case Undefined
    with eq show ?thesis by (intro exI [where x = "Suc 0"]) simp
  qed
qed

lemma runSteps_mono: "runSteps n host m s = Some r \<Longrightarrow> n \<le> k \<Longrightarrow> runSteps k host m s = Some r"
proof (induction n arbitrary: s k)
  case (Suc n)
  then obtain k' where "k = Suc k'" "n \<le> k'" by (cases k) auto
  with Suc show ?case by (auto split: VmStepResult.splits)
qed simp


section \<open>The state invariant\<close>

definition frame_ok :: "IrModule \<Rightarrow> VmKernelFrame \<Rightarrow> bool" where
  "frame_ok m f \<longleftrightarrow>
     functionIndex f < length (mod_functions m)
     \<and> length (frameLocals f) = computeVmKernelLocalCount (mod_functions m ! functionIndex f)
     \<and> frameIp f \<le> length (instructions (mod_functions m ! functionIndex f))"

definition vm_inv :: "IrModule \<Rightarrow> 'w VmState \<Rightarrow> bool" where
  "vm_inv m s \<longleftrightarrow>
     frames s \<noteq> [] \<and> length (frames s) \<le> maxCallDepth \<and> heap_inv (vmHeap s)
     \<and> (\<forall>f \<in> set (frames s). frame_ok m f)"

definition kernelNext :: "'w VmHost \<Rightarrow> IrModule \<Rightarrow> 'w VmState \<Rightarrow> 'w VmState \<Rightarrow> bool" where
  "kernelNext host m s s' \<longleftrightarrow> vmKernelStep host m s = Running s'"

lemma frame_ok_new: "fi < length (mod_functions m) \<Longrightarrow> frame_ok m (newFrame m fi ret)"
  by (simp add: frame_ok_def newFrame_def)

lemma initialState_inv: "entry_in_range m \<Longrightarrow> vm_inv m (initialState m wd)"
  by (simp add: vm_inv_def initialState_def frame_ok_new entry_in_rangeD heap_inv_empty
      maxCallDepth_def)

text \<open>A data instruction keeps the number of locals; on the heap it takes at most one step.\<close>

lemma kernelPushLocal_keeps:
  "kernelPushLocal host inst stk locals h wd = DataNext stk' locals' h' wd' \<Longrightarrow>
     length locals' = length locals \<and> h' = h"
  by (auto simp: kernelPushLocal_def split: if_splits list.splits)

lemma storeSlot_length: "storeSlot locals h r v = (locals', h') \<Longrightarrow> length locals' = length locals"
  by (auto simp: storeSlot_def split: SlotRef.splits)

lemma store_heapStep:
  assumes "resolveIndirectAddress a IrSlotBytes locals h = Inr r"
    and "storeSlot locals h r v = (locals', h')"
  shows "heapStep n h h'"
  using heapStep.step_store [OF assms(1), of n v] assms(2) by simp

lemma kernelMemory_keeps:
  assumes "kernelMemory host inst stk locals h wd = DataNext stk' locals' h' wd'"
  shows "length locals' = length locals \<and> (h' = h \<or> heapStep (maxSlots host) h h')"
  using assms unfolding kernelMemory_def
  by (auto split: if_split_asm list.split_asm sum.split_asm prod.split_asm
      dest: storeSlot_length step_alloc step_free step_realloc store_heapStep)

lemma kernelStackString_keeps:
  "kernelStackString m inst stk locals h wd = DataNext stk' locals' h' wd' \<Longrightarrow>
     locals' = locals \<and> h' = h"
  by (auto simp: kernelStackString_def Let_def split: if_splits list.splits)

definition keepsLocals :: "nat \<Rightarrow> (u64 list \<times> u64 list \<times> 'w VmWorld) io_result \<Rightarrow> bool" where
  "keepsLocals n r \<longleftrightarrow> (\<forall>stk locals wd. r = Inr (stk, locals, wd) \<longrightarrow> length locals = n)"

lemma keepsLocals_Inl [simp]: "keepsLocals n (Inl e)"
  by (simp add: keepsLocals_def)

lemma keepsLocals_Inr [simp]: "keepsLocals n (Inr (stk, locals, wd)) \<longleftrightarrow> length locals = n"
  by (auto simp: keepsLocals_def)

lemma keepsLocals_rbind: "(\<And>x. keepsLocals n (f x)) \<Longrightarrow> keepsLocals n (rbind r f)"
  by (cases r) auto

lemma keepsLocals_text [simp]:
  "keepsLocals (length locals) (Inr (openPath sys opc path stk locals wd))"
  "keepsLocals (length locals) (Inr (writeText sys hnd text stk locals wd))"
  by (simp_all add: openPath_def writeText_def split_beta)

lemma keepsLocals_case_prod:
  "(\<And>x y. keepsLocals n (f x y)) \<Longrightarrow> keepsLocals n (case p of (x, y) \<Rightarrow> f x y)"
  by (cases p) simp

lemmas keepsLocals_rules = keepsLocals_rbind keepsLocals_case_prod keepsLocals_text

lemma handleFileManage_keeps: "keepsLocals (length locals) (handleFileManage sys m inst stk locals wd)"
  unfolding handleFileManage_def
  by (simp add: Let_def keepsLocals_rules)

lemma handleFileWrite_keeps: "keepsLocals (length locals) (handleFileWrite sys m inst stk locals wd)"
  unfolding handleFileWrite_def
  by (simp add: Let_def keepsLocals_rules)

lemma handleFileOpcode_keeps:
  assumes "handleFileOpcode sys m inst stk locals wd = Inr (stk', locals', wd')"
  shows "length locals' = length locals"
proof -
  have "keepsLocals (length locals) (handleFileOpcode sys m inst stk locals wd)"
    by (simp add: handleFileOpcode_def handleFileManage_keeps handleFileWrite_keeps)
  then show ?thesis using assms by (simp add: keepsLocals_def)
qed

lemma kernelDefault_keeps:
  "kernelDefault host m inst stk locals h wd = DataNext stk' locals' h' wd' \<Longrightarrow>
     length locals' = length locals \<and> h' = h"
  by (auto simp: kernelDefault_def handleFileOpcode_keeps
      split: if_splits PureOpcodeOutcome.splits sum.splits prod.splits)

lemma kernelData_keeps:
  assumes "kernelData host m inst stk locals h wd = DataNext stk' locals' h' wd'"
  shows "length locals' = length locals" "h' = h \<or> heapStep (maxSlots host) h h'"
  using assms kernelPushLocal_keeps [of host inst stk locals h wd]
    kernelMemory_keeps [of host inst stk locals h wd]
    kernelStackString_keeps [of m inst stk locals h wd]
    kernelDefault_keeps [of host m inst stk locals h wd]
  by (auto simp: kernelData_def split: if_splits)

text \<open>The ways a step can continue.\<close>

lemma kernelNext_cases:
  assumes "kernelNext host m s s'"
  obtains (jump) f fs stk ip where "frames s = f # fs"
      "frameIp f < length (instructions (mod_functions m ! functionIndex f))"
      "ip \<le> length (instructions (mod_functions m ! functionIndex f))"
      "isJumpOpcode (op (instructions (mod_functions m ! functionIndex f) ! frameIp f))"
      "ip = frameIp f + 1
         \<or> ip = unat (imm (instructions (mod_functions m ! functionIndex f) ! frameIp f))"
      "s' = s\<lparr>opStack := stk, frames := f\<lparr>frameIp := ip\<rparr> # fs\<rparr>"
  | (call) f fs t ret where "frames s = f # fs" "t < length (mod_functions m)"
      "length (frames s) < maxCallDepth"
      "frameIp f < length (instructions (mod_functions m ! functionIndex f))"
      "isCallOpcode (op (instructions (mod_functions m ! functionIndex f) ! frameIp f))"
      "t = unat (imm (instructions (mod_functions m ! functionIndex f) ! frameIp f))"
      "ret = (op (instructions (mod_functions m ! functionIndex f) ! frameIp f) = Call)"
      "s' = s\<lparr>frames := newFrame m t ret # f\<lparr>frameIp := frameIp f + 1\<rparr> # fs\<rparr>"
  | (ret) f fs v stk where "frames s = f # fs" "fs \<noteq> []"
      "frameIp f < length (instructions (mod_functions m ! functionIndex f))"
      "returnOperand (op (instructions (mod_functions m ! functionIndex f) ! frameIp f)) (opStack s)
         = Some (v, stk)"
      "s' = s\<lparr>opStack := (if returnValueToCaller f then v # stk else stk), frames := fs\<rparr>"
  | (data) f fs stk locals h wd where "frames s = f # fs"
      "frameIp f < length (instructions (mod_functions m ! functionIndex f))"
      "length locals = length (frameLocals f)" "h = vmHeap s \<or> heapStep (maxSlots host) (vmHeap s) h"
      "s' = \<lparr>opStack = stk, frames = f\<lparr>frameLocals := locals, frameIp := frameIp f + 1\<rparr> # fs,
             vmHeap = h, world = wd\<rparr>"
proof -
  from assms obtain f fs where f: "frames s = f # fs"
    and step: "vmKernelStep host m s = Running s'"
    by (auto simp: kernelNext_def vmKernelStep_def split: list.splits)
  let ?fn = "mod_functions m ! functionIndex f" and ?inst = "instructions (mod_functions m ! functionIndex f) ! frameIp f"
  have ip: "frameIp f < length (instructions ?fn)"
    using step f by (auto simp: vmKernelStep_def Let_def split: if_splits)
  let ?cf = "handleSharedVmControlFlowOpcode ?inst (opStack s) (length (instructions ?fn))
      (length (mod_functions m)) (length (frames s)) maxCallDepth (returnValueToCaller f) (frameIp f)"
  have step': "(case ?cf of
        CfFault e stk \<Rightarrow> Faulted e (s\<lparr>opStack := stk\<rparr>)
      | CfContinue stk ip \<Rightarrow> Running (s\<lparr>opStack := stk, frames := f\<lparr>frameIp := ip\<rparr> # fs\<rparr>)
      | CfCall target ret ip \<Rightarrow> Running (s\<lparr>frames := newFrame m target ret # f\<lparr>frameIp := ip\<rparr> # fs\<rparr>)
      | CfExit v ret stk \<Rightarrow> Exited v (s\<lparr>opStack := stk\<rparr>)
      | CfReturn v ret stk \<Rightarrow> Running (s\<lparr>opStack := (if ret then v # stk else stk), frames := fs\<rparr>)
      | CfNotHandled \<Rightarrow> applyData s f fs
          (kernelData host m ?inst (opStack s) (frameLocals f) (vmHeap s) (world s))) = Running s'"
    using step f ip by (simp add: vmKernelStep_def Let_def)
  show thesis
  proof (cases ?cf)
    case (CfContinue stk ip')
    then show ?thesis
      using step' f ip CfContinueD [OF CfContinue ip] by (intro jump [of f fs ip' stk]) auto
  next
    case (CfCall t r ip')
    then show ?thesis
      using step' f ip CfCallD [OF CfCall] by (intro call [of f fs t r]) auto
  next
    case (CfReturn v r stk)
    then show ?thesis
      using step' f ip CfReturnD [OF CfReturn] by (intro ret [of f fs v stk]) auto
  next
    case CfNotHandled
    with step' have d: "applyData s f fs
        (kernelData host m ?inst (opStack s) (frameLocals f) (vmHeap s) (world s)) = Running s'"
      by simp
    then obtain stk locals h wd where
      k: "kernelData host m ?inst (opStack s) (frameLocals f) (vmHeap s) (world s)
          = DataNext stk locals h wd"
      by (auto simp: applyData_def split: DataOutcome.splits)
    then show ?thesis
      using d f ip kernelData_keeps [OF k] by (intro data [of f fs locals h stk wd]) (auto simp: applyData_def)
  qed (use step' in auto)
qed

lemma frame_ok_update:
  assumes "frame_ok m f" and "length locals = length (frameLocals f)"
    and "ip \<le> length (instructions (mod_functions m ! functionIndex f))"
  shows "frame_ok m (f\<lparr>frameLocals := locals, frameIp := ip\<rparr>)" "frame_ok m (f\<lparr>frameIp := ip\<rparr>)"
  using assms by (simp_all add: frame_ok_def)

lemma kernelNext_inv:
  assumes inv: "vm_inv m s" and "kernelNext host m s s'"
  shows "vm_inv m s'"
  using assms(2)
proof (cases rule: kernelNext_cases)
  case (jump f fs stk ip)
  then show ?thesis using inv by (auto simp: vm_inv_def intro: frame_ok_update)
next
  case (call f fs t ret)
  then show ?thesis using inv by (auto simp: vm_inv_def intro!: frame_ok_update frame_ok_new)
next
  case (ret f fs v stk)
  then show ?thesis using inv by (auto simp: vm_inv_def)
next
  case (data f fs stk locals h wd)
  have "heap_inv h"
    using data(4) inv heapStep_facts(1) [of "vmHeap s" "maxSlots host" h] by (auto simp: vm_inv_def)
  moreover have "frame_ok m (f\<lparr>frameLocals := locals, frameIp := frameIp f + 1\<rparr>)"
    using data inv by (intro frame_ok_update) (auto simp: vm_inv_def)
  ultimately show ?thesis
    using data inv by (simp add: vm_inv_def)
qed

interpretation kernel: transition_invariant "vm_inv m" "kernelNext host m" for host m
  by (rule transition_invariant.intro) (rule kernelNext_inv)

end
