(* ===== verification/VmDebug.thy ===== *)
theory VmDebug
  imports VmKernel "HOL-Library.Product_Lexorder"
begin

text \<open>
  The debug session (\<^verbatim>\<open>include/primec/Vm.h\<close>, \<^verbatim>\<open>src/runtime/VmDebugSession.cpp\<close>,
  \<^verbatim>\<open>VmDebugSessionSetup.cpp\<close>, \<^verbatim>\<open>VmDebugSessionInstruction.cpp\<close> and \<^verbatim>\<open>VmDebugHelpers.cpp\<close>):
  a second interpreter of the same instructions, stepped by its user, with breakpoints, pause
  requests and hooks. Hook callbacks are code of the user; the model records the events they
  are given, in order, in \<open>hookLog\<close>, and the hooks installed as five booleans. A hook that
  calls back into the session while it runs is not modelled.
\<close>

section \<open>States, commands and stop reasons\<close>

datatype VmDebugSessionState = Idle | SessRunning | Paused | SessFaulted | SessExited

datatype VmDebugStopReason = Breakpoint | Step | Pause | Fault | Exit

datatype VmDebugSessionCommand = Start | Continue | Reset

definition vmDebugApplyCommand ::
  "VmDebugSessionState \<Rightarrow> VmDebugSessionCommand \<Rightarrow> VmDebugSessionState \<times> bool" where
  "vmDebugApplyCommand st command =
     (case command of
        Start \<Rightarrow> if st = Idle then (SessRunning, True) else (st, False)
      | Continue \<Rightarrow> if st = Paused then (SessRunning, True) else (st, False)
      | Reset \<Rightarrow>
          if st = Paused \<or> st = SessFaulted \<or> st = SessExited then (Idle, True) else (st, False))"

definition vmDebugApplyStopReason ::
  "VmDebugSessionState \<Rightarrow> VmDebugStopReason \<Rightarrow> VmDebugSessionState \<times> bool" where
  "vmDebugApplyStopReason st reason =
     (if st \<noteq> SessRunning then (st, False)
      else
        (case reason of
           Breakpoint \<Rightarrow> (Paused, True)
         | Step \<Rightarrow> (Paused, True)
         | Pause \<Rightarrow> (Paused, True)
         | Fault \<Rightarrow> (SessFaulted, True)
         | Exit \<Rightarrow> (SessExited, True)))"

section \<open>Session state\<close>

record VmDebugSnapshot =
  snapState :: VmDebugSessionState
  snapFunctionIndex :: nat
  snapInstructionPointer :: nat
  callDepth :: nat
  operandStackSize :: nat
  snapResult :: u64

datatype InstructionHookKind = BeforeInstruction | AfterInstruction

datatype CallHookKind = CallPush | CallPop

datatype VmDebugHookEvent =
  InstructionEvent InstructionHookKind (sequenceNo: u64) VmDebugSnapshot IrOpcode u64
  | CallEvent CallHookKind (sequenceNo: u64) VmDebugSnapshot nat bool
  | FaultEvent (sequenceNo: u64) VmDebugSnapshot IrOpcode u64 string

record VmDebugHooks =
  beforeInstructionHook :: bool
  afterInstructionHook :: bool
  callPushHook :: bool
  callPopHook :: bool
  faultHook :: bool

definition noHooks :: VmDebugHooks where
  "noHooks = \<lparr>beforeInstructionHook = False, afterInstructionHook = False, callPushHook = False,
     callPopHook = False, faultHook = False\<rparr>"

text \<open>
  \<open>dbgArgs\<close> is \<^verbatim>\<open>argvViews_\<close> with the text it owns; a session that has never started has no
  module.
\<close>

record 'w VmDebugSession =
  dbgModule :: "IrModule option"
  dbgArgCount :: u64
  dbgArgs :: "string list option"
  localCounts :: "nat list"
  dbgStack :: "u64 list"
  dbgHeap :: VmHeap
  dbgFrames :: "VmKernelFrame list"
  dbgState :: VmDebugSessionState
  dbgResult :: u64
  pauseRequested :: bool
  lastStopWasBreakpoint :: bool
  breakpoints :: "(nat \<times> nat) set"
  nextHookSequence :: u64
  hooks :: VmDebugHooks
  hookLog :: "VmDebugHookEvent list"
  dbgWorld :: "'w VmWorld"

definition freshSession :: "'w VmWorld \<Rightarrow> 'w VmDebugSession" where
  "freshSession wd =
     \<lparr>dbgModule = None, dbgArgCount = 0, dbgArgs = None, localCounts = [], dbgStack = [],
      dbgHeap = emptyHeap, dbgFrames = [], dbgState = Idle, dbgResult = 0, pauseRequested = False,
      lastStopWasBreakpoint = False, breakpoints = {}, nextHookSequence = 0, hooks = noHooks,
      hookLog = [], dbgWorld = wd\<rparr>"

section \<open>Starting a session\<close>

definition vmDebugLocalCount :: "IrFunction \<Rightarrow> nat" where
  "vmDebugLocalCount f =
     fold (\<lambda>inst localCount.
             if op inst = LoadLocal \<or> op inst = StoreLocal \<or> op inst = AddressOfLocal
             then max localCount (unat (imm inst + 1)) else localCount) (instructions f) 0"

definition initFromModule ::
  "IrModule \<Rightarrow> u64 \<Rightarrow> string list option \<Rightarrow> 'w VmDebugSession \<Rightarrow> bool \<times> 'w VmDebugSession" where
  "initFromModule m argCount args s =
     (let counts = map vmDebugLocalCount (mod_functions m);
          fi = entry_function m;
          s1 = s\<lparr>dbgModule := Some m, dbgArgCount := argCount, dbgArgs := args,
                 localCounts := counts, dbgStack := [], dbgHeap := emptyHeap,
                 dbgFrames := [\<lparr>functionIndex = fi, frameLocals = replicate (counts ! fi) 0,
                                frameIp = 0, returnValueToCaller = False\<rparr>],
                 dbgResult := 0, pauseRequested := False, lastStopWasBreakpoint := False,
                 breakpoints := {}, nextHookSequence := 0\<rparr>;
          startTransition = vmDebugApplyCommand Idle Start
      in if \<not> snd startTransition then (False, s1)
         else
           (let s2 = s1\<lparr>dbgState := fst startTransition\<rparr>;
                pauseTransition = vmDebugApplyStopReason (dbgState s2) Pause
            in if \<not> snd pauseTransition then (False, s2)
               else (True, s2\<lparr>dbgState := fst pauseTransition\<rparr>)))"

text \<open>The two overloads of \<^verbatim>\<open>start\<close>.\<close>

definition startCount :: "IrModule \<Rightarrow> u64 \<Rightarrow> 'w VmDebugSession \<Rightarrow> string option \<times> 'w VmDebugSession"
  where
  "startCount m argCount s =
     (if \<not> entry_in_range m then (Some ''invalid IR entry index'', s)
      else
        (case initFromModule m argCount None s of
           (ok, s') \<Rightarrow> (if ok then None else Some ''failed to initialize debug session'', s')))"

definition startArgs :: "IrModule \<Rightarrow> string list \<Rightarrow> 'w VmDebugSession \<Rightarrow> string option \<times> 'w VmDebugSession"
  where
  "startArgs m args s =
     (if \<not> entry_in_range m then (Some ''invalid IR entry index'', s)
      else
        (case initFromModule m (of_nat (length args)) (Some args) s of
           (ok, s') \<Rightarrow> (if ok then None else Some ''failed to initialize debug session'', s')))"

section \<open>Snapshots\<close>

definition snapshot :: "'w VmDebugSession \<Rightarrow> VmDebugSnapshot" where
  "snapshot s =
     (case dbgFrames s of
        [] \<Rightarrow> \<lparr>snapState = dbgState s, snapFunctionIndex = 0, snapInstructionPointer = 0,
               callDepth = 0, operandStackSize = length (dbgStack s), snapResult = dbgResult s\<rparr>
      | f # fs \<Rightarrow>
          \<lparr>snapState = dbgState s, snapFunctionIndex = functionIndex f,
           snapInstructionPointer = frameIp f, callDepth = length (f # fs),
           operandStackSize = length (dbgStack s), snapResult = dbgResult s\<rparr>)"

record VmDebugSnapshotPayload =
  payloadInstructionPointer :: nat
  callStack :: "(nat \<times> nat) list"
  payloadFrameLocals :: "u64 list list"
  currentFrameLocals :: "u64 list"
  operandStack :: "u64 list"

text \<open>The payload lists frames and operands bottom first, as the vectors of the source do.\<close>

definition snapshotPayload :: "'w VmDebugSession \<Rightarrow> VmDebugSnapshotPayload" where
  "snapshotPayload s =
     \<lparr>payloadInstructionPointer = (case dbgFrames s of [] \<Rightarrow> 0 | f # fs \<Rightarrow> frameIp f),
      callStack = map (\<lambda>f. (functionIndex f, frameIp f)) (rev (dbgFrames s)),
      payloadFrameLocals = map frameLocals (rev (dbgFrames s)),
      currentFrameLocals = (case dbgFrames s of [] \<Rightarrow> [] | f # fs \<Rightarrow> frameLocals f),
      operandStack = rev (dbgStack s)\<rparr>"

section \<open>The mapped stack trace\<close>

definition sourceMapProvenanceName :: "IrSourceMapProvenance \<Rightarrow> string" where
  "sourceMapProvenanceName p =
     (if p = ProvenanceCanonicalAst then ''canonical_ast''
      else if p = ProvenanceSyntheticIr then ''synthetic_ir'' else ''unknown'')"

text \<open>\<^verbatim>\<open>emplace\<close> keeps the first entry of a debug id.\<close>

definition sourceByDebugId ::
  "IrInstructionSourceMapEntry list \<Rightarrow> u32 \<Rightarrow> IrInstructionSourceMapEntry option" where
  "sourceByDebugId entries i = find (\<lambda>e. sm_debugId e = i) entries"

definition traceLocation :: "IrInstructionSourceMapEntry option \<Rightarrow> string" where
  "traceLocation entry =
     (case entry of
        None \<Rightarrow> []
      | Some e \<Rightarrow>
          if line e > 0 \<and> column e > 0
          then '' at '' @ (if sourceUnit e \<noteq> [] then sourceUnit e @ '':'' else [])
               @ dec_nat (unat (line e)) @ '':'' @ dec_nat (unat (column e)) @ '' [''
               @ sourceMapProvenanceName (provenance e) @ '']''
          else [])"

definition newline :: string where "newline = [CHR 0x0A]"

definition traceFrame :: "IrModule \<Rightarrow> nat \<Rightarrow> VmKernelFrame \<Rightarrow> string" where
  "traceFrame m ordinal f =
     (let fn = mod_functions m ! functionIndex f;
          ip0 = frameIp f;
          traceIp =
            (if ordinal > 0 \<and> ip0 > 0 \<and> ip0 \<le> length (instructions fn)
                \<and> (op (instructions fn ! (ip0 - 1)) = Call \<or> op (instructions fn ! (ip0 - 1)) = CallVoid)
             then ip0 - 1 else ip0)
      in (if ordinal > 0 then newline else newline @ ''stack trace:'' @ newline)
         @ ''  #'' @ dec_nat ordinal @ '' '' @ fn_name fn @ '' ip '' @ dec_nat traceIp
         @ (if traceIp < length (instructions fn)
            then '' debug_id '' @ dec_nat (unat (debugId (instructions fn ! traceIp)))
                 @ traceLocation (sourceByDebugId (instructionSourceMap m)
                     (debugId (instructions fn ! traceIp)))
            else []))"

definition appendMappedStackTrace :: "'w VmDebugSession \<Rightarrow> string \<Rightarrow> string" where
  "appendMappedStackTrace s err =
     (case dbgModule s of
        None \<Rightarrow> err
      | Some m \<Rightarrow>
          if instructionSourceMap m = [] \<or> dbgFrames s = [] then err
          else err @ concat (map (\<lambda>(i, f). traceFrame m i f) (List.enumerate 0 (dbgFrames s))))"

section \<open>Hooks\<close>

definition emitInstructionHook ::
  "InstructionHookKind \<Rightarrow> IrInstruction \<Rightarrow> 'w VmDebugSession \<Rightarrow> 'w VmDebugSession" where
  "emitInstructionHook kind inst s =
     (if \<not> (case kind of BeforeInstruction \<Rightarrow> beforeInstructionHook (hooks s)
                       | AfterInstruction \<Rightarrow> afterInstructionHook (hooks s)) then s
      else s\<lparr>nextHookSequence := nextHookSequence s + 1,
             hookLog := hookLog s
               @ [InstructionEvent kind (nextHookSequence s)
                    (snapshot (s\<lparr>nextHookSequence := nextHookSequence s + 1\<rparr>)) (op inst) (imm inst)]\<rparr>)"

definition emitCallHook ::
  "CallHookKind \<Rightarrow> nat \<Rightarrow> bool \<Rightarrow> 'w VmDebugSession \<Rightarrow> 'w VmDebugSession" where
  "emitCallHook kind fi ret s =
     (if \<not> (case kind of CallPush \<Rightarrow> callPushHook (hooks s) | CallPop \<Rightarrow> callPopHook (hooks s)) then s
      else s\<lparr>nextHookSequence := nextHookSequence s + 1,
             hookLog := hookLog s
               @ [CallEvent kind (nextHookSequence s)
                    (snapshot (s\<lparr>nextHookSequence := nextHookSequence s + 1\<rparr>)) fi ret]\<rparr>)"

section \<open>One instruction\<close>

datatype StepOutcome = StepContinue | StepExit | StepFault string | StepUndefined

definition finishStep ::
  "IrInstruction \<Rightarrow> StepOutcome \<Rightarrow> 'w VmDebugSession \<Rightarrow> StepOutcome \<times> 'w VmDebugSession" where
  "finishStep inst out s = (out, emitInstructionHook AfterInstruction inst s)"

definition finishFault ::
  "IrInstruction \<Rightarrow> string \<Rightarrow> 'w VmDebugSession \<Rightarrow> StepOutcome \<times> 'w VmDebugSession" where
  "finishFault inst err s =
     (let err' = appendMappedStackTrace s err in
      (StepFault err',
       if \<not> faultHook (hooks s) then s
       else s\<lparr>nextHookSequence := nextHookSequence s + 1,
              hookLog := hookLog s
                @ [FaultEvent (nextHookSequence s)
                     (snapshot (s\<lparr>nextHookSequence := nextHookSequence s + 1\<rparr>))
                     (op inst) (imm inst) err']\<rparr>))"

text \<open>
  The switch of \<^verbatim>\<open>stepInstruction\<close>, group by group, on the stack, the locals of the running
  frame, the heap and the world. It is a copy of the kernel's with its own text.
\<close>

definition debugPushLocal :: "u64 \<Rightarrow> IrInstruction \<Rightarrow> u64 list \<Rightarrow> u64 list \<Rightarrow> VmHeap
    \<Rightarrow> 'w VmWorld \<Rightarrow> 'w DataOutcome" where
  "debugPushLocal argCount inst stk locals h wd =
     (if op inst = PushI32 then DataNext (sext32 (imm inst) # stk) locals h wd
      else if op inst = PushI64 then DataNext (imm inst # stk) locals h wd
      else if op inst = PushF32 \<or> op inst = PushF64 then DataNext (imm inst # stk) locals h wd
      else if op inst = PushArgc then DataNext (sext32 argCount # stk) locals h wd
      else if op inst = LoadLocal then
        (if unat (imm inst) \<ge> length locals then DataFault ''invalid local index in IR'' stk
         else DataNext (locals ! unat (imm inst) # stk) locals h wd)
      else if op inst = StoreLocal then
        (if unat (imm inst) \<ge> length locals then DataFault ''invalid local index in IR'' stk
         else if stk = [] then DataFault ''IR stack underflow on store'' stk
         else DataNext (tl stk) (locals[unat (imm inst) := hd stk]) h wd)
      else if op inst = AddressOfLocal then
        (if unat (imm inst) \<ge> length locals then DataFault ''invalid local index in IR'' stk
         else DataNext (imm inst * IrSlotBytes # stk) locals h wd)
      else DataUnknown)"

definition debugMemory :: "nat \<Rightarrow> IrInstruction \<Rightarrow> u64 list \<Rightarrow> u64 list \<Rightarrow> VmHeap
    \<Rightarrow> 'w VmWorld \<Rightarrow> 'w DataOutcome" where
  "debugMemory slotLimit inst stk locals h wd =
     (if op inst = LoadIndirect then
        (if stk = [] then DataFault ''IR stack underflow on load indirect'' stk
         else
           (case resolveIndirectAddress (hd stk) IrSlotBytes locals h of
              Inl e \<Rightarrow> DataFault e (tl stk)
            | Inr slot \<Rightarrow> DataNext (loadSlot locals h slot # tl stk) locals h wd))
      else if op inst = StoreIndirect then
        (if length stk < 2 then DataFault ''IR stack underflow on store indirect'' stk
         else
           (let value = hd stk; address = hd (tl stk); rest = tl (tl stk) in
            case resolveIndirectAddress address IrSlotBytes locals h of
              Inl e \<Rightarrow> DataFault e rest
            | Inr slot \<Rightarrow>
                (case storeSlot locals h slot value of
                   (locals', h') \<Rightarrow> DataNext (value # rest) locals' h' wd)))
      else if op inst = HeapAlloc then
        (if stk = [] then DataFault ''IR stack underflow on heap alloc'' stk
         else
           (case allocateVmHeapSlots slotLimit (hd stk) IrSlotBytes h of
              Inl e \<Rightarrow> DataFault e (tl stk)
            | Inr (address, h') \<Rightarrow> DataNext (address # tl stk) locals h' wd))
      else if op inst = HeapFree then
        (if stk = [] then DataFault ''IR stack underflow on heap free'' stk
         else
           (case freeVmHeapSlots (hd stk) IrSlotBytes h of
              Inl e \<Rightarrow> DataFault e (tl stk)
            | Inr h' \<Rightarrow> DataNext (tl stk) locals h' wd))
      else if op inst = HeapRealloc then
        (if length stk < 2 then DataFault ''IR stack underflow on heap realloc'' stk
         else
           (let slotCnt = hd stk; address = hd (tl stk); rest = tl (tl stk) in
            case reallocVmHeapSlots slotLimit address slotCnt IrSlotBytes h of
              Inl e \<Rightarrow> DataFault e rest
            | Inr (newAddress, h') \<Rightarrow> DataNext (newAddress # rest) locals h' wd))
      else DataUnknown)"

definition debugStack :: "IrInstruction \<Rightarrow> u64 list \<Rightarrow> u64 list \<Rightarrow> VmHeap
    \<Rightarrow> 'w VmWorld \<Rightarrow> 'w DataOutcome" where
  "debugStack inst stk locals h wd =
     (if op inst = Dup then
        (if stk = [] then DataFault ''IR stack underflow on dup'' stk
         else DataNext (hd stk # stk) locals h wd)
      else if op inst = Pop then
        (if stk = [] then DataFault ''IR stack underflow on pop'' stk
         else DataNext (tl stk) locals h wd)
      else DataUnknown)"

definition debugIo :: "'w Sys \<Rightarrow> string list option \<Rightarrow> IrModule \<Rightarrow> IrInstruction \<Rightarrow> u64 list
    \<Rightarrow> u64 list \<Rightarrow> VmHeap \<Rightarrow> 'w VmWorld \<Rightarrow> 'w DataOutcome" where
  "debugIo sys args m inst stk locals h wd =
     (if op inst = PrintI32 \<or> op inst = PrintI64 \<or> op inst = PrintU64 \<or> op inst = PrintString
         \<or> op inst = PrintStringDynamic \<or> op inst = PrintArgv \<or> op inst = PrintArgvUnsafe then
        (case handlePrintOpcode m inst stk args wd of
           Inl (e, stk') \<Rightarrow> DataFault e stk'
         | Inr (stk', wd') \<Rightarrow> DataNext stk' locals h wd')
      else if op inst = FileOpenRead \<or> op inst = FileOpenWrite \<or> op inst = FileOpenAppend
         \<or> op inst = FileOpenReadDynamic \<or> op inst = FileOpenWriteDynamic
         \<or> op inst = FileOpenAppendDynamic \<or> op inst = FileClose \<or> op inst = FileReadByte
         \<or> op inst = FileFlush \<or> op inst = FileWriteI32 \<or> op inst = FileWriteI64
         \<or> op inst = FileWriteU64 \<or> op inst = FileWriteString \<or> op inst = FileWriteStringDynamic
         \<or> op inst = FileWriteByte \<or> op inst = FileWriteNewline then
        (case handleFileOpcode sys m inst stk locals wd of
           Inl (e, stk') \<Rightarrow> DataFault e stk'
         | Inr (stk', locals', wd') \<Rightarrow> DataNext stk' locals' h wd')
      else DataUnknown)"

definition debugString :: "IrModule \<Rightarrow> IrInstruction \<Rightarrow> u64 list \<Rightarrow> u64 list \<Rightarrow> VmHeap
    \<Rightarrow> 'w VmWorld \<Rightarrow> 'w DataOutcome" where
  "debugString m inst stk locals h wd =
     (if op inst = LoadStringByte then
        (if stk = [] then DataFault ''IR stack underflow on string index'' stk
         else
           (let index = unat (hd stk); rest = tl stk in
            if unat (imm inst) \<ge> length (stringTable m)
            then DataFault ''invalid string index in IR'' rest
            else
              (let text = stringTable m ! unat (imm inst) in
               if index \<ge> length text then DataFault ''string index out of bounds in IR'' rest
               else DataNext (of_nat (of_char (text ! index)) # rest) locals h wd)))
      else if op inst = LoadStringLength then
        (if stk = [] then DataFault ''IR stack underflow on string index'' stk
         else
           (let stringIndex = hd stk; rest = tl stk in
            if unat stringIndex \<ge> length (stringTable m)
            then DataFault ''invalid string index in IR'' rest
            else DataNext (of_nat (length (stringTable m ! unat stringIndex)) # rest) locals h wd))
      else DataUnknown)"

text \<open>The groups in the order of the source; \<^verbatim>\<open>default\<close> is the unknown opcode.\<close>

definition orElseData :: "'w DataOutcome \<Rightarrow> 'w DataOutcome \<Rightarrow> 'w DataOutcome" where
  "orElseData a b = (case a of DataUnknown \<Rightarrow> b | _ \<Rightarrow> a)"

definition debugSwitch :: "'w VmHost \<Rightarrow> IrModule \<Rightarrow> IrInstruction \<Rightarrow> 'w VmDebugSession
    \<Rightarrow> u64 list \<Rightarrow> 'w DataOutcome" where
  "debugSwitch host m inst s locals =
     orElseData (debugPushLocal (dbgArgCount s) inst (dbgStack s) locals (dbgHeap s) (dbgWorld s))
       (orElseData (debugMemory (maxSlots host) inst (dbgStack s) locals (dbgHeap s) (dbgWorld s))
         (orElseData (debugStack inst (dbgStack s) locals (dbgHeap s) (dbgWorld s))
           (orElseData
             (debugIo (hostSys host) (dbgArgs s) m inst (dbgStack s) locals (dbgHeap s) (dbgWorld s))
             (orElseData (debugString m inst (dbgStack s) locals (dbgHeap s) (dbgWorld s))
               (DataFault ''unknown IR opcode'' (dbgStack s))))))"

definition applyDebugData :: "IrInstruction \<Rightarrow> 'w VmDebugSession \<Rightarrow> VmKernelFrame
    \<Rightarrow> VmKernelFrame list \<Rightarrow> 'w DataOutcome \<Rightarrow> StepOutcome \<times> 'w VmDebugSession" where
  "applyDebugData inst s f fs out =
     (case out of
        DataNext stk locals h wd \<Rightarrow>
          finishStep inst StepContinue
            (s\<lparr>dbgStack := stk, dbgFrames := f\<lparr>frameLocals := locals, frameIp := frameIp f + 1\<rparr> # fs,
               dbgHeap := h, dbgWorld := wd\<rparr>)
      | DataFault e stk \<Rightarrow> finishFault inst e (s\<lparr>dbgStack := stk\<rparr>)
      | DataUndefined \<Rightarrow> (StepUndefined, s)
      | DataUnknown \<Rightarrow> finishFault inst ''unknown IR opcode'' s)"

text \<open>The control-flow outcomes: jump, call, exit and return, with their hooks.\<close>

definition applyDebugControl :: "'w VmHost \<Rightarrow> IrModule \<Rightarrow> IrInstruction \<Rightarrow> 'w VmDebugSession
    \<Rightarrow> VmKernelFrame \<Rightarrow> VmKernelFrame list \<Rightarrow> VmControlFlowOutcome
    \<Rightarrow> StepOutcome \<times> 'w VmDebugSession" where
  "applyDebugControl host m inst s f fs out =
     (case out of
        CfFault e stk \<Rightarrow> finishFault inst e (s\<lparr>dbgStack := stk\<rparr>)
      | CfContinue stk ip \<Rightarrow>
          finishStep inst StepContinue (s\<lparr>dbgStack := stk, dbgFrames := f\<lparr>frameIp := ip\<rparr> # fs\<rparr>)
      | CfCall target ret ip \<Rightarrow>
          (let callee = \<lparr>functionIndex = target, frameLocals = replicate (localCounts s ! target) 0,
                         frameIp = 0, returnValueToCaller = ret\<rparr>
           in finishStep inst StepContinue
                (emitCallHook CallPush target ret
                  (s\<lparr>dbgFrames := callee # f\<lparr>frameIp := ip\<rparr> # fs\<rparr>)))
      | CfExit v ret stk \<Rightarrow>
          finishStep inst StepExit
            (emitCallHook CallPop (functionIndex f) ret
              (s\<lparr>dbgStack := stk, dbgResult := v, dbgFrames := []\<rparr>))
      | CfReturn v ret stk \<Rightarrow>
          finishStep inst StepContinue
            (emitCallHook CallPop (functionIndex f) ret
              (s\<lparr>dbgStack := (if ret then v # stk else stk), dbgFrames := fs\<rparr>))
      | CfNotHandled \<Rightarrow> applyDebugData inst s f fs (debugSwitch host m inst s (frameLocals f)))"

definition stepInstruction :: "'w VmHost \<Rightarrow> 'w VmDebugSession \<Rightarrow> StepOutcome \<times> 'w VmDebugSession"
  where
  "stepInstruction host s =
     (case dbgModule s of
        None \<Rightarrow> (StepFault ''debug session has no active module'', s)
      | Some m \<Rightarrow>
        (case dbgFrames s of
           [] \<Rightarrow> (StepFault ''debug session has no active frame'', s)
         | f # fs \<Rightarrow>
           (let fn = mod_functions m ! functionIndex f in
            if frameIp f \<ge> length (instructions fn) then
              (StepFault (appendMappedStackTrace s
                 (if length (dbgFrames s) = 1 then ''missing return in IR''
                  else ''missing return in IR function '' @ fn_name fn)), s)
            else
              (let inst = instructions fn ! frameIp f;
                   s0 = emitInstructionHook BeforeInstruction inst s
               in case handleVmDebugNumericOpcode (hostFpu host) inst (dbgStack s0) of
                    PureFault e stk \<Rightarrow> finishFault inst e (s0\<lparr>dbgStack := stk\<rparr>)
                  | PureContinue stk \<Rightarrow>
                      finishStep inst StepContinue
                        (s0\<lparr>dbgStack := stk, dbgFrames := f\<lparr>frameIp := frameIp f + 1\<rparr> # fs\<rparr>)
                  | PureUndefined \<Rightarrow> (StepUndefined, s0)
                  | NotHandled \<Rightarrow>
                      applyDebugControl host m inst s0 f fs
                        (handleSharedVmControlFlowOpcode inst (dbgStack s0)
                           (length (instructions fn)) (length (mod_functions m))
                           (length (dbgFrames s0)) 4096 (returnValueToCaller f) (frameIp f))))))"

section \<open>Commands\<close>

text \<open>
  What a command reports: a stop reason (it returned true), the fault stop with its message
  (false, with the reason set), a rejection (false), or undefined behaviour.
\<close>

datatype DebugReply =
  Stopped VmDebugStopReason
  | FaultStop string
  | Rejected string
  | UndefinedReply

text \<open>\<^verbatim>\<open>if (stopTransition.valid) state_ = stopTransition.state; lastStopWasBreakpoint_ = false;\<close>\<close>

definition enterStop :: "VmDebugStopReason \<Rightarrow> 'w VmDebugSession \<Rightarrow> 'w VmDebugSession" where
  "enterStop reason s =
     s\<lparr>dbgState := (if snd (vmDebugApplyStopReason (dbgState s) reason)
                    then fst (vmDebugApplyStopReason (dbgState s) reason) else dbgState s),
       lastStopWasBreakpoint := False\<rparr>"

text \<open>
  \<^verbatim>\<open>if (!stopTransition.valid) { error = message; return false; } state_ = ...;
  lastStopWasBreakpoint_ = bp; return true;\<close>
\<close>

definition requireStop :: "VmDebugStopReason \<Rightarrow> string \<Rightarrow> bool \<Rightarrow> 'w VmDebugSession
    \<Rightarrow> DebugReply \<times> 'w VmDebugSession" where
  "requireStop reason msg bp s =
     (if \<not> snd (vmDebugApplyStopReason (dbgState s) reason) then (Rejected msg, s)
      else (Stopped reason,
            s\<lparr>dbgState := fst (vmDebugApplyStopReason (dbgState s) reason),
              lastStopWasBreakpoint := bp\<rparr>))"

definition debugStep :: "'w VmHost \<Rightarrow> 'w VmDebugSession \<Rightarrow> DebugReply \<times> 'w VmDebugSession" where
  "debugStep host s =
     (if dbgState s = Idle then (Rejected ''debug session is not started'', s)
      else if dbgState s \<noteq> Paused then (Rejected ''debug session is not paused'', s)
      else if \<not> snd (vmDebugApplyCommand (dbgState s) Continue)
      then (Rejected ''debug session cannot step from current state'', s)
      else
        (case stepInstruction host (s\<lparr>dbgState := fst (vmDebugApplyCommand (dbgState s) Continue)\<rparr>) of
           (StepFault e, s1) \<Rightarrow> (FaultStop e, enterStop Fault s1)
         | (StepExit, s1) \<Rightarrow> (Stopped Exit, enterStop Exit s1)
         | (StepContinue, s1) \<Rightarrow>
             requireStop Step ''debug session failed to enter paused state after step'' False s1
         | (StepUndefined, s1) \<Rightarrow> (UndefinedReply, s1)))"

definition atBreakpoint :: "'w VmDebugSession \<Rightarrow> bool" where
  "atBreakpoint s =
     (case dbgFrames s of [] \<Rightarrow> False | f # fs \<Rightarrow> (functionIndex f, frameIp f) \<in> breakpoints s)"

text \<open>
  One pass through the \<^verbatim>\<open>while (true)\<close> loop: \<open>Inl\<close> leaves it, \<open>Inr\<close> goes round again, with
  \<^verbatim>\<open>skipCurrentBreakpoint\<close> false from then on.
\<close>

definition continuePass :: "'w VmHost \<Rightarrow> bool \<Rightarrow> 'w VmDebugSession
    \<Rightarrow> (DebugReply \<times> 'w VmDebugSession) + 'w VmDebugSession" where
  "continuePass host skip s =
     (if \<not> skip \<and> atBreakpoint s
      then Inl (requireStop Breakpoint ''debug session failed to pause at breakpoint'' True s)
      else
        (case stepInstruction host s of
           (StepFault e, s1) \<Rightarrow> Inl (FaultStop e, enterStop Fault s1)
         | (StepExit, s1) \<Rightarrow> Inl (requireStop Exit ''debug session failed to exit'' False s1)
         | (StepUndefined, s1) \<Rightarrow> Inl (UndefinedReply, s1)
         | (StepContinue, s1) \<Rightarrow>
             (if pauseRequested s1
              then Inl (requireStop Pause ''debug session failed to pause'' False
                     (s1\<lparr>pauseRequested := False\<rparr>))
              else Inr s1)))"

partial_function (option) continueLoop ::
  "'w VmHost \<Rightarrow> bool \<Rightarrow> 'w VmDebugSession \<Rightarrow> (DebugReply \<times> 'w VmDebugSession) option" where
  "continueLoop host skip s =
     (case continuePass host skip s of
        Inl r \<Rightarrow> Some r
      | Inr s1 \<Rightarrow> continueLoop host False s1)"

definition continueExecution ::
  "'w VmHost \<Rightarrow> 'w VmDebugSession \<Rightarrow> (DebugReply \<times> 'w VmDebugSession) option" where
  "continueExecution host s =
     (if dbgState s = Idle then Some (Rejected ''debug session is not started'', s)
      else if dbgState s \<noteq> Paused then Some (Rejected ''debug session is not paused'', s)
      else if \<not> snd (vmDebugApplyCommand (dbgState s) Continue)
      then Some (Rejected ''debug session cannot continue from current state'', s)
      else
        (let s1 = s\<lparr>dbgState := fst (vmDebugApplyCommand (dbgState s) Continue)\<rparr> in
         if pauseRequested s1 then
           Some (requireStop Pause ''debug session failed to pause'' False
             (s1\<lparr>pauseRequested := False\<rparr>))
         else
           continueLoop host (lastStopWasBreakpoint s1) (s1\<lparr>lastStopWasBreakpoint := False\<rparr>)))"

definition pause :: "'w VmDebugSession \<Rightarrow> string option \<times> 'w VmDebugSession" where
  "pause s =
     (if dbgState s = Idle then (Some ''debug session is not started'', s)
      else if dbgState s = SessFaulted \<or> dbgState s = SessExited
      then (Some ''debug session cannot pause after termination'', s)
      else (None, s\<lparr>pauseRequested := True\<rparr>))"

definition addBreakpoint :: "nat \<Rightarrow> nat \<Rightarrow> 'w VmDebugSession \<Rightarrow> string option \<times> 'w VmDebugSession"
  where
  "addBreakpoint fi ip s =
     (case dbgModule s of
        None \<Rightarrow> (Some ''debug session is not started'', s)
      | Some m \<Rightarrow>
          if fi \<ge> length (mod_functions m) then (Some ''invalid breakpoint function index'', s)
          else if ip \<ge> length (instructions (mod_functions m ! fi))
          then (Some ''invalid breakpoint instruction pointer'', s)
          else (None, s\<lparr>breakpoints := insert (fi, ip) (breakpoints s)\<rparr>))"

definition removeBreakpoint :: "nat \<Rightarrow> nat \<Rightarrow> 'w VmDebugSession \<Rightarrow> string option \<times> 'w VmDebugSession"
  where
  "removeBreakpoint fi ip s =
     (case dbgModule s of
        None \<Rightarrow> (Some ''debug session is not started'', s)
      | Some m \<Rightarrow>
          if (fi, ip) \<notin> breakpoints s then (Some ''breakpoint not found'', s)
          else (None, s\<lparr>breakpoints := breakpoints s - {(fi, ip)}\<rparr>))"

definition clearBreakpoints :: "'w VmDebugSession \<Rightarrow> 'w VmDebugSession" where
  "clearBreakpoints s = s\<lparr>breakpoints := {}, lastStopWasBreakpoint := False\<rparr>"

definition setHooks :: "VmDebugHooks \<Rightarrow> 'w VmDebugSession \<Rightarrow> 'w VmDebugSession" where
  "setHooks hs s = s\<lparr>hooks := hs\<rparr>"

definition clearHooks :: "'w VmDebugSession \<Rightarrow> 'w VmDebugSession" where
  "clearHooks s = s\<lparr>hooks := noHooks\<rparr>"

section \<open>Source breakpoints\<close>

record VmResolvedSourceBreakpoint =
  rbFunctionIndex :: nat
  rbInstructionPointer :: nat
  rbDebugId :: u32
  rbLine :: u32
  rbColumn :: u32
  rbProvenance :: IrSourceMapProvenance
  rbSourceUnit :: string

definition sourceMapEntryMatchesSourceUnit :: "IrInstructionSourceMapEntry \<Rightarrow> string option \<Rightarrow> bool"
  where
  "sourceMapEntryMatchesSourceUnit entry srcUnit =
     (case srcUnit of None \<Rightarrow> True | Some u \<Rightarrow> u = [] \<or> sourceUnit entry = u)"

definition sourceBreakpointLocationText :: "u32 \<Rightarrow> u32 option \<Rightarrow> string option \<Rightarrow> string" where
  "sourceBreakpointLocationText ln col srcUnit =
     ''line '' @ dec_nat (unat ln)
     @ (case col of None \<Rightarrow> [] | Some c \<Rightarrow> '', column '' @ dec_nat (unat c))
     @ (case srcUnit of None \<Rightarrow> [] | Some u \<Rightarrow> if u = [] then [] else '' in '' @ u)"

text \<open>The entries of the first loop, before a column is asked for.\<close>

definition lineEntries :: "IrModule \<Rightarrow> u32 \<Rightarrow> string option \<Rightarrow> IrInstructionSourceMapEntry list" where
  "lineEntries m ln srcUnit =
     [e \<leftarrow> instructionSourceMap m.
        provenance e = ProvenanceCanonicalAst \<and> sourceMapEntryMatchesSourceUnit e srcUnit
        \<and> \<not> (line e \<noteq> ln \<or> column e = 0)]"

definition columnList :: "u32 list \<Rightarrow> string" where
  "columnList cols = concat (map (\<lambda>(i, c). (if i > 0 then '','' else []) @ dec_nat (unat c)) (List.enumerate 0 cols))"

text \<open>The map from debug ids the two loops build, as the list whose first entry of an id counts.\<close>

definition breakpointEntries ::
  "IrModule \<Rightarrow> u32 \<Rightarrow> u32 option \<Rightarrow> string option \<Rightarrow> IrInstructionSourceMapEntry list result" where
  "breakpointEntries m ln col srcUnit =
     (let es = lineEntries m ln srcUnit in
      case col of
        None \<Rightarrow>
          (let cols = remdups_adj (sort (map column es)) in
           if es = []
           then Inl (''source breakpoint not found at '' @ sourceBreakpointLocationText ln None srcUnit)
           else if length cols > 1
           then Inl (''ambiguous source breakpoint at line '' @ dec_nat (unat ln)
                     @ ''; specify column (matches: '' @ columnList cols @ '')'')
           else Inr [e \<leftarrow> instructionSourceMap m.
                       provenance e = ProvenanceCanonicalAst
                       \<and> sourceMapEntryMatchesSourceUnit e srcUnit
                       \<and> line e = ln \<and> column e = hd cols])
      | Some c \<Rightarrow>
          (let chosen = [e \<leftarrow> es. column e = c] in
           if chosen = []
           then Inl (''source breakpoint not found at '' @ sourceBreakpointLocationText ln col srcUnit)
           else Inr chosen))"

definition collectBreakpoints ::
  "IrModule \<Rightarrow> IrInstructionSourceMapEntry list \<Rightarrow> VmResolvedSourceBreakpoint list" where
  "collectBreakpoints m es =
     concat (map (\<lambda>(fi, f).
       concat (map (\<lambda>(ip, inst).
         (case sourceByDebugId es (debugId inst) of
            None \<Rightarrow> []
          | Some e \<Rightarrow>
              [\<lparr>rbFunctionIndex = fi, rbInstructionPointer = ip, rbDebugId = debugId inst,
                rbLine = line e, rbColumn = column e, rbProvenance = provenance e,
                rbSourceUnit = sourceUnit e\<rparr>]))
         (List.enumerate 0 (instructions f))))
       (List.enumerate 0 (mod_functions m)))"

text \<open>\<^verbatim>\<open>std::unique\<close>: the first of each run of equal neighbours.\<close>

function uniqueBy :: "('a \<Rightarrow> 'a \<Rightarrow> bool) \<Rightarrow> 'a list \<Rightarrow> 'a list" where
  "uniqueBy eq [] = []"
| "uniqueBy eq (x # xs) = x # uniqueBy eq (dropWhile (eq x) xs)"
  by pat_completeness auto
termination
  by (relation "measure (length \<circ> snd)") (auto simp: le_imp_less_Suc length_dropWhile_le)

definition resolveSourceBreakpoints ::
  "IrModule \<Rightarrow> u32 \<Rightarrow> u32 option \<Rightarrow> string option \<Rightarrow> VmResolvedSourceBreakpoint list result" where
  "resolveSourceBreakpoints m ln col srcUnit =
     (if ln = 0 then Inl ''invalid source breakpoint line''
      else
        rbind (breakpointEntries m ln col srcUnit)
          (\<lambda>es.
             let found = collectBreakpoints m es in
             if found = []
             then Inl (''source breakpoint has no executable instructions at ''
                       @ sourceBreakpointLocationText ln col srcUnit)
             else
               Inr (uniqueBy
                 (\<lambda>l r. rbFunctionIndex l = rbFunctionIndex r
                    \<and> rbInstructionPointer l = rbInstructionPointer r)
                 (sort_key (\<lambda>b. (rbFunctionIndex b, rbInstructionPointer b, unat (rbDebugId b))) found))))"

definition addSourceBreakpoint ::
  "u32 \<Rightarrow> u32 option \<Rightarrow> string option \<Rightarrow> 'w VmDebugSession \<Rightarrow> nat result \<times> 'w VmDebugSession" where
  "addSourceBreakpoint ln col srcUnit s =
     (case dbgModule s of
        None \<Rightarrow> (Inl ''debug session is not started'', s)
      | Some m \<Rightarrow>
          (case resolveSourceBreakpoints m ln col srcUnit of
             Inl e \<Rightarrow> (Inl e, s)
           | Inr resolved \<Rightarrow>
               (Inr (length resolved),
                fold (\<lambda>b s. s\<lparr>breakpoints :=
                        insert (rbFunctionIndex b, rbInstructionPointer b) (breakpoints s)\<rparr>)
                  resolved s)))"

end
