(* ===== verification/IrSamples.thy ===== *)
theory IrSamples
  imports Ir
begin

text \<open>Small concrete modules at which the theorems of the development are applied.\<close>

text \<open>\<open>main\<close> pushes 40, calls \<open>addTwo\<close>, which adds 2 to the value on the stack, and returns.\<close>

definition sampleInst :: "IrOpcode \<Rightarrow> u64 \<Rightarrow> IrInstruction" where
  "sampleInst opc i = \<lparr>op = opc, imm = i, debugId = 0\<rparr>"

lemma sampleInst_sel [simp]: "op (sampleInst opc i) = opc" "imm (sampleInst opc i) = i"
  "debugId (sampleInst opc i) = 0"
  by (simp_all add: sampleInst_def)

definition sampleFunction :: "string \<Rightarrow> IrInstruction list \<Rightarrow> IrFunction" where
  "sampleFunction nm code =
     \<lparr>fn_name = nm, metadata = \<lparr>effectMask = 0, capabilityMask = 0, schedulingScope = 0, instrumentationFlags = 0\<rparr>, parameterCount = 0,
      localDebugSlots = [], instructions = code\<rparr>"

lemma sampleFunction_sel [simp]: "instructions (sampleFunction nm code) = code"
  "fn_name (sampleFunction nm code) = nm"
  by (simp_all add: sampleFunction_def)

definition sampleModule :: IrModule where
  "sampleModule =
     \<lparr>schemaVersion = IrSchemaVersion,
      mod_functions =
        [sampleFunction ''main'' [sampleInst PushI32 40, sampleInst Call 1, sampleInst ReturnI32 0],
         sampleFunction ''addTwo'' [sampleInst PushI32 2, sampleInst AddI32 0, sampleInst ReturnI32 0]],
      entryIndex = 0, stringTable = [], structLayouts = [], instructionSourceMap = []\<rparr>"

lemma sampleModule_sel [simp]:
  "mod_functions sampleModule =
     [sampleFunction ''main'' [sampleInst PushI32 40, sampleInst Call 1, sampleInst ReturnI32 0],
      sampleFunction ''addTwo'' [sampleInst PushI32 2, sampleInst AddI32 0, sampleInst ReturnI32 0]]"
  "entry_in_range sampleModule" "entry_function sampleModule = 0"
  by (simp_all add: sampleModule_def entry_in_range_def entry_function_def)

end
