(* ===== verification/VmRuns.thy ===== *)
theory VmRuns
  imports VmKernel IrSamples "HOL-Library.Multiset"
begin

text \<open>
  What holds of whole runs of the execution kernel: the machine invariant in every reachable
  state, isolation of the frames below a call, the value a run exits with, the history of the
  heap, and termination of the modules whose jumps and calls only lead forward.
\<close>

section \<open>Runs\<close>

definition reachable :: "'w VmHost \<Rightarrow> IrModule \<Rightarrow> 'w VmWorld \<Rightarrow> 'w VmState \<Rightarrow> bool" where
  "reachable host m wd s \<longleftrightarrow> (kernelNext host m)\<^sup>*\<^sup>* (initialState m wd) s"

lemma reachable_vm_inv: "entry_in_range m \<Longrightarrow> reachable host m wd s \<Longrightarrow> vm_inv m s"
  using kernel.run_inv initialState_inv unfolding reachable_def by blast

lemma runSteps_outcome:
  "runSteps n host m s = Some r \<Longrightarrow> \<exists>t. (kernelNext host m)\<^sup>*\<^sup>* s t \<and> vmKernelStep host m t = r"
proof (induction n arbitrary: s)
  case (Suc n)
  show ?case
  proof (cases "vmKernelStep host m s")
    case (Running s')
    with Suc obtain t where "(kernelNext host m)\<^sup>*\<^sup>* s' t" "vmKernelStep host m t = r" by auto
    with Running show ?thesis
      by (metis converse_rtranclp_into_rtranclp kernelNext_def)
  qed (use Suc.prems in auto)
qed simp

lemma runSteps_not_running: "runSteps n host m s = Some r \<Longrightarrow> r \<noteq> Running t"
  by (induction n arbitrary: s) (auto split: VmStepResult.splits)

lemma step_exit_iff:
  "vmKernelStep host m s = Exited v s' \<longleftrightarrow>
     (\<exists>f stk. frames s = [f] \<and> frameIp f < length (instructions (mod_functions m ! functionIndex f))
        \<and> isReturnOpcode (op (instructions (mod_functions m ! functionIndex f) ! frameIp f))
        \<and> returnOperand (op (instructions (mod_functions m ! functionIndex f) ! frameIp f)) (opStack s)
            = Some (v, stk)
        \<and> s' = s\<lparr>opStack := stk\<rparr>)"
  (is "_ \<longleftrightarrow> ?R")
proof
  assume "vmKernelStep host m s = Exited v s'"
  then show ?R
    by (auto simp: vmKernelStep_def Let_def applyData_def length_Suc_conv dest!: CfExitD
        split: list.splits if_splits VmControlFlowOutcome.splits DataOutcome.splits)
next
  assume ?R
  then obtain f stk where "frames s = [f]"
    "frameIp f < length (instructions (mod_functions m ! functionIndex f))"
    "isReturnOpcode (op (instructions (mod_functions m ! functionIndex f) ! frameIp f))"
    "returnOperand (op (instructions (mod_functions m ! functionIndex f) ! frameIp f)) (opStack s)
       = Some (v, stk)" "s' = s\<lparr>opStack := stk\<rparr>"
    by blast
  moreover from this have "handleSharedVmControlFlowOpcode
      (instructions (mod_functions m ! functionIndex f) ! frameIp f) (opStack s)
      (length (instructions (mod_functions m ! functionIndex f))) (length (mod_functions m)) 1
      maxCallDepth (returnValueToCaller f) (frameIp f) = CfExit v (returnValueToCaller f) stk"
    by (simp add: CfExit_iff)
  ultimately show "vmKernelStep host m s = Exited v s'"
    by (simp add: vmKernelStep_def Let_def)
qed

section \<open>Frames below a call\<close>

definition deeper :: "'w VmHost \<Rightarrow> IrModule \<Rightarrow> nat \<Rightarrow> 'w VmState \<Rightarrow> 'w VmState \<Rightarrow> bool" where
  "deeper host m d s t \<longleftrightarrow> kernelNext host m s t \<and> d < length (frames t)"

text \<open>
  The frames a run above a caller leaves: some frames of its own, the outermost of them the
  callee's, on the untouched frames of the caller.
\<close>

definition aboveCaller :: "VmKernelFrame \<Rightarrow> VmKernelFrame list \<Rightarrow> VmKernelFrame list \<Rightarrow> bool" where
  "aboveCaller callee rest fs \<longleftrightarrow>
     (\<exists>own base. fs = own @ base # rest \<and> functionIndex base = functionIndex callee
        \<and> returnValueToCaller base = returnValueToCaller callee)"

lemma aboveCaller_update:
  assumes "aboveCaller callee rest (f # fs)"
    and "functionIndex f' = functionIndex f" "returnValueToCaller f' = returnValueToCaller f"
  shows "aboveCaller callee rest (f' # fs)"
proof -
  from assms(1) obtain own base where o: "f # fs = own @ base # rest"
    "functionIndex base = functionIndex callee"
    "returnValueToCaller base = returnValueToCaller callee"
    by (auto simp: aboveCaller_def)
  show ?thesis
  proof (cases own)
    case Nil
    with o assms show ?thesis unfolding aboveCaller_def by (intro exI [of _ "[]"]) auto
  next
    case (Cons x own')
    with o show ?thesis unfolding aboveCaller_def by (intro exI [of _ "f' # own'"]) auto
  qed
qed

lemma aboveCaller_push: "aboveCaller callee rest fs \<Longrightarrow> aboveCaller callee rest (f # fs)"
  unfolding aboveCaller_def by (metis append_Cons)

lemma aboveCaller_pop:
  assumes "aboveCaller callee rest (f # fs)"
  shows "(aboveCaller callee rest fs \<and> length rest < length fs)
    \<or> (fs = rest \<and> functionIndex f = functionIndex callee
       \<and> returnValueToCaller f = returnValueToCaller callee)"
proof -
  from assms obtain own base where o: "f # fs = own @ base # rest"
    "functionIndex base = functionIndex callee"
    "returnValueToCaller base = returnValueToCaller callee"
    by (auto simp: aboveCaller_def)
  then show ?thesis by (cases own) (auto simp: aboveCaller_def)
qed

lemma aboveCaller_longer: "aboveCaller callee rest fs \<Longrightarrow> length rest < length fs"
  by (auto simp: aboveCaller_def)

lemma kernelNext_aboveCaller:
  assumes "kernelNext host m s t" and above: "aboveCaller callee rest (frames s)"
  shows "if length rest < length (frames t) then aboveCaller callee rest (frames t)
         else \<exists>f v stk. frames s = f # rest \<and> frames t = rest
           \<and> functionIndex f = functionIndex callee
           \<and> returnOperand (op (instructions (mod_functions m ! functionIndex f) ! frameIp f))
                (opStack s) = Some (v, stk)
           \<and> opStack t = (if returnValueToCaller callee then v # stk else stk)"
  using assms(1)
proof (cases rule: kernelNext_cases)
  case (jump f fs stk ip)
  then show ?thesis using above aboveCaller_update [of callee rest f fs] aboveCaller_longer [OF above] by simp
next
  case (call f fs t' ret)
  then show ?thesis
    using above aboveCaller_push [OF aboveCaller_update [of callee rest f fs]] aboveCaller_longer [OF above]
    by simp
next
  case (ret f fs v stk)
  then show ?thesis using above aboveCaller_pop [of callee rest f fs] by auto
next
  case (data f fs stk locals h wd)
  then show ?thesis using above aboveCaller_update [of callee rest f fs] aboveCaller_longer [OF above] by simp
qed

lemma deeper_aboveCaller:
  assumes "(deeper host m (length rest))\<^sup>*\<^sup>* s t" and "aboveCaller callee rest (frames s)"
  shows "aboveCaller callee rest (frames t)"
  using assms
proof (induction rule: rtranclp_induct)
  case (step y z)
  then show ?case using kernelNext_aboveCaller [of host m y z callee rest] by (auto simp: deeper_def)
qed

section \<open>The loop and reachable states\<close>

lemma loop_reach: "(kernelNext host m)\<^sup>*\<^sup>* s t \<Longrightarrow> vmKernelLoop host m s = vmKernelLoop host m t"
proof (induction rule: converse_rtranclp_induct)
  case (step y z)
  then show ?case by (subst vmKernelLoop.simps) (simp add: kernelNext_def)
qed simp

lemma loop_Some_iff:
  assumes "\<And>t. r \<noteq> Running t"
  shows "vmKernelLoop host m s = Some r \<longleftrightarrow>
    (\<exists>t. (kernelNext host m)\<^sup>*\<^sup>* s t \<and> vmKernelStep host m t = r)"
proof
  assume "vmKernelLoop host m s = Some r"
  then show "\<exists>t. (kernelNext host m)\<^sup>*\<^sup>* s t \<and> vmKernelStep host m t = r"
    using loop_runSteps runSteps_outcome by blast
next
  assume "\<exists>t. (kernelNext host m)\<^sup>*\<^sup>* s t \<and> vmKernelStep host m t = r"
  then obtain t where t: "(kernelNext host m)\<^sup>*\<^sup>* s t" "vmKernelStep host m t = r" by blast
  from t(2) assms have "vmKernelLoop host m t = Some r"
    by (subst vmKernelLoop.simps) (auto split: VmStepResult.splits)
  with loop_reach [OF t(1)] show "vmKernelLoop host m s = Some r" by simp
qed

lemma executeVmKernel_Some_iff:
  assumes "\<And>t. r \<noteq> Running t" and "entry_in_range m"
  shows "executeVmKernel host m wd = Some r \<longleftrightarrow>
    (\<exists>t. reachable host m wd t \<and> vmKernelStep host m t = r)"
  using loop_Some_iff [OF assms(1), where s = "initialState m wd"] assms(2)
  by (simp add: executeVmKernel_def reachable_def)

lemma reachable_entry_frame:
  assumes "entry_in_range m" and "reachable host m wd t"
  shows "\<exists>own base. frames t = own @ [base] \<and> functionIndex base = entry_function m
    \<and> \<not> returnValueToCaller base"
proof -
  let ?e = "newFrame m (entry_function m) False"
  have "aboveCaller ?e [] (frames t)"
    using assms(2) unfolding reachable_def
  proof (induction rule: rtranclp_induct)
    case base
    show ?case unfolding aboveCaller_def
      by (rule exI [of _ "[]"]) (simp add: initialState_def)
  next
    case (step y z)
    have "vm_inv m z"
      using step.hyps by (intro reachable_vm_inv [OF assms(1), of host wd]) (simp add: reachable_def)
    then have "frames z \<noteq> []" by (simp add: vm_inv_def)
    then show ?case using kernelNext_aboveCaller [OF step.hyps(2) step.IH] by simp
  qed
  then show ?thesis by (auto simp: aboveCaller_def newFrame_def)
qed

section \<open>The heap along a run\<close>

lemma kernelNext_heap:
  assumes "kernelNext host m s t"
  shows "vmHeap t = vmHeap s \<or> heapStep (maxSlots host) (vmHeap s) (vmHeap t)"
  using assms by (cases rule: kernelNext_cases) auto

lemma run_heap: "(kernelNext host m)\<^sup>*\<^sup>* s t \<Longrightarrow> (heapStep (maxSlots host))\<^sup>*\<^sup>* (vmHeap s) (vmHeap t)"
proof (induction rule: rtranclp_induct)
  case (step y z)
  then show ?case using kernelNext_heap [OF step.hyps(2)] by (auto intro: rtranclp.rtrancl_into_rtrancl)
qed simp

section \<open>Modules that only lead forward\<close>

definition forwardModule :: "IrModule \<Rightarrow> bool" where
  "forwardModule m \<longleftrightarrow>
     (\<forall>fi < length (mod_functions m). \<forall>ip < length (instructions (mod_functions m ! fi)).
        (isJumpOpcode (op (instructions (mod_functions m ! fi) ! ip)) \<longrightarrow>
           ip < unat (imm (instructions (mod_functions m ! fi) ! ip)))
        \<and> (isCallOpcode (op (instructions (mod_functions m ! fi) ! ip)) \<longrightarrow>
           fi < unat (imm (instructions (mod_functions m ! fi) ! ip))))"

definition frameRank :: "IrModule \<Rightarrow> VmKernelFrame \<Rightarrow> nat \<times> nat" where
  "frameRank m f =
     (length (mod_functions m) - functionIndex f,
      length (instructions (mod_functions m ! functionIndex f)) - frameIp f)"

definition runRank :: "IrModule \<Rightarrow> 'w VmState \<Rightarrow> (nat \<times> nat) multiset" where
  "runRank m s = image_mset (frameRank m) (mset (frames s))"

definition rankOrder :: "(nat \<times> nat) multiset rel" where
  "rankOrder = mult (less_than <*lex*> less_than)"

lemma wf_rankOrder: "wf rankOrder"
  unfolding rankOrder_def by (intro wf_mult wf_lex_prod wf_less_than)

lemma rank_replace:
  assumes "frames s = f # fs" and "frames t = xs @ fs"
    and "\<And>x. x \<in> set xs \<Longrightarrow> (frameRank m x, frameRank m f) \<in> less_than <*lex*> less_than"
  shows "(runRank m t, runRank m s) \<in> rankOrder"
proof -
  have "(image_mset (frameRank m) (mset fs) + image_mset (frameRank m) (mset xs),
      image_mset (frameRank m) (mset fs) + {#frameRank m f#}) \<in> rankOrder"
    unfolding rankOrder_def by (rule one_step_implies_mult) (use assms(3) in auto)
  then show ?thesis by (simp add: runRank_def assms(1,2) add.commute)
qed

lemma kernelNext_rank:
  assumes fwd: "forwardModule m" and inv: "vm_inv m s" and "kernelNext host m s t"
  shows "(runRank m t, runRank m s) \<in> rankOrder"
  using assms(3)
proof (cases rule: kernelNext_cases)
  case (jump f fs stk ip)
  have "functionIndex f < length (mod_functions m)"
    using inv jump(1) by (simp add: vm_inv_def frame_ok_def)
  then have "frameIp f < ip" using fwd jump(2,4,5) by (auto simp: forwardModule_def)
  then show ?thesis
    using jump by (intro rank_replace [OF jump(1), of _ "[f\<lparr>frameIp := ip\<rparr>]"]) (auto simp: frameRank_def)
next
  case (call f fs t' ret)
  have f: "functionIndex f < length (mod_functions m)"
    using inv call(1) by (simp add: vm_inv_def frame_ok_def)
  then have "functionIndex f < t'" using fwd call(4,5,6) by (auto simp: forwardModule_def)
  then show ?thesis
    using call(4,8) f
    by (intro rank_replace [OF call(1), of _ "[newFrame m t' ret, f\<lparr>frameIp := frameIp f + 1\<rparr>]"])
      (auto simp: frameRank_def newFrame_def)
next
  case (ret f fs v stk)
  then show ?thesis by (intro rank_replace [OF ret(1), of _ "[]"]) auto
next
  case (data f fs stk locals h wd)
  then show ?thesis
    by (intro rank_replace
        [OF data(1), of _ "[f\<lparr>frameLocals := locals, frameIp := frameIp f + 1\<rparr>]"])
      (auto simp: frameRank_def)
qed

lemma forward_loop_returns:
  assumes "forwardModule m" and "vm_inv m s"
  shows "\<exists>r. vmKernelLoop host m s = Some r"
  using assms(2)
proof (induction "runRank m s" arbitrary: s rule: wf_induct_rule [OF wf_rankOrder])
  case 1
  show ?case
  proof (cases "vmKernelStep host m s")
    case (Running s')
    then have n: "kernelNext host m s s'" by (simp add: kernelNext_def)
    have "\<exists>r. vmKernelLoop host m s' = Some r"
      using "1.hyps" kernelNext_rank [OF assms(1) "1.prems" n] kernelNext_inv [OF "1.prems" n] by blast
    then show ?thesis by (subst vmKernelLoop.simps) (simp add: Running)
  qed (subst vmKernelLoop.simps, simp)+
qed

lemma step_run:
  "vmKernelStep host m s = Running s' \<Longrightarrow> (kernelNext host m)\<^sup>*\<^sup>* s' t \<Longrightarrow> (kernelNext host m)\<^sup>*\<^sup>* s t"
  by (simp add: converse_rtranclp_into_rtranclp kernelNext_def)

section \<open>The sample run\<close>

lemma sample_locals [simp]:
  "computeVmKernelLocalCount (sampleFunction nm [sampleInst PushI32 a, sampleInst Call b, sampleInst ReturnI32 c]) = 0"
  "computeVmKernelLocalCount (sampleFunction nm [sampleInst PushI32 a, sampleInst AddI32 b, sampleInst ReturnI32 c]) = 0"
  by (simp_all add: computeVmKernelLocalCount_def isLocalOpcode_def)

definition sampleFrame :: "nat \<Rightarrow> nat \<Rightarrow> bool \<Rightarrow> VmKernelFrame" where
  "sampleFrame fi ip ret =
     \<lparr>functionIndex = fi, frameLocals = [], frameIp = ip, returnValueToCaller = ret\<rparr>"

definition sampleState :: "u64 list \<Rightarrow> VmKernelFrame list \<Rightarrow> 'w VmWorld \<Rightarrow> 'w VmState" where
  "sampleState stk fs wd = \<lparr>opStack = stk, frames = fs, vmHeap = emptyHeap, world = wd\<rparr>"

lemmas step_defs =
  vmKernelStep_def Let_def handleSharedVmControlFlowOpcode_def cfLeave_def applyData_def
  kernelData_def isPushLocalOpcode_def isMemoryOpcode_def isStackStringOpcode_def
  kernelPushLocal_def kernelMemory_def kernelStackString_def kernelDefault_def
  isPureNumericOpcode_def handleVmNumericOpcode_def executePureNumericOpcode_def orElse_def
  newFrame_def

lemma sample_run:
  fixes host :: "'w VmHost"
  shows
  "initialState sampleModule wd = sampleState [] [sampleFrame 0 0 False] wd"
  "vmKernelStep host sampleModule (sampleState [] [sampleFrame 0 0 False] wd)
     = Running (sampleState [40] [sampleFrame 0 1 False] wd)"
  "vmKernelStep host sampleModule (sampleState [40] [sampleFrame 0 1 False] wd)
     = Running (sampleState [40] [sampleFrame 1 0 True, sampleFrame 0 2 False] wd)"
  "vmKernelStep host sampleModule (sampleState [40] [sampleFrame 1 0 True, sampleFrame 0 2 False] wd)
     = Running (sampleState [2, 40] [sampleFrame 1 1 True, sampleFrame 0 2 False] wd)"
  "vmKernelStep host sampleModule (sampleState [2, 40] [sampleFrame 1 1 True, sampleFrame 0 2 False] wd)
     = Running (sampleState [42] [sampleFrame 1 2 True, sampleFrame 0 2 False] wd)"
  "vmKernelStep host sampleModule (sampleState [42] [sampleFrame 1 2 True, sampleFrame 0 2 False] wd)
     = Running (sampleState [42] [sampleFrame 0 2 False] wd)"
  "vmKernelStep host sampleModule (sampleState [42] [sampleFrame 0 2 False] wd)
     = Exited 42 (sampleState [] [sampleFrame 0 2 False] wd)"
  by (simp_all add: initialState_def sampleState_def sampleFrame_def step_defs execIntArith_def
      pop2_def sext32_def maxCallDepth_def)

text \<open>\<open>main\<close> allocates a block, frees it and allocates another.\<close>

definition danglingCode :: "IrInstruction list" where
  "danglingCode = [sampleInst PushI64 1, sampleInst HeapAlloc 0, sampleInst HeapFree 0,
     sampleInst PushI64 1, sampleInst HeapAlloc 0, sampleInst ReturnI64 0]"

definition danglingModule :: IrModule where
  "danglingModule = sampleModule\<lparr>mod_functions := [sampleFunction ''main'' danglingCode]\<rparr>"

lemma danglingModule_sel [simp]:
  "mod_functions danglingModule = [sampleFunction ''main'' danglingCode]"
  "entry_in_range danglingModule" "entry_function danglingModule = 0"
  by (simp_all add: danglingModule_def sampleModule_def entry_in_range_def entry_function_def)

definition heapState :: "u64 list \<Rightarrow> nat \<Rightarrow> u64 list \<Rightarrow> HeapAllocation list \<Rightarrow> 'w VmWorld
    \<Rightarrow> 'w VmState" where
  "heapState stk ip slots allocs wd =
     \<lparr>opStack = stk, frames = [sampleFrame 0 ip False],
      vmHeap = \<lparr>heapSlots = slots, heapAllocations = allocs\<rparr>, world = wd\<rparr>"

lemma tag_index [simp]: "kVmHeapAddressTag mod IrSlotBytes = 0" "heapIndexOf IrSlotBytes kVmHeapAddressTag = 0"
  "isVmHeapAddress kVmHeapAddressTag" "kVmHeapAddressTag \<noteq> 0"
  using heapAddress_facts [of 0] by (simp_all add: heapAddress_def)

lemma dangling_run:
  fixes host :: "'w VmHost"
  defines "h \<equiv> host\<lparr>maxSlots := 8\<rparr>"
  shows
  "initialState danglingModule wd = heapState [] 0 [] [] wd"
  "vmKernelStep h danglingModule (heapState [] 0 [] [] wd) = Running (heapState [1] 1 [] [] wd)"
  "vmKernelStep h danglingModule (heapState [1] 1 [] [] wd) =
     Running (heapState [kVmHeapAddressTag] 2 [0] [\<lparr>baseIndex = 0, slotCount = 1, live = True\<rparr>] wd)"
  "vmKernelStep h danglingModule
       (heapState [kVmHeapAddressTag] 2 [0] [\<lparr>baseIndex = 0, slotCount = 1, live = True\<rparr>] wd) =
     Running (heapState [] 3 [0] [\<lparr>baseIndex = 0, slotCount = 1, live = False\<rparr>] wd)"
  "vmKernelStep h danglingModule
       (heapState [] 3 [0] [\<lparr>baseIndex = 0, slotCount = 1, live = False\<rparr>] wd) =
     Running (heapState [1] 4 [0] [\<lparr>baseIndex = 0, slotCount = 1, live = False\<rparr>] wd)"
  "vmKernelStep h danglingModule
       (heapState [1] 4 [0] [\<lparr>baseIndex = 0, slotCount = 1, live = False\<rparr>] wd) =
     Running (heapState [kVmHeapAddressTag + 16] 5 [0, 0]
      [\<lparr>baseIndex = 0, slotCount = 1, live = False\<rparr>, \<lparr>baseIndex = 1, slotCount = 1, live = True\<rparr>] wd)"
  unfolding h_def
  by (simp_all add: initialState_def heapState_def sampleFrame_def step_defs danglingCode_def
      emptyHeap_def computeVmKernelLocalCount_def isLocalOpcode_def allocateVmHeapSlots_def
      freeVmHeapSlots_def fill_range_def maxAddressableIndex)
    (simp_all add: IrSlotBytes_def)

section \<open>Properties\<close>

text \<open>
  C3: in every state a run reaches, the call stack is between 1 and 4096 frames deep, every
  frame names a function of the module and has as many locals as that function needs, its
  instruction pointer is inside the function's code or right behind it, and the heap is
  well formed.
\<close>

theorem kernel_reachable_invariant:
  assumes "entry_in_range m" and "reachable host m wd s"
  shows "1 \<le> length (frames s) \<and> length (frames s) \<le> 4096 \<and> heap_inv (vmHeap s)
    \<and> (\<forall>f \<in> set (frames s).
         functionIndex f < length (mod_functions m)
         \<and> length (frameLocals f) = computeVmKernelLocalCount (mod_functions m ! functionIndex f)
         \<and> frameIp f \<le> length (instructions (mod_functions m ! functionIndex f)))"
proof -
  have "vm_inv m s" by (rule reachable_vm_inv [OF assms])
  then show ?thesis
    by (cases "frames s") (simp_all add: vm_inv_def frame_ok_def maxCallDepth_def)
qed

lemma sample_reachable:
  "reachable host sampleModule wd (sampleState [40] [sampleFrame 1 0 True, sampleFrame 0 2 False] wd)"
  unfolding reachable_def sample_run(1)
  by (rule step_run [OF sample_run(2)], rule step_run [OF sample_run(3)], rule rtranclp.rtrancl_refl)

theorem kernel_reachable_invariant_witness:
  "\<forall>(host :: unit VmHost) wd. \<exists>s. reachable host sampleModule wd s \<and> length (frames s) = 2
     \<and> length (frames s) \<le> 4096"
proof (intro allI)
  fix host :: "unit VmHost" and wd :: "unit VmWorld"
  show "\<exists>s. reachable host sampleModule wd s \<and> length (frames s) = 2 \<and> length (frames s) \<le> 4096"
    using kernel_reachable_invariant [OF sampleModule_sel(2) sample_reachable [of host wd]]
      sample_reachable [of host wd]
    by (intro exI conjI) (auto simp: sampleState_def)
qed

text \<open>
  C7: a run of the module exits with \<open>v\<close> exactly when it reaches a state in which only the
  frame of the entry function is left and stands at a return instruction, and then \<open>v\<close> is what
  that instruction delivers: zero for \<open>ReturnVoid\<close>, else the top of the stack, sign extended
  from 32 bits for \<open>ReturnI32\<close> and zero extended for \<open>ReturnF32\<close>.
\<close>

theorem kernel_exit_iff:
  "executeVmKernel host m wd = Some (Exited v s') \<longleftrightarrow>
     entry_in_range m \<and>
     (\<exists>s f stk. reachable host m wd s \<and> frames s = [f] \<and> functionIndex f = entry_function m
        \<and> frameIp f < length (instructions (mod_functions m ! entry_function m))
        \<and> isReturnOpcode (op (instructions (mod_functions m ! entry_function m) ! frameIp f))
        \<and> returnOperand (op (instructions (mod_functions m ! entry_function m) ! frameIp f)) (opStack s)
            = Some (v, stk)
        \<and> s' = s\<lparr>opStack := stk\<rparr>)"
proof (cases "entry_in_range m")
  case True
  have e: "functionIndex f = entry_function m" if "reachable host m wd s" "frames s = [f]" for s f
    using reachable_entry_frame [OF True that(1)] that(2) by (auto simp: append_eq_Cons_conv)
  have "executeVmKernel host m wd = Some (Exited v s') \<longleftrightarrow>
      (\<exists>s. reachable host m wd s \<and> vmKernelStep host m s = Exited v s')"
    by (rule executeVmKernel_Some_iff) (simp_all add: True)
  then show ?thesis
    unfolding step_exit_iff using e True by metis
qed (simp add: executeVmKernel_def)



text \<open>
  C5: dangling addresses stay dangling. Once a heap address inside the allocated range does
  not resolve in a reachable state, no continuation of the run, whatever it allocates, frees or
  stores, makes it resolve again.
\<close>

theorem kernel_dangling_forever:
  assumes "entry_in_range m" and "reachable host m wd s"
    and "isVmHeapAddress a" and "heapIndexOf IrSlotBytes a < length (heapSlots (vmHeap s))"
    and "resolveIndirectAddress a IrSlotBytes locals (vmHeap s) = Inl e"
    and "(kernelNext host m)\<^sup>*\<^sup>* s t"
  shows "\<exists>e'. resolveIndirectAddress a IrSlotBytes locals' (vmHeap t) = Inl e'"
proof -
  have inv: "heap_inv (vmHeap s)"
    using reachable_vm_inv [OF assms(1,2)] by (simp add: vm_inv_def)
  note run = run_heap [OF assms(6)]
  have inv': "heap_inv (vmHeap t)" by (rule vm_heap.run_inv [OF run inv])
  show ?thesis
  proof (cases "a mod IrSlotBytes = 0")
    case True
    then have "\<not> liveSlot (vmHeap s) (heapIndexOf IrSlotBytes a)"
      using assms(3,5) by (auto simp: resolve_eq [OF inv] split: if_splits)
    from vm_heap.never_revived [OF run inv assms(4) this]
    show ?thesis using assms(3) by (simp add: resolve_eq [OF inv'])
  qed (simp add: resolve_eq [OF inv'])
qed

theorem kernel_dangling_forever_witness:
  "\<forall>(host :: unit VmHost) wd. \<exists>s t. reachable (host\<lparr>maxSlots := 8\<rparr>) danglingModule wd s
     \<and> (kernelNext (host\<lparr>maxSlots := 8\<rparr>) danglingModule)\<^sup>*\<^sup>* s t \<and> length (heapSlots (vmHeap t)) = 2
     \<and> (\<exists>e'. resolveIndirectAddress kVmHeapAddressTag IrSlotBytes [] (vmHeap t) = Inl e')"
proof (intro allI)
  fix host :: "unit VmHost" and wd :: "unit VmWorld"
  let ?h = "host\<lparr>maxSlots := 8\<rparr>"
  let ?s = "heapState [] 3 [0] [\<lparr>baseIndex = 0, slotCount = 1, live = False\<rparr>] wd"
  let ?t = "heapState [kVmHeapAddressTag + 16] 5 [0, 0]
      [\<lparr>baseIndex = 0, slotCount = 1, live = False\<rparr>, \<lparr>baseIndex = 1, slotCount = 1, live = True\<rparr>] wd"
  have s: "reachable ?h danglingModule wd ?s"
    unfolding reachable_def dangling_run(1)
    by (rule step_run [OF dangling_run(2)], rule step_run [OF dangling_run(3)],
        rule step_run [OF dangling_run(4)], rule rtranclp.rtrancl_refl)
  have t: "(kernelNext ?h danglingModule)\<^sup>*\<^sup>* ?s ?t"
    by (rule step_run [OF dangling_run(5)], rule step_run [OF dangling_run(6)],
        rule rtranclp.rtrancl_refl)
  have tag: "isVmHeapAddress kVmHeapAddressTag" "heapIndexOf IrSlotBytes kVmHeapAddressTag = 0"
    "kVmHeapAddressTag mod IrSlotBytes = 0"
    using heapAddress_facts [of 0] by (simp_all add: heapAddress_def)
  have bad: "resolveIndirectAddress kVmHeapAddressTag IrSlotBytes [] (vmHeap ?s) =
      Inl (''invalid indirect address in IR: '' @ dec_nat (unat kVmHeapAddressTag))"
    using tag by (simp add: resolveIndirectAddress_def heapState_def)
  have "heapIndexOf IrSlotBytes kVmHeapAddressTag < length (heapSlots (vmHeap ?s))"
    using tag by (simp add: heapState_def)
  from kernel_dangling_forever [OF _ s tag(1) this bad t]
  show "\<exists>s t. reachable ?h danglingModule wd s \<and> (kernelNext ?h danglingModule)\<^sup>*\<^sup>* s t
      \<and> length (heapSlots (vmHeap t)) = 2
      \<and> (\<exists>e'. resolveIndirectAddress kVmHeapAddressTag IrSlotBytes [] (vmHeap t) = Inl e')"
    using s t by (intro exI [of _ ?s] exI [of _ ?t]) (simp add: heapState_def)
qed

text \<open>
  C8: a module whose jumps lead forward in their function and whose calls lead to later
  functions returns on every input: the interpreter loop ends, with an exit value or a fault.
\<close>

theorem forward_module_returns:
  assumes "forwardModule m"
  shows "\<exists>r. executeVmKernel host m wd = Some r \<and> (\<forall>t. r \<noteq> Running t)"
proof (cases "entry_in_range m")
  case True
  from forward_loop_returns [OF assms initialState_inv [OF True]]
  obtain r where r: "vmKernelLoop host m (initialState m wd) = Some r" by blast
  with loop_runSteps obtain n where "runSteps n host m (initialState m wd) = Some r" by blast
  from runSteps_not_running [OF this] show ?thesis using r True by (simp add: executeVmKernel_def)
qed (simp add: executeVmKernel_def)

theorem forward_module_returns_witness:
  "\<forall>(host :: unit VmHost) wd. \<exists>r. executeVmKernel host sampleModule wd = Some r \<and> (\<forall>t. r \<noteq> Running t)"
proof -
  have "forwardModule sampleModule"
    by (auto simp: forwardModule_def less_Suc_eq isJumpOpcode_def isCallOpcode_def)
  from forward_module_returns [OF this] show ?thesis by blast
qed

end
