(* ===== verification/VmDebugFacts.thy ===== *)
theory VmDebugFacts
  imports VmDebug VmRuns
begin

text \<open>
  What the debug session promises: each of its instruction steps is the kernel's step on the
  machine state it holds, so that every session, whatever its commands, follows the run the
  execution kernel would make of the module, and ends as that run ends.
\<close>

section \<open>The two switches agree\<close>

lemma vmDebugLocalCount_eq: "vmDebugLocalCount f = computeVmKernelLocalCount f"
  by (simp add: vmDebugLocalCount_def computeVmKernelLocalCount_def isLocalOpcode_def)

lemma debugPushLocal_eq:
  "debugPushLocal (argumentCount host) inst stk locals h wd = kernelPushLocal host inst stk locals h wd"
  by (cases stk) (simp_all add: debugPushLocal_def kernelPushLocal_def)

lemma debugMemory_eq:
  "debugMemory (maxSlots host) inst stk locals h wd = kernelMemory host inst stk locals h wd"
proof -
  consider "stk = []" | v where "stk = [v]" | v a rest where "stk = v # a # rest"
    by (cases stk; cases "tl stk") auto
  then show ?thesis
    by cases (simp_all add: debugMemory_def kernelMemory_def cong: sum.case_cong)
qed

lemma debugStack_eq:
  "orElseData (debugStack inst stk locals h wd) (debugString m inst stk locals h wd)
     = kernelStackString m inst stk locals h wd"
  by (cases stk) (simp_all add: debugStack_def debugString_def kernelStackString_def orElseData_def Let_def)

lemma kernelPushLocal_unknown: "\<not> isPushLocalOpcode (op inst) \<Longrightarrow> kernelPushLocal host inst stk locals h wd = DataUnknown"
  by (simp add: kernelPushLocal_def isPushLocalOpcode_def)

lemma kernelMemory_unknown: "\<not> isMemoryOpcode (op inst) \<Longrightarrow> kernelMemory host inst stk locals h wd = DataUnknown"
  by (simp add: kernelMemory_def isMemoryOpcode_def)

lemma kernelPushLocal_known: "isPushLocalOpcode (op inst) \<Longrightarrow> kernelPushLocal host inst stk locals h wd \<noteq> DataUnknown"
  by (auto simp: kernelPushLocal_def isPushLocalOpcode_def split: list.splits)

lemma kernelMemory_known: "isMemoryOpcode (op inst) \<Longrightarrow> kernelMemory host inst stk locals h wd \<noteq> DataUnknown"
  by (auto simp: kernelMemory_def isMemoryOpcode_def split: list.splits sum.splits prod.splits)

lemma debugStack_unknown:
  "op inst \<noteq> Dup \<Longrightarrow> op inst \<noteq> Pop \<Longrightarrow> debugStack inst stk locals h wd = DataUnknown"
  by (simp add: debugStack_def)

lemma debugString_unknown:
  "op inst \<noteq> LoadStringByte \<Longrightarrow> op inst \<noteq> LoadStringLength \<Longrightarrow> debugString m inst stk locals h wd = DataUnknown"
  by (simp add: debugString_def)

lemma debugIo_unknown:
  "\<not> isVmKernelPrintOpcode (op inst) \<Longrightarrow> \<not> isVmKernelFileOpcode (op inst) \<Longrightarrow>
     debugIo sys args m inst stk locals h wd = DataUnknown"
  by (simp add: debugIo_def isVmKernelPrintOpcode_def isVmKernelFileOpcode_def)

lemma debugIo_print:
  "isVmKernelPrintOpcode (op inst) \<Longrightarrow>
     debugIo sys args m inst stk locals h wd =
       (case handlePrintOpcode m inst stk args wd of
          Inl (e, stk') \<Rightarrow> DataFault e stk'
        | Inr (stk', wd') \<Rightarrow> DataNext stk' locals h wd')"
  by (simp add: debugIo_def isVmKernelPrintOpcode_def)

lemma debugIo_file:
  "isVmKernelFileOpcode (op inst) \<Longrightarrow> \<not> isVmKernelPrintOpcode (op inst) \<Longrightarrow>
     debugIo sys args m inst stk locals h wd =
       (case handleFileOpcode sys m inst stk locals wd of
          Inl (e, stk') \<Rightarrow> DataFault e stk'
        | Inr (stk', locals', wd') \<Rightarrow> DataNext stk' locals' h wd')"
  by (simp add: debugIo_def isVmKernelFileOpcode_def isVmKernelPrintOpcode_def)

lemma orElseData_unknown [simp]: "orElseData DataUnknown b = b"
  by (simp add: orElseData_def)

lemma orElseData_known: "a \<noteq> DataUnknown \<Longrightarrow> orElseData a b = a"
  by (cases a) (simp_all add: orElseData_def)

lemma orElseData_assoc: "orElseData (orElseData a b) c = orElseData a (orElseData b c)"
  by (cases a) (simp_all add: orElseData_def)

lemma kernelStackString_known:
  "isStackStringOpcode (op inst) \<Longrightarrow> kernelStackString m inst stk locals h wd \<noteq> DataUnknown"
  by (auto simp: kernelStackString_def isStackStringOpcode_def Let_def split: list.splits)

lemma stackString_not_io:
  "isStackStringOpcode opc \<Longrightarrow> \<not> isVmKernelPrintOpcode opc \<and> \<not> isVmKernelFileOpcode opc"
  by (auto simp: isStackStringOpcode_def isVmKernelPrintOpcode_def isVmKernelFileOpcode_def)

lemma print_not_file: "isVmKernelPrintOpcode opc \<Longrightarrow> \<not> isVmKernelFileOpcode opc"
  by (auto simp: isVmKernelPrintOpcode_def isVmKernelFileOpcode_def)

definition sessionHost :: "'w VmHost \<Rightarrow> 'w VmDebugSession \<Rightarrow> 'w VmHost" where
  "sessionHost host s = host\<lparr>argumentCount := dbgArgCount s, hostArgs := dbgArgs s\<rparr>"

lemma debugDefault_eq:
  assumes "\<not> isPureNumericOpcode (op inst)" "\<not> isStackStringOpcode (op inst)"
  shows "orElseData (debugStack inst stk locals h wd)
      (orElseData (debugIo (hostSys host) (hostArgs host) m inst stk locals h wd)
        (orElseData (debugString m inst stk locals h wd) (DataFault ''unknown IR opcode'' stk)))
    = kernelDefault host m inst stk locals h wd"
proof -
  have stk: "debugStack inst stk locals h wd = DataUnknown" "debugString m inst stk locals h wd = DataUnknown"
    using assms(2) by (simp_all add: isStackStringOpcode_def debugStack_unknown debugString_unknown)
  consider (prn) "isVmKernelPrintOpcode (op inst)"
    | (fil) "\<not> isVmKernelPrintOpcode (op inst)" "isVmKernelFileOpcode (op inst)"
    | (other) "\<not> isVmKernelPrintOpcode (op inst)" "\<not> isVmKernelFileOpcode (op inst)" by blast
  then show ?thesis
  proof cases
    case prn
    then show ?thesis
      using stk assms(1)
      by (simp add: kernelDefault_def debugIo_print orElseData_def split: sum.splits prod.splits)
  next
    case fil
    then show ?thesis
      using stk assms(1)
      by (simp add: kernelDefault_def debugIo_file orElseData_def split: sum.splits prod.splits)
  next
    case other
    then show ?thesis using stk assms(1) by (simp add: kernelDefault_def debugIo_unknown)
  qed
qed

lemma debugSwitch_eq:
  assumes "\<not> isPureNumericOpcode (op inst)"
  shows "debugSwitch host m inst s locals =
    kernelData (sessionHost host s) m inst (dbgStack s) locals (dbgHeap s) (dbgWorld s)"
proof -
  let ?h = "sessionHost host s"
  have pushEq: "debugPushLocal (dbgArgCount s) inst stk locals h wd = kernelPushLocal ?h inst stk locals h wd"
    for stk h wd
    using debugPushLocal_eq [of ?h] by (simp add: sessionHost_def)
  have memEq: "debugMemory (maxSlots host) inst stk locals h wd = kernelMemory ?h inst stk locals h wd"
    for stk h wd
    using debugMemory_eq [of ?h] by (simp add: sessionHost_def)
  consider (push) "isPushLocalOpcode (op inst)"
    | (mem) "\<not> isPushLocalOpcode (op inst)" "isMemoryOpcode (op inst)"
    | (stk) "\<not> isPushLocalOpcode (op inst)" "\<not> isMemoryOpcode (op inst)" "isStackStringOpcode (op inst)"
    | (other) "\<not> isPushLocalOpcode (op inst)" "\<not> isMemoryOpcode (op inst)" "\<not> isStackStringOpcode (op inst)"
    by blast
  then show ?thesis
  proof cases
    case push
    then show ?thesis
      by (simp add: debugSwitch_def pushEq kernelData_def
          orElseData_known kernelPushLocal_known)
  next
    case mem
    then show ?thesis
      by (simp add: debugSwitch_def pushEq
          memEq kernelData_def kernelPushLocal_unknown
          orElseData_known kernelMemory_known)
  next
    case stk
    have "orElseData (debugStack inst stk locals h wd)
        (orElseData (debugString m inst stk locals h wd) c) = kernelStackString m inst stk locals h wd"
      for stk h wd c
      using stk
      by (simp add: orElseData_assoc [symmetric] debugStack_eq orElseData_known kernelStackString_known)
    with stk show ?thesis
      by (simp add: debugSwitch_def pushEq
          memEq kernelData_def kernelPushLocal_unknown
          kernelMemory_unknown debugIo_unknown stackString_not_io)
  next
    case other
    then show ?thesis
      using debugDefault_eq [OF assms other(3), of "dbgStack s" locals "dbgHeap s" "dbgWorld s" ?h m]
      by (simp add: debugSwitch_def pushEq
          memEq kernelData_def kernelPushLocal_unknown
          kernelMemory_unknown) (simp add: sessionHost_def)
  qed
qed

section \<open>One instruction is one kernel step\<close>

definition absSession :: "'w VmDebugSession \<Rightarrow> 'w VmState" where
  "absSession s =
     \<lparr>opStack = dbgStack s, frames = dbgFrames s, vmHeap = dbgHeap s, world = dbgWorld s\<rparr>"

definition withState :: "'w VmState \<Rightarrow> 'w VmDebugSession \<Rightarrow> 'w VmDebugSession" where
  "withState k s =
     s\<lparr>dbgStack := opStack k, dbgFrames := frames k, dbgHeap := vmHeap k, dbgWorld := world k\<rparr>"

text \<open>A session without the trace of its hooks.\<close>

definition unlogged :: "'w VmDebugSession \<Rightarrow> 'w VmDebugSession" where
  "unlogged s = s\<lparr>nextHookSequence := 0, hookLog := []\<rparr>"

definition asDebugStep :: "'w VmStepResult \<Rightarrow> 'w VmDebugSession \<Rightarrow> StepOutcome \<times> 'w VmDebugSession" where
  "asDebugStep r s =
     (case r of
        Running k \<Rightarrow> (StepContinue, withState k s)
      | Exited v k \<Rightarrow> (StepExit, (withState (k\<lparr>frames := []\<rparr>) s)\<lparr>dbgResult := v\<rparr>)
      | Faulted e k \<Rightarrow> (StepFault (appendMappedStackTrace s e), withState k s)
      | Undefined \<Rightarrow> (StepUndefined, s))"

lemma absSession_sel [simp]:
  "opStack (absSession s) = dbgStack s" "frames (absSession s) = dbgFrames s"
  "vmHeap (absSession s) = dbgHeap s" "world (absSession s) = dbgWorld s"
  by (simp_all add: absSession_def)

lemma absSession_withState [simp]: "absSession (withState k s) = k"
  by (simp add: absSession_def withState_def)

lemma absSession_result [simp]: "absSession (dbgResult_update g s) = absSession s"
  by (simp add: absSession_def)

lemma unlogged_updates [simp]:
  "unlogged (dbgStack_update a s) = dbgStack_update a (unlogged s)"
  "unlogged (dbgFrames_update b s) = dbgFrames_update b (unlogged s)"
  "unlogged (dbgHeap_update c s) = dbgHeap_update c (unlogged s)"
  "unlogged (dbgWorld_update d s) = dbgWorld_update d (unlogged s)"
  "unlogged (dbgResult_update e s) = dbgResult_update e (unlogged s)"
  by (simp_all add: unlogged_def)

lemma emitInstructionHook_same [simp]:
  "unlogged (emitInstructionHook k i s) = unlogged s"
  "dbgStack (emitInstructionHook k i s) = dbgStack s" "dbgFrames (emitInstructionHook k i s) = dbgFrames s"
  "dbgHeap (emitInstructionHook k i s) = dbgHeap s" "dbgWorld (emitInstructionHook k i s) = dbgWorld s"
  "dbgModule (emitInstructionHook k i s) = dbgModule s" "localCounts (emitInstructionHook k i s) = localCounts s"
  "dbgArgCount (emitInstructionHook k i s) = dbgArgCount s" "dbgArgs (emitInstructionHook k i s) = dbgArgs s"
  by (simp_all add: emitInstructionHook_def unlogged_def)

lemma emitCallHook_same [simp]: "unlogged (emitCallHook k fi r s) = unlogged s"
  by (simp add: emitCallHook_def unlogged_def)

lemma finishStep_unlogged [simp]: "map_prod id unlogged (finishStep inst out s) = (out, unlogged s)"
  by (simp add: finishStep_def)

lemma appendMappedStackTrace_cong:
  "dbgModule s = dbgModule t \<Longrightarrow> dbgFrames s = dbgFrames t \<Longrightarrow>
     appendMappedStackTrace s e = appendMappedStackTrace t e"
  by (simp add: appendMappedStackTrace_def cong: option.case_cong if_cong)

lemma finishFault_unlogged [simp]:
  "map_prod id unlogged (finishFault inst e s) = (StepFault (appendMappedStackTrace s e), unlogged s)"
  by (simp add: finishFault_def Let_def unlogged_def)

lemma all_not_numeric:
  "\<forall>opc \<in> set [JumpIfZero, Jump, Call, CallVoid, ReturnVoid, ReturnI32, ReturnI64, ReturnF64, ReturnF32].
     \<not> isPureNumericOpcode opc"
  "\<forall>opc \<in> set [PushI32, PushI64, PushF32, PushF64, PushArgc, LoadLocal, StoreLocal, AddressOfLocal].
     \<not> isPureNumericOpcode opc"
  "\<forall>opc \<in> set [LoadIndirect, StoreIndirect, HeapAlloc, HeapFree, HeapRealloc]. \<not> isPureNumericOpcode opc"
  "\<forall>opc \<in> set [Dup, Pop, LoadStringByte, LoadStringLength]. \<not> isPureNumericOpcode opc"
  by (simp_all add: isPureNumericOpcode_def)

lemma handlers_disjoint:
  "isControlFlowOpcode opc \<Longrightarrow> \<not> isPureNumericOpcode opc"
  "isPushLocalOpcode opc \<Longrightarrow> \<not> isPureNumericOpcode opc"
  "isMemoryOpcode opc \<Longrightarrow> \<not> isPureNumericOpcode opc"
  "isStackStringOpcode opc \<Longrightarrow> \<not> isPureNumericOpcode opc"
  using all_not_numeric unfolding isControlFlowOpcode_def isPushLocalOpcode_def isMemoryOpcode_def
    isStackStringOpcode_def by blast+

lemma control_not_numeric:
  assumes "isPureNumericOpcode (op inst)"
  shows "handleSharedVmControlFlowOpcode inst stk ic fc frc mcd ret ip = CfNotHandled"
  using assms handlers_disjoint control_flow_handled_iff by blast

lemma kernelData_numeric:
  assumes "isPureNumericOpcode (op inst)"
  shows "kernelData host m inst stk locals h wd =
    (case executePureNumericOpcode (hostFpu host) inst stk of
       PureContinue stk' \<Rightarrow> DataNext stk' locals h wd
     | PureFault e stk' \<Rightarrow> DataFault e stk'
     | PureUndefined \<Rightarrow> DataUndefined
     | NotHandled \<Rightarrow> DataUnknown)"
proof -
  have "\<not> isPushLocalOpcode (op inst)" "\<not> isMemoryOpcode (op inst)" "\<not> isStackStringOpcode (op inst)"
    using assms handlers_disjoint by blast+
  then show ?thesis
    using assms pure_opcode_handled_iff [of "hostFpu host" inst stk]
    by (simp add: kernelData_def kernelDefault_def handleVmNumericOpcode_def split: PureOpcodeOutcome.splits)
qed

lemma applyDebugData_eq:
  assumes "unlogged s0 = unlogged s" "dbgModule s0 = Some m" "dbgModule s = Some m"
    "dbgFrames s0 = f # fs" "dbgFrames s = f # fs"
  shows "map_prod id unlogged (applyDebugData inst s0 f fs out) =
    map_prod id unlogged (asDebugStep (applyData (absSession s) f fs out) s)"
proof -
  have "(unlogged s)\<lparr>dbgStack := stk, dbgFrames := f # fs\<rparr> = (unlogged s)\<lparr>dbgStack := stk\<rparr>"
    "(unlogged s)\<lparr>dbgFrames := f # fs\<rparr> = unlogged s" for stk
    using assms(5) [symmetric] by (simp_all add: unlogged_def)
  then show ?thesis
    using assms
    by (cases out) (auto simp: applyDebugData_def applyData_def asDebugStep_def withState_def
        intro: appendMappedStackTrace_cong)
qed

lemma stepInstruction_eq:
  assumes m: "dbgModule s = Some m" and ne: "dbgFrames s \<noteq> []"
    and counts: "localCounts s = map vmDebugLocalCount (mod_functions m)"
  shows "map_prod id unlogged (stepInstruction host s) =
    map_prod id unlogged (asDebugStep (vmKernelStep (sessionHost host s) m (absSession s)) s)"
proof -
  obtain f fs where f: "dbgFrames s = f # fs" using ne by (cases "dbgFrames s") auto
  let ?fn = "mod_functions m ! functionIndex f"
  have keep: "(unlogged s)\<lparr>dbgStack := stk, dbgFrames := f # fs\<rparr> = (unlogged s)\<lparr>dbgStack := stk\<rparr>"
    "(unlogged s)\<lparr>dbgFrames := f # fs\<rparr> = unlogged s" for stk
    using f [symmetric] by (simp_all add: unlogged_def)
  show ?thesis
  proof (cases "frameIp f < length (instructions ?fn)")
    case False
    then show ?thesis
      using m f keep
      by (simp add: stepInstruction_def vmKernelStep_def Let_def asDebugStep_def withState_def)
  next
    case ip: True
    let ?inst = "instructions ?fn ! frameIp f"
    let ?s0 = "emitInstructionHook BeforeInstruction ?inst s"
    let ?h = "sessionHost host s"
    let ?cf = "handleSharedVmControlFlowOpcode ?inst (dbgStack s) (length (instructions ?fn))
        (length (mod_functions m)) (length (dbgFrames s)) maxCallDepth (returnValueToCaller f) (frameIp f)"
    have trace: "appendMappedStackTrace (?s0\<lparr>dbgStack := x\<rparr>) e = appendMappedStackTrace s e" for x e
      by (rule appendMappedStackTrace_cong) simp_all
    have host: "hostFpu ?h = hostFpu host" "sessionHost host ?s0 = ?h" by (simp_all add: sessionHost_def)
    have data: "map_prod id unlogged (applyDebugData ?inst ?s0 f fs out) =
        map_prod id unlogged (asDebugStep (applyData (absSession s) f fs out) s)" for out
      using m f by (intro applyDebugData_eq) simp_all
    show ?thesis
    proof (cases "isPureNumericOpcode (op ?inst)")
      case True
      have "stepInstruction host s =
          (case executePureNumericOpcode (hostFpu host) ?inst (dbgStack s) of
             PureFault e stk \<Rightarrow> finishFault ?inst e (?s0\<lparr>dbgStack := stk\<rparr>)
           | PureContinue stk \<Rightarrow> finishStep ?inst StepContinue
               (?s0\<lparr>dbgStack := stk, dbgFrames := f\<lparr>frameIp := frameIp f + 1\<rparr> # fs\<rparr>)
           | PureUndefined \<Rightarrow> (StepUndefined, ?s0)
           | NotHandled \<Rightarrow> undefined)"
        using m f ip True pure_opcode_handled_iff [of "hostFpu host" ?inst "dbgStack s"]
        by (simp add: stepInstruction_def Let_def handleVmDebugNumericOpcode_def
            split: PureOpcodeOutcome.splits)
      moreover have "vmKernelStep ?h m (absSession s) =
          applyData (absSession s) f fs (kernelData ?h m ?inst (dbgStack s) (frameLocals f) (dbgHeap s) (dbgWorld s))"
        using f ip control_not_numeric [OF True]
        by (simp add: vmKernelStep_def Let_def del: control_flow_handled_iff)
      moreover have "kernelData ?h m ?inst (dbgStack s) (frameLocals f) (dbgHeap s) (dbgWorld s) =
          (case executePureNumericOpcode (hostFpu host) ?inst (dbgStack s) of
             PureContinue stk' \<Rightarrow> DataNext stk' (frameLocals f) (dbgHeap s) (dbgWorld s)
           | PureFault e stk' \<Rightarrow> DataFault e stk'
           | PureUndefined \<Rightarrow> DataUndefined
           | NotHandled \<Rightarrow> DataUnknown)"
        by (simp add: kernelData_numeric [OF True] host(1))
      moreover have "executePureNumericOpcode (hostFpu host) ?inst (dbgStack s) \<noteq> NotHandled"
        using True pure_opcode_handled_iff by blast
      ultimately show ?thesis
        by (cases "executePureNumericOpcode (hostFpu host) ?inst (dbgStack s)")
          (simp_all add: applyData_def asDebugStep_def withState_def keep trace f)
    next
      case False
      then have "executePureNumericOpcode (hostFpu host) ?inst (dbgStack s) = NotHandled"
        using pure_opcode_handled_iff by blast
      then have step: "stepInstruction host s = applyDebugControl host m ?inst ?s0 f fs ?cf"
        using m f ip
        by (simp add: stepInstruction_def Let_def handleVmDebugNumericOpcode_def maxCallDepth_def)
      have switch: "debugSwitch host m ?inst ?s0 (frameLocals f) =
          kernelData ?h m ?inst (dbgStack s) (frameLocals f) (dbgHeap s) (dbgWorld s)"
        by (simp add: debugSwitch_eq [OF False] host)
      have kstep: "vmKernelStep ?h m (absSession s) =
          (case ?cf of
             CfFault e stk \<Rightarrow> Faulted e ((absSession s)\<lparr>opStack := stk\<rparr>)
           | CfContinue stk ip \<Rightarrow> Running ((absSession s)\<lparr>opStack := stk, frames := f\<lparr>frameIp := ip\<rparr> # fs\<rparr>)
           | CfCall target ret ip \<Rightarrow>
               Running ((absSession s)\<lparr>frames := newFrame m target ret # f\<lparr>frameIp := ip\<rparr> # fs\<rparr>)
           | CfExit v ret stk \<Rightarrow> Exited v ((absSession s)\<lparr>opStack := stk\<rparr>)
           | CfReturn v ret stk \<Rightarrow>
               Running ((absSession s)\<lparr>opStack := (if ret then v # stk else stk), frames := fs\<rparr>)
           | CfNotHandled \<Rightarrow> applyData (absSession s) f fs
               (kernelData ?h m ?inst (dbgStack s) (frameLocals f) (dbgHeap s) (dbgWorld s)))"
        using f ip by (simp add: vmKernelStep_def Let_def cong: VmControlFlowOutcome.case_cong)
      show ?thesis
      proof (cases ?cf)
        case CfNotHandled
        then show ?thesis by (simp only: step kstep applyDebugControl_def VmControlFlowOutcome.case switch data)
      next
        case (CfCall t r ip')
        then have "localCounts s ! t = computeVmKernelLocalCount (mod_functions m ! t)"
          using CfCallD [OF CfCall] by (simp add: counts vmDebugLocalCount_eq)
        then show ?thesis
          by (simp add: step kstep CfCall applyDebugControl_def asDebugStep_def withState_def newFrame_def unlogged_def [of s])
      qed (simp_all add: step kstep applyDebugControl_def asDebugStep_def withState_def keep trace f)
    qed
  qed
qed

section \<open>Sessions follow the kernel's run\<close>

text \<open>What an instruction step leaves alone.\<close>

definition sameControl :: "'w VmDebugSession \<Rightarrow> 'w VmDebugSession \<Rightarrow> bool" where
  "sameControl s t \<longleftrightarrow>
     dbgModule t = dbgModule s \<and> dbgArgCount t = dbgArgCount s \<and> dbgArgs t = dbgArgs s
     \<and> localCounts t = localCounts s \<and> dbgState t = dbgState s
     \<and> pauseRequested t = pauseRequested s \<and> lastStopWasBreakpoint t = lastStopWasBreakpoint s
     \<and> breakpoints t = breakpoints s \<and> hooks t = hooks s"

lemma unlogged_sameControl: "sameControl (unlogged s) t \<longleftrightarrow> sameControl s t" "sameControl s (unlogged t) \<longleftrightarrow> sameControl s t"
  by (simp_all add: sameControl_def unlogged_def)

lemma unlogged_abs [simp]: "absSession (unlogged s) = absSession s"
  by (simp add: absSession_def unlogged_def)

lemma unlogged_result [simp]: "dbgResult (unlogged s) = dbgResult s"
  by (simp add: unlogged_def)

lemma asDebugStep_sameControl: "sameControl s (snd (asDebugStep r s))"
  by (cases r) (simp_all add: asDebugStep_def sameControl_def withState_def)

text \<open>A session in the middle of a command, on the run of \<open>m\<close> from the world \<open>wd\<close>.\<close>

definition onRun :: "'w VmHost \<Rightarrow> IrModule \<Rightarrow> 'w VmWorld \<Rightarrow> 'w VmDebugSession \<Rightarrow> bool" where
  "onRun host m wd s \<longleftrightarrow>
     dbgModule s = Some m \<and> entry_in_range m \<and> localCounts s = map vmDebugLocalCount (mod_functions m)
     \<and> reachable (sessionHost host s) m wd (absSession s)"

definition runOutcome :: "'w VmHost \<Rightarrow> IrModule \<Rightarrow> 'w VmWorld \<Rightarrow> 'w VmDebugSession \<Rightarrow> 'w VmStepResult option"
  where
  "runOutcome host m wd s = executeVmKernel (sessionHost host s) m wd"

lemma sameControl_host: "sameControl s t \<Longrightarrow> sessionHost host t = sessionHost host s"
  by (simp add: sameControl_def sessionHost_def)

lemma onRun_frames: "onRun host m wd s \<Longrightarrow> dbgFrames s \<noteq> []"
  using reachable_vm_inv [of m "sessionHost host s" wd "absSession s"] by (auto simp: onRun_def vm_inv_def)

lemma Faulted_frames: "vmKernelStep host m s = Faulted e k \<Longrightarrow> frames k = frames s"
  by (auto simp: vmKernelStep_def Let_def applyData_def
      split: list.splits if_splits VmControlFlowOutcome.splits DataOutcome.splits)

lemma onRun_step:
  assumes on: "onRun host m wd s" and step: "stepInstruction host s = (out, t)"
  shows "sameControl s t" and
    "case out of
       StepContinue \<Rightarrow> kernelNext (sessionHost host s) m (absSession s) (absSession t) \<and> onRun host m wd t
     | StepExit \<Rightarrow> (\<exists>k. runOutcome host m wd s = Some (Exited (dbgResult t) k)
                      \<and> absSession t = k\<lparr>frames := []\<rparr>)
     | StepFault msg \<Rightarrow> (\<exists>e. runOutcome host m wd s = Some (Faulted e (absSession t))
                      \<and> msg = appendMappedStackTrace s e \<and> dbgFrames t = dbgFrames s)
     | StepUndefined \<Rightarrow> runOutcome host m wd s = Some Undefined"
proof -
  let ?h = "sessionHost host s" and ?k = "absSession s"
  have m: "dbgModule s = Some m" "entry_in_range m" "reachable ?h m wd ?k"
    and "localCounts s = map vmDebugLocalCount (mod_functions m)"
    using on by (simp_all add: onRun_def)
  then have "map_prod id unlogged (out, t) = map_prod id unlogged (asDebugStep (vmKernelStep ?h m ?k) s)"
    using stepInstruction_eq [OF m(1) onRun_frames [OF on]] step by metis
  then have out: "out = fst (asDebugStep (vmKernelStep ?h m ?k) s)"
    and t: "unlogged t = unlogged (snd (asDebugStep (vmKernelStep ?h m ?k) s))"
    by (simp_all add: map_prod_def split_beta)
  show same: "sameControl s t"
    using asDebugStep_sameControl [of s] t unlogged_sameControl by metis
  have abs: "absSession t = absSession (snd (asDebugStep (vmKernelStep ?h m ?k) s))"
    "dbgResult t = dbgResult (snd (asDebugStep (vmKernelStep ?h m ?k) s))"
    using t by (metis unlogged_abs, metis unlogged_result)
  have outcome: "runOutcome host m wd s = Some r" if "vmKernelStep ?h m ?k = r" "\<And>u. r \<noteq> Running u" for r
    unfolding runOutcome_def using that m by (subst executeVmKernel_Some_iff) auto
  show "case out of
       StepContinue \<Rightarrow> kernelNext ?h m ?k (absSession t) \<and> onRun host m wd t
     | StepExit \<Rightarrow> (\<exists>k. runOutcome host m wd s = Some (Exited (dbgResult t) k)
                      \<and> absSession t = k\<lparr>frames := []\<rparr>)
     | StepFault msg \<Rightarrow> (\<exists>e. runOutcome host m wd s = Some (Faulted e (absSession t))
                      \<and> msg = appendMappedStackTrace s e \<and> dbgFrames t = dbgFrames s)
     | StepUndefined \<Rightarrow> runOutcome host m wd s = Some Undefined"
  proof (cases "vmKernelStep ?h m ?k")
    case (Running k)
    then have nxt: "kernelNext ?h m ?k (absSession t)"
      by (simp add: kernelNext_def abs asDebugStep_def)
    have "reachable ?h m wd (absSession t)"
      using m(3) nxt unfolding reachable_def by (rule rtranclp.rtrancl_into_rtrancl)
    then have "onRun host m wd t"
      using on same sameControl_host [OF same, of host] by (simp add: onRun_def sameControl_def)
    with nxt Running out show ?thesis by (simp add: asDebugStep_def)
  next
    case (Exited v k)
    have "absSession t = k\<lparr>frames := []\<rparr>" "dbgResult t = v"
      using abs unfolding Exited by (simp_all add: asDebugStep_def)
    then show ?thesis using outcome [OF Exited] Exited out by (simp add: asDebugStep_def)
  next
    case (Faulted e k)
    have k: "absSession t = k" by (simp add: abs Faulted asDebugStep_def)
    moreover have "dbgFrames t = dbgFrames s"
      using Faulted_frames [OF Faulted] k absSession_sel(2) by metis
    ultimately show ?thesis using outcome [OF Faulted] Faulted out by (simp add: asDebugStep_def)
  next
    case Undefined
    then show ?thesis using outcome [OF Undefined] out by (simp add: asDebugStep_def)
  qed
qed

section \<open>Commands\<close>

text \<open>Between commands: paused on the run, or at its end. \<open>SessRunning\<close> is left only by undefined behaviour.\<close>

definition tracks :: "'w VmHost \<Rightarrow> IrModule \<Rightarrow> 'w VmWorld \<Rightarrow> 'w VmDebugSession \<Rightarrow> bool" where
  "tracks host m wd s \<longleftrightarrow>
     dbgModule s = Some m \<and> entry_in_range m \<and> localCounts s = map vmDebugLocalCount (mod_functions m)
     \<and> (case dbgState s of
           Idle \<Rightarrow> False
         | SessRunning \<Rightarrow> runOutcome host m wd s = Some Undefined
         | Paused \<Rightarrow> reachable (sessionHost host s) m wd (absSession s)
         | SessFaulted \<Rightarrow> (\<exists>e. runOutcome host m wd s = Some (Faulted e (absSession s)))
         | SessExited \<Rightarrow> (\<exists>k. runOutcome host m wd s = Some (Exited (dbgResult s) k)
                           \<and> absSession s = k\<lparr>frames := []\<rparr>))"

definition replyFits :: "'w VmHost \<Rightarrow> IrModule \<Rightarrow> 'w VmWorld \<Rightarrow> DebugReply \<Rightarrow> 'w VmDebugSession \<Rightarrow> bool"
  where
  "replyFits host m wd r t \<longleftrightarrow>
     (case r of
        Stopped reason \<Rightarrow> dbgState t = (if reason = Exit then SessExited else Paused)
      | FaultStop msg \<Rightarrow> dbgState t = SessFaulted
          \<and> (\<exists>e. runOutcome host m wd t = Some (Faulted e (absSession t)) \<and> msg = appendMappedStackTrace t e)
      | Rejected msg \<Rightarrow> False
      | UndefinedReply \<Rightarrow> dbgState t = SessRunning)"

lemma stop_transitions [simp]:
  "vmDebugApplyStopReason SessRunning reason =
     ((case reason of Fault \<Rightarrow> SessFaulted | Exit \<Rightarrow> SessExited | _ \<Rightarrow> Paused), True)"
  by (cases reason) (simp_all add: vmDebugApplyStopReason_def)

lemma continue_transition [simp]: "vmDebugApplyCommand Paused Continue = (SessRunning, True)"
  by (simp add: vmDebugApplyCommand_def)

lemma session_control_updates [simp]:
  "absSession (dbgState_update a s) = absSession s" "absSession (lastStopWasBreakpoint_update b s) = absSession s"
  "absSession (pauseRequested_update b s) = absSession s" "absSession (breakpoints_update c s) = absSession s"
  "absSession (hooks_update d s) = absSession s"
  "sessionHost host (dbgState_update a s) = sessionHost host s"
  "sessionHost host (lastStopWasBreakpoint_update b s) = sessionHost host s"
  "sessionHost host (pauseRequested_update b s) = sessionHost host s"
  "sessionHost host (breakpoints_update c s) = sessionHost host s"
  "sessionHost host (hooks_update d s) = sessionHost host s"
  by (simp_all add: absSession_def sessionHost_def)

lemma trace_control_updates [simp]:
  "appendMappedStackTrace (dbgState_update a s) e = appendMappedStackTrace s e"
  "appendMappedStackTrace (lastStopWasBreakpoint_update b s) e = appendMappedStackTrace s e"
  by (rule appendMappedStackTrace_cong; simp)+

lemma onRun_updates [simp]:
  "onRun host m wd (dbgState_update a s) = onRun host m wd s"
  "onRun host m wd (lastStopWasBreakpoint_update b s) = onRun host m wd s"
  "onRun host m wd (pauseRequested_update b s) = onRun host m wd s"
  by (simp_all add: onRun_def)

lemma tracks_onRun: "dbgState s = Paused \<Longrightarrow> tracks host m wd s \<longleftrightarrow> onRun host m wd s"
  by (simp add: tracks_def onRun_def)

lemma runOutcome_sameControl: "sameControl s t \<Longrightarrow> runOutcome host m wd t = runOutcome host m wd s"
  by (simp add: runOutcome_def sameControl_host)

lemma runOutcome_updates [simp]:
  "runOutcome host m wd (dbgState_update a s) = runOutcome host m wd s"
  "runOutcome host m wd (lastStopWasBreakpoint_update b s) = runOutcome host m wd s"
  "runOutcome host m wd (pauseRequested_update b s) = runOutcome host m wd s"
  by (simp_all add: runOutcome_def)

lemma onRun_fault:
  assumes on: "onRun host m wd s" and step: "stepInstruction host s = (StepFault msg, t)"
  shows "\<exists>e. runOutcome host m wd t = Some (Faulted e (absSession t)) \<and> msg = appendMappedStackTrace t e"
proof -
  note same = onRun_step(1) [OF on step]
  obtain e where e: "runOutcome host m wd s = Some (Faulted e (absSession t))"
    "msg = appendMappedStackTrace s e" "dbgFrames t = dbgFrames s"
    using onRun_step(2) [OF on step] by auto
  have "appendMappedStackTrace t e = appendMappedStackTrace s e"
    using same e(3) by (intro appendMappedStackTrace_cong) (simp_all add: sameControl_def)
  with e show ?thesis using runOutcome_sameControl [OF same, of host m wd] by auto
qed

end
