(* ===== verification/VmDebugRuns.thy ===== *)
theory VmDebugRuns
  imports VmDebugFacts IrSamples
begin

text \<open>
  Whole debug sessions: the commands as a step relation, the refinement of the kernel's run by
  every sequence of them, when \<^verbatim>\<open>continueExecution\<close> returns and what it reports, where it stops,
  and the numbering of the hook events.
\<close>

section \<open>The continue loop\<close>

lemma continueLoop_again:
  "continuePass host skip s = Inr s1 \<Longrightarrow> continueLoop host skip s = continueLoop host False s1"
  by (subst continueLoop.simps) simp

lemma continueLoop_stop: "continuePass host skip s = Inl r \<Longrightarrow> continueLoop host skip s = Some r"
  by (subst continueLoop.simps) simp

lemma atBreakpoint_updates [simp]:
  "atBreakpoint (dbgState_update a s) = atBreakpoint s"
  "atBreakpoint (lastStopWasBreakpoint_update b s) = atBreakpoint s"
  by (simp_all add: atBreakpoint_def cong: list.case_cong)

lemma continueLoop_induct [consumes 1, case_names stop again]:
  assumes "continueLoop host skip s = Some (r, t)"
    and stop: "\<And>skip s. continuePass host skip s = Inl (r, t) \<Longrightarrow> P skip s"
    and again: "\<And>skip s s1. continuePass host skip s = Inr s1 \<Longrightarrow> P False s1 \<Longrightarrow> P skip s"
  shows "P skip s"
proof -
  have "host = host \<longrightarrow> (r, t) = (r, t) \<longrightarrow> P skip s"
  proof (rule continueLoop.raw_induct
      [where P = "\<lambda>h skip s x. h = host \<longrightarrow> x = (r, t) \<longrightarrow> P skip s", OF _ assms(1)])
    fix loop h skip s x
    assume IH: "\<And>h skip s x. loop h skip s = Some x \<Longrightarrow> h = host \<longrightarrow> x = (r, t) \<longrightarrow> P skip s"
      and eq: "(case continuePass h skip s of Inl r \<Rightarrow> Some r | Inr s1 \<Rightarrow> loop h False s1) = Some x"
    show "h = host \<longrightarrow> x = (r, t) \<longrightarrow> P skip s"
    proof (intro impI)
      assume h: "h = host" "x = (r, t)"
      show "P skip s"
      proof (cases "continuePass h skip s")
        case (Inl y)
        with eq h show ?thesis by (intro stop) simp
      next
        case (Inr s1)
        with eq h IH [of host False s1 x] show ?thesis by (intro again [of skip s s1]) auto
      qed
    qed
  qed
  then show ?thesis by simp
qed

lemma pass_again:
  assumes "continuePass host skip s = Inr s1" and on: "onRun host m wd s"
  shows "onRun host m wd s1" "sameControl s s1" "\<not> pauseRequested s" "skip \<or> \<not> atBreakpoint s"
    "kernelNext (sessionHost host s) m (absSession s) (absSession s1)"
proof -
  have step: "stepInstruction host s = (StepContinue, s1)" and p: "\<not> pauseRequested s1"
    and bp: "skip \<or> \<not> atBreakpoint s"
    using assms(1) by (auto simp: continuePass_def split: if_splits prod.splits StepOutcome.splits)
  note on' = onRun_step [OF on step]
  show "onRun host m wd s1" "sameControl s s1" "skip \<or> \<not> atBreakpoint s"
    "kernelNext (sessionHost host s) m (absSession s) (absSession s1)"
    using on' bp by simp_all
  show "\<not> pauseRequested s" using p on'(1) by (simp add: sameControl_def)
qed

lemma tracks_stop:
  assumes "onRun host m wd s" and "dbgState s = Paused"
  shows "tracks host m wd s"
  using assms tracks_onRun by blast

lemma pass_stop:
  assumes "continuePass host skip s = Inl (r, t)" and on: "onRun host m wd s"
    and run: "dbgState s = SessRunning"
  shows "tracks host m wd t \<and> replyFits host m wd r t
    \<and> (r = Stopped Breakpoint \<longrightarrow> \<not> skip \<and> atBreakpoint s \<and> t = s\<lparr>dbgState := Paused, lastStopWasBreakpoint := True\<rparr>)
    \<and> (\<forall>reason. r = Stopped reason \<longrightarrow> reason = Breakpoint \<or> reason = Exit \<or> reason = Pause \<and> pauseRequested s)"
proof (cases "\<not> skip \<and> atBreakpoint s")
  case True
  then have "r = Stopped Breakpoint" "t = s\<lparr>dbgState := Paused, lastStopWasBreakpoint := True\<rparr>"
    using assms(1) run by (simp_all add: continuePass_def requireStop_def)
  then show ?thesis using True on by (simp add: replyFits_def tracks_onRun)
next
  case False
  obtain out s1 where step: "stepInstruction host s = (out, s1)" by fastforce
  note same = onRun_step(1) [OF on step] and fits = onRun_step(2) [OF on step]
  have run1: "dbgState s1 = SessRunning" "pauseRequested s1 = pauseRequested s"
    using same run by (simp_all add: sameControl_def)
  have stat: "dbgModule s1 = Some m" "entry_in_range m" "localCounts s1 = map vmDebugLocalCount (mod_functions m)"
    using same on by (simp_all add: sameControl_def onRun_def)
  have ro: "runOutcome host m wd s1 = runOutcome host m wd s" by (rule runOutcome_sameControl [OF same])
  show ?thesis
  proof (cases out)
    case StepContinue
    then have "r = Stopped Pause" "pauseRequested s"
      "t = s1\<lparr>pauseRequested := False, dbgState := Paused, lastStopWasBreakpoint := False\<rparr>"
      using assms(1) False step run1
      by (auto simp: continuePass_def requireStop_def split: if_splits)
    then show ?thesis using fits StepContinue by (simp add: replyFits_def tracks_onRun)
  next
    case StepExit
    then have "r = Stopped Exit" "t = s1\<lparr>dbgState := SessExited, lastStopWasBreakpoint := False\<rparr>"
      using assms(1) False step run1 by (auto simp: continuePass_def requireStop_def split: if_splits)
    then show ?thesis using fits StepExit stat ro by (simp add: replyFits_def tracks_def)
  next
    case (StepFault msg)
    then have "r = FaultStop msg" "t = s1\<lparr>dbgState := SessFaulted, lastStopWasBreakpoint := False\<rparr>"
      using assms(1) False step run1 by (auto simp: continuePass_def enterStop_def split: if_splits)
    then show ?thesis
      using onRun_fault [OF on step [unfolded StepFault]] stat by (auto simp: replyFits_def tracks_def)
  next
    case StepUndefined
    then have "r = UndefinedReply" "t = s1"
      using assms(1) False step by (auto simp: continuePass_def split: if_splits)
    then show ?thesis using fits StepUndefined stat ro run1 by (simp add: replyFits_def tracks_def)
  qed
qed

lemma loop_stop:
  assumes "continueLoop host skip s = Some (r, t)" and "onRun host m wd s" and "dbgState s = SessRunning"
  shows "tracks host m wd t \<and> replyFits host m wd r t \<and> sessionHost host t = sessionHost host s
    \<and> (\<forall>reason. r = Stopped reason \<longrightarrow> reason = Breakpoint \<or> reason = Exit \<or> reason = Pause \<and> pauseRequested s)"
  using assms
proof (induction rule: continueLoop_induct)
  case (stop skip s)
  note fits = pass_stop [OF stop(1,2,3)]
  have "sessionHost host t = sessionHost host s"
  proof (cases "\<not> skip \<and> atBreakpoint s")
    case True
    then show ?thesis using stop by (auto simp: continuePass_def requireStop_def)
  next
    case False
    obtain out s1 where step: "stepInstruction host s = (out, s1)" by fastforce
    note same = onRun_step(1) [OF stop(2) step]
    have "sessionHost host t = sessionHost host s1"
      using stop False step same
      by (auto simp: continuePass_def requireStop_def enterStop_def sameControl_def split: StepOutcome.splits if_splits)
    then show ?thesis using sameControl_host [OF same, of host] by simp
  qed
  with fits show ?case by blast
next
  case (again skip s s1)
  note nxt = pass_again [OF again(1,3)]
  have "dbgState s1 = SessRunning" "pauseRequested s1 = pauseRequested s"
    using nxt(2) again(4) by (simp_all add: sameControl_def)
  then show ?case using again.IH [OF nxt(1)] sameControl_host [OF nxt(2), of host] by simp
qed

text \<open>A run that never meets a breakpoint on the way.\<close>

definition atKernelBreakpoint :: "(nat \<times> nat) set \<Rightarrow> 'w VmState \<Rightarrow> bool" where
  "atKernelBreakpoint bps k =
     (case frames k of [] \<Rightarrow> False | f # fs \<Rightarrow> (functionIndex f, frameIp f) \<in> bps)"

definition avoiding :: "'w VmHost \<Rightarrow> IrModule \<Rightarrow> (nat \<times> nat) set \<Rightarrow> 'w VmState \<Rightarrow> 'w VmState \<Rightarrow> bool" where
  "avoiding host m bps a b \<longleftrightarrow> kernelNext host m a b \<and> \<not> atKernelBreakpoint bps a"

lemma atBreakpoint_kernel: "atBreakpoint s \<longleftrightarrow> atKernelBreakpoint (breakpoints s) (absSession s)"
  by (simp add: atBreakpoint_def atKernelBreakpoint_def)

lemma loop_breakpoint:
  assumes "continueLoop host skip s = Some (r, t)" and "onRun host m wd s" and "dbgState s = SessRunning"
    and "r = Stopped Breakpoint"
  shows "atBreakpoint t \<and> breakpoints t = breakpoints s \<and> lastStopWasBreakpoint t
    \<and> (if skip then \<exists>k. kernelNext (sessionHost host s) m (absSession s) k
                   \<and> (avoiding (sessionHost host s) m (breakpoints s))\<^sup>*\<^sup>* k (absSession t)
       else (avoiding (sessionHost host s) m (breakpoints s))\<^sup>*\<^sup>* (absSession s) (absSession t))"
  using assms
proof (induction rule: continueLoop_induct)
  case (stop skip s)
  then show ?case
    using pass_stop [OF stop(1,2,3)] by auto
next
  case (again skip s s1)
  note nxt = pass_again [OF again(1,3)]
  have s1: "dbgState s1 = SessRunning" "breakpoints s1 = breakpoints s"
    using nxt(2) again(4) by (simp_all add: sameControl_def)
  note ih = again.IH [OF nxt(1) s1(1) again(5)]
  have run: "(avoiding (sessionHost host s) m (breakpoints s))\<^sup>*\<^sup>* (absSession s1) (absSession t)"
    using ih sameControl_host [OF nxt(2), of host] s1(2) by simp
  show ?case
  proof (cases skip)
    case True
    then show ?thesis using ih s1(2) run nxt(5) by auto
  next
    case False
    then have "avoiding (sessionHost host s) m (breakpoints s) (absSession s) (absSession s1)"
      using nxt(4,5) by (simp add: avoiding_def atBreakpoint_kernel)
    then show ?thesis using ih s1(2) run False by (simp add: converse_rtranclp_into_rtranclp)
  qed
qed

lemma loop_returns:
  assumes "runSteps n (sessionHost host s) m (absSession s) = Some x" and "onRun host m wd s"
  shows "\<exists>y. continueLoop host skip s = Some y"
  using assms
proof (induction n arbitrary: s skip)
  case (Suc n)
  show ?case
  proof (cases "continuePass host skip s")
    case (Inl y)
    then show ?thesis by (simp add: continueLoop_stop)
  next
    case (Inr s1)
    note nxt = pass_again [OF Inr Suc.prems(2)]
    have "runSteps n (sessionHost host s1) m (absSession s1) = Some x"
      using Suc.prems(1) nxt(5) sameControl_host [OF nxt(2), of host] by (simp add: kernelNext_def)
    from Suc.IH [OF this nxt(1), of False] show ?thesis by (simp add: continueLoop_again [OF Inr])
  qed
qed simp

lemma loop_returns_if_run_returns:
  assumes on: "onRun host m wd s" and "runOutcome host m wd s = Some x"
  shows "\<exists>y. continueLoop host skip s = Some y"
proof -
  have "vmKernelLoop (sessionHost host s) m (initialState m wd) = Some x"
    using assms by (simp add: runOutcome_def executeVmKernel_def onRun_def)
  then have "vmKernelLoop (sessionHost host s) m (absSession s) = Some x"
    using on loop_reach [of "sessionHost host s" m "initialState m wd" "absSession s"]
    by (simp add: onRun_def reachable_def)
  then obtain n where "runSteps n (sessionHost host s) m (absSession s) = Some x"
    using loop_runSteps by blast
  from loop_returns [OF this on] show ?thesis .
qed

section \<open>Commands as a step relation\<close>

inductive debugCommand :: "'w VmHost \<Rightarrow> 'w VmDebugSession \<Rightarrow> 'w VmDebugSession \<Rightarrow> bool"
  for host :: "'w VmHost" where
  cmd_step: "debugStep host s = (r, t) \<Longrightarrow> debugCommand host s t"
| cmd_continue: "continueExecution host s = Some (r, t) \<Longrightarrow> debugCommand host s t"
| cmd_pause: "pause s = (e, t) \<Longrightarrow> debugCommand host s t"
| cmd_add: "addBreakpoint fi ip s = (e, t) \<Longrightarrow> debugCommand host s t"
| cmd_add_source: "addSourceBreakpoint ln col srcUnit s = (n, t) \<Longrightarrow> debugCommand host s t"
| cmd_remove: "removeBreakpoint fi ip s = (e, t) \<Longrightarrow> debugCommand host s t"
| cmd_clear: "debugCommand host s (clearBreakpoints s)"
| cmd_set_hooks: "debugCommand host s (setHooks hs s)"
| cmd_clear_hooks: "debugCommand host s (clearHooks s)"

inductive_cases debugCommandE: "debugCommand host s t"

text \<open>The commands that run no instruction keep everything the run depends on.\<close>

definition sameRun :: "'w VmDebugSession \<Rightarrow> 'w VmDebugSession \<Rightarrow> bool" where
  "sameRun s t \<longleftrightarrow>
     dbgModule t = dbgModule s \<and> dbgArgCount t = dbgArgCount s \<and> dbgArgs t = dbgArgs s
     \<and> localCounts t = localCounts s \<and> dbgState t = dbgState s \<and> absSession t = absSession s
     \<and> dbgResult t = dbgResult s \<and> nextHookSequence t = nextHookSequence s \<and> hookLog t = hookLog s"

lemma sameRun_tracks: "sameRun s t \<Longrightarrow> tracks host m wd t \<longleftrightarrow> tracks host m wd s"
  by (simp add: sameRun_def tracks_def runOutcome_def sessionHost_def cong: VmDebugSessionState.case_cong)

lemma sameRun_refl [simp]: "sameRun s s"
  by (simp add: sameRun_def)

lemma sameRun_updates [simp]:
  "sameRun s (pauseRequested_update a s)" "sameRun s (breakpoints_update b s)"
  "sameRun s (hooks_update c s)" "sameRun s (lastStopWasBreakpoint_update a s)"
  "sameRun s (lastStopWasBreakpoint_update a (breakpoints_update b s))"
  by (simp_all add: sameRun_def)

lemma sameRun_fold: "sameRun s (fold (\<lambda>b s. breakpoints_update (g b s) s) bs s)"
proof (induction bs arbitrary: s)
  case (Cons b bs)
  have "sameRun (breakpoints_update (g b s) s)
      (fold (\<lambda>b s. breakpoints_update (g b s) s) bs (breakpoints_update (g b s) s))"
    by (rule Cons.IH)
  then show ?case by (simp add: sameRun_def)
qed simp

lemma quiet_commands:
  "pause s = (e, t) \<Longrightarrow> sameRun s t" "addBreakpoint fi ip s = (e, t) \<Longrightarrow> sameRun s t"
  "addSourceBreakpoint ln col srcUnit s = (n, t) \<Longrightarrow> sameRun s t"
  "removeBreakpoint fi ip s = (e, t) \<Longrightarrow> sameRun s t"
  "sameRun s (clearBreakpoints s)" "sameRun s (setHooks hs s)" "sameRun s (clearHooks s)"
  by (auto simp: pause_def addBreakpoint_def addSourceBreakpoint_def removeBreakpoint_def
      clearBreakpoints_def setHooks_def clearHooks_def sameRun_fold
      split: if_splits option.splits sum.splits)

lemma debugStep_fits:
  assumes "debugStep host s = (r, t)" and tr: "tracks host m wd s"
  shows "(if dbgState s = Paused then replyFits host m wd r t \<and> r \<noteq> Stopped Breakpoint \<and> r \<noteq> Stopped Pause
          else (\<exists>msg. r = Rejected msg) \<and> t = s)
    \<and> tracks host m wd t \<and> sessionHost host t = sessionHost host s"
proof (cases "dbgState s = Paused")
  case False
  then show ?thesis using assms by (auto simp: debugStep_def split: if_splits)
next
  case paused: True
  let ?s = "s\<lparr>dbgState := SessRunning\<rparr>"
  obtain out s1 where step: "stepInstruction host ?s = (out, s1)" by fastforce
  have on: "onRun host m wd ?s" using tr paused by (simp add: tracks_onRun)
  note same = onRun_step(1) [OF on step] and fits = onRun_step(2) [OF on step]
  have run1: "dbgState s1 = SessRunning" using same by (simp add: sameControl_def)
  have stat: "dbgModule s1 = Some m" "entry_in_range m" "localCounts s1 = map vmDebugLocalCount (mod_functions m)"
    using same on by (simp_all add: sameControl_def onRun_def)
  have ro: "runOutcome host m wd s1 = runOutcome host m wd s"
    using runOutcome_sameControl [OF same, of host m wd] by simp
  have hst: "sessionHost host s1 = sessionHost host s" using sameControl_host [OF same, of host] by simp
  have eq: "(r, t) = (case out of
      StepFault e \<Rightarrow> (FaultStop e, s1\<lparr>dbgState := SessFaulted, lastStopWasBreakpoint := False\<rparr>)
    | StepExit \<Rightarrow> (Stopped Exit, s1\<lparr>dbgState := SessExited, lastStopWasBreakpoint := False\<rparr>)
    | StepContinue \<Rightarrow> (Stopped Step, s1\<lparr>dbgState := Paused, lastStopWasBreakpoint := False\<rparr>)
    | StepUndefined \<Rightarrow> (UndefinedReply, s1))"
    using assms(1) paused step run1
    by (auto simp: debugStep_def enterStop_def requireStop_def split: StepOutcome.splits)
  show ?thesis
  proof (cases out)
    case StepContinue
    then show ?thesis using eq fits paused hst by (simp add: replyFits_def tracks_onRun)
  next
    case StepExit
    then show ?thesis using eq fits paused hst stat ro by (simp add: replyFits_def tracks_def)
  next
    case (StepFault msg)
    then show ?thesis
      using eq onRun_fault [OF on step [unfolded StepFault]] paused hst stat by (auto simp: replyFits_def tracks_def)
  next
    case StepUndefined
    then show ?thesis using eq fits paused hst stat ro run1 by (simp add: replyFits_def tracks_def)
  qed
qed

lemma continue_fits:
  assumes "continueExecution host s = Some (r, t)" and tr: "tracks host m wd s"
  shows "(if dbgState s = Paused then replyFits host m wd r t
            \<and> (\<forall>reason. r = Stopped reason \<longrightarrow> reason = Breakpoint \<or> reason = Exit \<or> reason = Pause \<and> pauseRequested s)
          else (\<exists>msg. r = Rejected msg) \<and> t = s)
    \<and> tracks host m wd t \<and> sessionHost host t = sessionHost host s"
proof (cases "dbgState s = Paused")
  case False
  then show ?thesis using assms by (auto simp: continueExecution_def split: if_splits)
next
  case paused: True
  show ?thesis
  proof (cases "pauseRequested s")
    case True
    then have "r = Stopped Pause" "t = s\<lparr>dbgState := Paused, pauseRequested := False, lastStopWasBreakpoint := False\<rparr>"
      using assms(1) paused by (auto simp: continueExecution_def requireStop_def)
    then show ?thesis
      using tr paused True by (simp add: replyFits_def tracks_onRun)
  next
    case False
    let ?s = "s\<lparr>dbgState := SessRunning, lastStopWasBreakpoint := False\<rparr>"
    have loop: "continueLoop host (lastStopWasBreakpoint s) ?s = Some (r, t)"
      using assms(1) paused False by (simp add: continueExecution_def)
    have on: "onRun host m wd ?s" using tr paused by (simp add: tracks_onRun)
    from loop_stop [OF loop on] show ?thesis using paused by simp
  qed
qed

lemma command_tracks:
  assumes "tracks host m wd s" and "debugCommand host s t"
  shows "tracks host m wd t"
  using assms(2)
proof (cases rule: debugCommand.cases)
  case (cmd_step r)
  then show ?thesis using debugStep_fits assms(1) by blast
next
  case (cmd_continue r)
  then show ?thesis using continue_fits assms(1) by blast
qed (metis assms(1) sameRun_tracks quiet_commands)+

interpretation debugger: transition_invariant "tracks host m wd" "debugCommand host" for host m wd
  by (rule transition_invariant.intro) (rule command_tracks)

lemma start_tracks:
  "startCount m n s = (None, t) \<Longrightarrow> tracks host m (dbgWorld s) t"
  "startArgs m args s = (None, t) \<Longrightarrow> tracks host m (dbgWorld s) t"
proof -
  have init: "tracks host m (dbgWorld s) t"
    if "entry_in_range m" "initFromModule m n args s = (True, t)" for n args
  proof -
    have t: "dbgState t = Paused" "dbgModule t = Some m" "localCounts t = map vmDebugLocalCount (mod_functions m)"
      "absSession t = initialState m (dbgWorld s)"
      using that(2) entry_in_rangeD [OF that(1)]
      by (auto simp: initFromModule_def Let_def vmDebugApplyCommand_def absSession_def initialState_def
          newFrame_def vmDebugLocalCount_eq)
    then show ?thesis using that(1) by (simp add: tracks_def reachable_def)
  qed
  show "startCount m n s = (None, t) \<Longrightarrow> tracks host m (dbgWorld s) t"
    "startArgs m args s = (None, t) \<Longrightarrow> tracks host m (dbgWorld s) t"
    using init by (auto simp: startCount_def startArgs_def split: if_splits prod.splits)
qed

section \<open>Properties\<close>

lemma abs_exited:
  "absSession t = k\<lparr>frames := []\<rparr> \<longleftrightarrow>
     dbgStack t = opStack k \<and> dbgFrames t = [] \<and> dbgHeap t = vmHeap k \<and> dbgWorld t = world k"
  by (cases k) (auto simp: absSession_def)

lemma stepInstruction_running:
  assumes on: "onRun host m wd s" and k: "vmKernelStep (sessionHost host s) m (absSession s) = Running k"
  shows "\<exists>t. stepInstruction host s = (StepContinue, t) \<and> absSession t = k \<and> sameControl s t"
proof -
  obtain out t where step: "stepInstruction host s = (out, t)" by fastforce
  have "map_prod id unlogged (out, t) = map_prod id unlogged (StepContinue, withState k s)"
    using stepInstruction_eq [of s m host] on onRun_frames [OF on] step k
    by (simp add: onRun_def asDebugStep_def)
  then have "out = StepContinue" "unlogged t = unlogged (withState k s)" by simp_all
  then have "absSession t = k" by (metis absSession_withState unlogged_abs)
  with \<open>out = StepContinue\<close> step onRun_step(1) [OF on step] show ?thesis by blast
qed

lemma started_session:
  assumes "startCount m n s0 = (None, s1) \<or> startArgs m args s0 = (None, s1)"
    and "(debugCommand host)\<^sup>*\<^sup>* s1 s"
  shows "tracks host m (dbgWorld s0) s"
  using debugger.run_inv [OF assms(2)] start_tracks assms(1) by blast

lemma sample_started:
  "startCount sampleModule 0 (freshSession wd) = (None, snd (startCount sampleModule 0 (freshSession wd)))"
  by (simp add: startCount_def initFromModule_def Let_def vmDebugApplyCommand_def)

abbreviation sampleSession :: "'w VmWorld \<Rightarrow> 'w VmDebugSession" where
  "sampleSession wd \<equiv> snd (startCount sampleModule 0 (freshSession wd))"

lemma sampleSession_sel:
  "dbgState (sampleSession wd) = Paused" "breakpoints (sampleSession wd) = {}"
  "pauseRequested (sampleSession wd) = False" "lastStopWasBreakpoint (sampleSession wd) = False"
  "dbgModule (sampleSession wd) = Some sampleModule"
  "localCounts (sampleSession wd) = map vmDebugLocalCount (mod_functions sampleModule)"
  "absSession (sampleSession wd) = sampleState [] [sampleFrame 0 0 False] wd"
  "hookLog (sampleSession wd) = []" "nextHookSequence (sampleSession wd) = 0"
  using sample_run(1) [of wd]
  by (simp_all add: startCount_def initFromModule_def Let_def vmDebugApplyCommand_def freshSession_def
      absSession_def initialState_def newFrame_def vmDebugLocalCount_eq sampleState_def sampleFrame_def)

lemma sample_outcome:
  "executeVmKernel host sampleModule wd = Some (Exited 42 (sampleState [] [sampleFrame 0 2 False] wd))"
proof -
  have "(kernelNext host sampleModule)\<^sup>*\<^sup>* (initialState sampleModule wd) (sampleState [42] [sampleFrame 0 2 False] wd)"
    unfolding sample_run(1)
    by (rule step_run [OF sample_run(2)], rule step_run [OF sample_run(3)], rule step_run [OF sample_run(4)],
        rule step_run [OF sample_run(5)], rule step_run [OF sample_run(6)], rule rtranclp.rtrancl_refl)
  with sample_run(7) [of host wd] show ?thesis
    by (subst executeVmKernel_Some_iff) (auto simp: reachable_def)
qed

text \<open>
  C10: one instruction of the debug session is one step of the execution kernel. On the
  session's stack, frames, heap and world, with its arguments, the two copies of the
  instruction switch continue, exit, fault and are undefined together; a debug fault carries
  the kernel's message with the mapped stack trace appended, and breakpoints, pause requests
  and session state are left alone.
\<close>

theorem debug_step_is_kernel_step:
  assumes "dbgModule s = Some m" and "dbgFrames s \<noteq> []"
    and "localCounts s = map vmDebugLocalCount (mod_functions m)"
  shows "sameControl s (snd (stepInstruction host s)) \<and>
    (case vmKernelStep (sessionHost host s) m (absSession s) of
       Running k \<Rightarrow> fst (stepInstruction host s) = StepContinue \<and> absSession (snd (stepInstruction host s)) = k
     | Exited v k \<Rightarrow> fst (stepInstruction host s) = StepExit \<and> dbgResult (snd (stepInstruction host s)) = v
         \<and> absSession (snd (stepInstruction host s)) = k\<lparr>frames := []\<rparr>
     | Faulted e k \<Rightarrow> fst (stepInstruction host s) = StepFault (appendMappedStackTrace s e)
         \<and> absSession (snd (stepInstruction host s)) = k
     | Undefined \<Rightarrow> fst (stepInstruction host s) = StepUndefined)"
proof -
  let ?t = "stepInstruction host s" and ?r = "vmKernelStep (sessionHost host s) m (absSession s)"
  have eq: "map_prod id unlogged ?t = map_prod id unlogged (asDebugStep ?r s)"
    by (rule stepInstruction_eq [OF assms])
  then have out: "fst ?t = fst (asDebugStep ?r s)" and t: "unlogged (snd ?t) = unlogged (snd (asDebugStep ?r s))"
    by (metis fst_map_prod id_apply, metis snd_map_prod)
  have abs: "absSession (snd ?t) = absSession (snd (asDebugStep ?r s))"
    "dbgResult (snd ?t) = dbgResult (snd (asDebugStep ?r s))"
    using t by (metis unlogged_abs, metis unlogged_result)
  have "sameControl s (snd ?t)"
    using asDebugStep_sameControl [of s] t unlogged_sameControl by metis
  then show ?thesis
    using out abs by (cases ?r) (simp_all add: asDebugStep_def)
qed

theorem debug_step_is_kernel_step_witness:
  "\<forall>(host :: unit VmHost) wd. fst (stepInstruction host (sampleSession wd)) = StepContinue
     \<and> absSession (snd (stepInstruction host (sampleSession wd))) = sampleState [40] [sampleFrame 0 1 False] wd"
proof (intro allI)
  fix host :: "unit VmHost" and wd :: "unit VmWorld"
  have "dbgFrames (sampleSession wd) \<noteq> []"
    using sampleSession_sel(7) [of wd] by (metis absSession_sel(2) list.distinct(1) sampleState_def VmState.select_convs(2))
  from debug_step_is_kernel_step [OF sampleSession_sel(5) this sampleSession_sel(6), of host]
  show "fst (stepInstruction host (sampleSession wd)) = StepContinue
      \<and> absSession (snd (stepInstruction host (sampleSession wd))) = sampleState [40] [sampleFrame 0 1 False] wd"
    by (simp add: sampleSession_sel sample_run(2))
qed

text \<open>
  C1: debugging does not change a program. After a start and any sequence of commands, a paused
  session stands at a state the kernel's own run of the module reaches; an exited session holds
  the result, stack, heap and world with which the kernel's run exits; a faulted one the state
  at which the kernel's run faults; and a session is never idle again.
\<close>

theorem session_follows_kernel:
  assumes "startCount m n s0 = (None, s1) \<or> startArgs m args s0 = (None, s1)"
    and "(debugCommand host)\<^sup>*\<^sup>* s1 s"
  shows "case dbgState s of
      Idle \<Rightarrow> False
    | SessRunning \<Rightarrow> executeVmKernel (sessionHost host s) m (dbgWorld s0) = Some Undefined
    | Paused \<Rightarrow> reachable (sessionHost host s) m (dbgWorld s0) (absSession s)
    | SessFaulted \<Rightarrow> (\<exists>e. executeVmKernel (sessionHost host s) m (dbgWorld s0) = Some (Faulted e (absSession s)))
    | SessExited \<Rightarrow> (\<exists>k. executeVmKernel (sessionHost host s) m (dbgWorld s0) = Some (Exited (dbgResult s) k)
        \<and> absSession s = k\<lparr>frames := []\<rparr>)"
  using started_session [OF assms]
  by (simp add: tracks_def runOutcome_def cong: VmDebugSessionState.case_cong)

theorem session_follows_kernel_witness:
  "\<forall>(host :: unit VmHost) wd. \<exists>s. (debugCommand host)\<^sup>*\<^sup>* (sampleSession wd) s
     \<and> dbgState s = Paused \<and> breakpoints s = {(1, 2)}
     \<and> reachable (sessionHost host s) sampleModule wd (absSession s)"
proof (intro allI)
  fix host :: "unit VmHost" and wd :: "unit VmWorld"
  let ?s = "snd (addBreakpoint 1 2 (sampleSession wd))"
  have s: "dbgState ?s = Paused" "breakpoints ?s = {(1, 2)}"
    by (simp_all add: addBreakpoint_def sampleSession_sel)
  have run: "(debugCommand host)\<^sup>*\<^sup>* (sampleSession wd) ?s"
    by (rule r_into_rtranclp, rule cmd_add [of 1 2 _ "fst (addBreakpoint 1 2 (sampleSession wd))"]) simp
  have "dbgWorld (freshSession wd) = wd" by (simp add: freshSession_def)
  with session_follows_kernel [OF disjI1 [OF sample_started] run] s run
  show "\<exists>s. (debugCommand host)\<^sup>*\<^sup>* (sampleSession wd) s \<and> dbgState s = Paused \<and> breakpoints s = {(1, 2)}
      \<and> reachable (sessionHost host s) sampleModule wd (absSession s)"
    by (intro exI [of _ ?s]) simp
qed

text \<open>
  C2: continuing a paused session that has no breakpoint and no pause request runs the program
  to its end. The command returns exactly when the kernel's run does, with the same result, the
  same world and, for a fault, the kernel's message with the stack trace appended; it runs
  forever when the kernel does.
\<close>

theorem continue_runs_to_end:
  assumes "startCount m n s0 = (None, s1) \<or> startArgs m args s0 = (None, s1)"
    and "(debugCommand host)\<^sup>*\<^sup>* s1 s" and "dbgState s = Paused"
    and "breakpoints s = {}" and "\<not> pauseRequested s"
  shows "case executeVmKernel (sessionHost host s) m (dbgWorld s0) of
      None \<Rightarrow> continueExecution host s = None
    | Some (Exited v k) \<Rightarrow> \<exists>t. continueExecution host s = Some (Stopped Exit, t)
        \<and> dbgResult t = v \<and> dbgWorld t = world k
    | Some (Faulted e k) \<Rightarrow> \<exists>t. continueExecution host s = Some (FaultStop (appendMappedStackTrace t e), t)
        \<and> absSession t = k
    | Some (Running k) \<Rightarrow> False
    | Some Undefined \<Rightarrow> \<exists>t. continueExecution host s = Some (UndefinedReply, t)"
proof -
  have tr: "tracks host m (dbgWorld s0) s" by (rule started_session [OF assms(1,2)])
  have ro: "runOutcome host m (dbgWorld s0) s = executeVmKernel (sessionHost host s) m (dbgWorld s0)"
    by (simp add: runOutcome_def)
  let ?s = "s\<lparr>dbgState := SessRunning, lastStopWasBreakpoint := False\<rparr>"
  have on: "onRun host m (dbgWorld s0) ?s" using tr assms(3) by (simp add: tracks_onRun)
  have c: "continueExecution host s = continueLoop host (lastStopWasBreakpoint s) ?s"
    using assms(3,5) by (simp add: continueExecution_def)
  have returns: "\<exists>y. continueExecution host s = Some y"
    if "executeVmKernel (sessionHost host s) m (dbgWorld s0) = Some x" for x
    unfolding c by (rule loop_returns_if_run_returns [OF on]) (use that ro in simp)
  have fits: "(case r of
        Stopped reason \<Rightarrow> reason = Exit \<and> (\<exists>k. executeVmKernel (sessionHost host s) m (dbgWorld s0) = Some (Exited (dbgResult t) k)
          \<and> dbgWorld t = world k)
      | FaultStop msg \<Rightarrow> \<exists>e. executeVmKernel (sessionHost host s) m (dbgWorld s0) = Some (Faulted e (absSession t))
          \<and> msg = appendMappedStackTrace t e
      | Rejected _ \<Rightarrow> False
      | UndefinedReply \<Rightarrow> executeVmKernel (sessionHost host s) m (dbgWorld s0) = Some Undefined)"
    if r: "continueExecution host s = Some (r, t)" for r t
  proof -
    note f = continue_fits [OF r tr]
    have nb: "r \<noteq> Stopped Breakpoint"
    proof
      assume bp: "r = Stopped Breakpoint"
      from loop_breakpoint [OF r [unfolded c] on _ bp] have "atBreakpoint t" "breakpoints t = {}"
        using assms(4) by simp_all
      then show False by (simp add: atBreakpoint_def split: list.splits)
    qed
    show ?thesis
      using f nb assms(3,5)
      by (cases r) (auto simp: replyFits_def tracks_def runOutcome_def abs_exited)
  qed
  show ?thesis
  proof (cases "executeVmKernel (sessionHost host s) m (dbgWorld s0)")
    case None
    have "continueExecution host s = None"
    proof (rule ccontr)
      assume "continueExecution host s \<noteq> None"
      then obtain r t where "continueExecution host s = Some (r, t)" by auto
      from fits [OF this] None show False by (simp split: DebugReply.splits)
    qed
    with None show ?thesis by simp
  next
    case (Some x)
    from returns [OF this] obtain r t where rt: "continueExecution host s = Some (r, t)" by auto
    from fits [OF rt] rt Some show ?thesis by (cases r) auto
  qed
qed

theorem continue_runs_to_end_witness:
  "\<forall>(host :: unit VmHost) wd. \<exists>t. continueExecution host (sampleSession wd) = Some (Stopped Exit, t)
     \<and> dbgResult t = 42 \<and> dbgWorld t = wd"
proof (intro allI)
  fix host :: "unit VmHost" and wd :: "unit VmWorld"
  have w: "dbgWorld (freshSession wd) = wd" by (simp add: freshSession_def)
  show "\<exists>t. continueExecution host (sampleSession wd) = Some (Stopped Exit, t) \<and> dbgResult t = 42 \<and> dbgWorld t = wd"
    using continue_runs_to_end [OF disjI1 [OF sample_started] rtranclp.rtrancl_refl, of wd host]
    by (simp add: sampleSession_sel w sample_outcome) (simp add: sampleState_def)
qed

text \<open>
  C11: continuing stops at the first breakpoint. When the command reports a breakpoint, the
  session stands at one, and the kernel's run from the state it continued from reaches that
  state without passing a breakpoint on the way; only the breakpoint the session already
  stood at when its last stop was a breakpoint is stepped over, with at least one instruction.
\<close>

theorem continue_stops_at_first_breakpoint:
  assumes "startCount m n s0 = (None, s1) \<or> startArgs m args s0 = (None, s1)"
    and "(debugCommand host)\<^sup>*\<^sup>* s1 s"
    and "continueExecution host s = Some (Stopped Breakpoint, t)"
  shows "dbgState t = Paused \<and> atKernelBreakpoint (breakpoints s) (absSession t)
    \<and> (if lastStopWasBreakpoint s
       then \<exists>k. kernelNext (sessionHost host s) m (absSession s) k
              \<and> (avoiding (sessionHost host s) m (breakpoints s))\<^sup>*\<^sup>* k (absSession t)
       else (avoiding (sessionHost host s) m (breakpoints s))\<^sup>*\<^sup>* (absSession s) (absSession t))"
proof -
  have tr: "tracks host m (dbgWorld s0) s" by (rule started_session [OF assms(1,2)])
  note f = continue_fits [OF assms(3) tr]
  have p: "dbgState s = Paused" "dbgState t = Paused"
    using f by (auto simp: replyFits_def split: if_splits)
  have np: "\<not> pauseRequested s"
    using assms(3) p(1) by (auto simp: continueExecution_def requireStop_def)
  let ?s = "s\<lparr>dbgState := SessRunning, lastStopWasBreakpoint := False\<rparr>"
  have on: "onRun host m (dbgWorld s0) ?s" using tr p by (simp add: tracks_onRun)
  have "continueLoop host (lastStopWasBreakpoint s) ?s = Some (Stopped Breakpoint, t)"
    using assms(3) p np by (simp add: continueExecution_def)
  from loop_breakpoint [OF this on] show ?thesis
    using p(2) by (auto simp: atBreakpoint_kernel cong: if_cong)
qed

theorem continue_stops_at_first_breakpoint_witness:
  "\<forall>(host :: unit VmHost) wd. \<exists>t. continueExecution host (snd (addBreakpoint 0 1 (sampleSession wd)))
       = Some (Stopped Breakpoint, t)
     \<and> (avoiding (sessionHost host (sampleSession wd)) sampleModule {(0, 1)})\<^sup>*\<^sup>*
         (sampleState [] [sampleFrame 0 0 False] wd) (absSession t)"
proof (intro allI)
  fix host :: "unit VmHost" and wd :: "unit VmWorld"
  let ?s = "snd (addBreakpoint 0 1 (sampleSession wd))" and ?h = "sessionHost host (sampleSession wd)"
  have s: "dbgState ?s = Paused" "breakpoints ?s = {(0, 1)}" "\<not> pauseRequested ?s"
    "\<not> lastStopWasBreakpoint ?s" "absSession ?s = sampleState [] [sampleFrame 0 0 False] wd"
    "sessionHost host ?s = ?h"
    by (simp_all add: addBreakpoint_def sampleSession_sel)
  have run: "(debugCommand host)\<^sup>*\<^sup>* (sampleSession wd) ?s"
    by (rule r_into_rtranclp, rule cmd_add [of 0 1 _ "fst (addBreakpoint 0 1 (sampleSession wd))"]) simp
  have tr: "tracks host sampleModule (dbgWorld (freshSession wd)) ?s"
    by (rule started_session [OF disjI1 [OF sample_started] run])
  let ?r = "?s\<lparr>dbgState := SessRunning, lastStopWasBreakpoint := False\<rparr>"
  have on: "onRun host sampleModule (dbgWorld (freshSession wd)) ?r" using tr s(1) by (simp add: tracks_onRun)
  have "vmKernelStep (sessionHost host ?r) sampleModule (absSession ?r)
      = Running (sampleState [40] [sampleFrame 0 1 False] wd)"
    using sample_run(2) [of ?h wd] s(5,6) by simp
  from stepInstruction_running [OF on this] obtain u where
    u: "stepInstruction host ?r = (StepContinue, u)" "absSession u = sampleState [40] [sampleFrame 0 1 False] wd"
      "sameControl ?r u" by blast
  have "\<not> atBreakpoint ?r" "atBreakpoint u"
    using u(2,3) s(2,5)
    by (simp_all add: atBreakpoint_kernel atKernelBreakpoint_def sampleState_def sampleFrame_def sameControl_def
        del: absSession_sel)
  then have "continuePass host False ?r = Inr u"
    "continuePass host False u = Inl (requireStop Breakpoint ''debug session failed to pause at breakpoint'' True u)"
    using u(1,3) s(3) by (simp_all add: continuePass_def sameControl_def)
  then have "continueLoop host False ?r = Some (requireStop Breakpoint ''debug session failed to pause at breakpoint'' True u)"
    by (simp only: continueLoop_again continueLoop_stop)
  then obtain t where c: "continueExecution host ?s = Some (Stopped Breakpoint, t)"
    using s u(3) by (simp add: continueExecution_def requireStop_def sameControl_def)
  from continue_stops_at_first_breakpoint [OF disjI1 [OF sample_started] run c] c
  show "\<exists>t. continueExecution host ?s = Some (Stopped Breakpoint, t)
      \<and> (avoiding ?h sampleModule {(0, 1)})\<^sup>*\<^sup>* (sampleState [] [sampleFrame 0 0 False] wd) (absSession t)"
    using s by auto
qed

section \<open>Hook events\<close>

text \<open>The events of a session carry the sequence numbers 0, 1, 2 and so on.\<close>

definition numbered :: "'w VmDebugSession \<Rightarrow> bool" where
  "numbered s \<longleftrightarrow>
     nextHookSequence s = of_nat (length (hookLog s))
     \<and> map sequenceNo (hookLog s) = map of_nat [0..<length (hookLog s)]"

lemma numbered_updates [simp]:
  "numbered (dbgStack_update a s) = numbered s" "numbered (dbgFrames_update b s) = numbered s"
  "numbered (dbgHeap_update c s) = numbered s" "numbered (dbgWorld_update d s) = numbered s"
  "numbered (dbgResult_update e s) = numbered s" "numbered (dbgState_update f s) = numbered s"
  "numbered (pauseRequested_update g s) = numbered s" "numbered (lastStopWasBreakpoint_update g s) = numbered s"
  by (simp_all add: numbered_def)

lemma numbered_emit [simp]:
  "numbered s \<Longrightarrow> numbered (emitInstructionHook k inst s)"
  "numbered s \<Longrightarrow> numbered (emitCallHook c fi ret s)"
  "numbered s \<Longrightarrow> numbered (snd (finishFault inst e s))"
  by (simp_all add: numbered_def emitInstructionHook_def emitCallHook_def finishFault_def Let_def add.commute)

lemma numbered_finishStep [simp]: "numbered s \<Longrightarrow> numbered (snd (finishStep inst out s))"
  by (simp add: finishStep_def)

lemma numbered_data: "numbered s \<Longrightarrow> numbered (snd (applyDebugData inst s f fs out))"
  by (cases out) (simp_all add: applyDebugData_def)

lemma numbered_control: "numbered s \<Longrightarrow> numbered (snd (applyDebugControl host m inst s f fs out))"
  by (cases out) (simp_all add: applyDebugControl_def numbered_data Let_def)

lemma numbered_step: "numbered s \<Longrightarrow> numbered (snd (stepInstruction host s))"
  by (auto simp: stepInstruction_def Let_def numbered_control
      split: option.splits list.splits PureOpcodeOutcome.splits)

lemma numbered_stops [simp]:
  "numbered (snd (requireStop reason msg bp s)) = numbered s" "numbered (enterStop reason s) = numbered s"
  by (simp_all add: requireStop_def enterStop_def)

lemma numbered_requireStop: "requireStop reason msg bp v = (r, t) \<Longrightarrow> numbered v \<Longrightarrow> numbered t"
  using numbered_stops(1) [of reason msg bp v] by simp

lemma numbered_pass:
  assumes "numbered s"
  shows "continuePass host skip s = Inl (r, t) \<Longrightarrow> numbered t"
    and "continuePass host skip s = Inr s1 \<Longrightarrow> numbered s1"
proof -
  obtain out u where step: "stepInstruction host s = (out, u)" by fastforce
  have u: "numbered u" using numbered_step [OF assms, of host] step by simp
  show "continuePass host skip s = Inl (r, t) \<Longrightarrow> numbered t"
    using assms u by (auto simp: continuePass_def step split: if_splits StepOutcome.splits dest!: numbered_requireStop)
  show "continuePass host skip s = Inr s1 \<Longrightarrow> numbered s1"
    using u by (auto simp: continuePass_def step split: if_splits StepOutcome.splits)
qed

lemma numbered_loop: "continueLoop host skip s = Some (r, t) \<Longrightarrow> numbered s \<longrightarrow> numbered t"
  by (induction rule: continueLoop_induct) (auto dest: numbered_pass)

lemma numbered_sameRun: "sameRun s t \<Longrightarrow> numbered t = numbered s"
  by (simp add: sameRun_def numbered_def)

lemma numbered_command:
  assumes "numbered s" and "debugCommand host s t"
  shows "numbered t"
  using assms(2)
proof (cases rule: debugCommand.cases)
  case (cmd_step r)
  obtain out u where step: "stepInstruction host (s\<lparr>dbgState := fst (vmDebugApplyCommand (dbgState s) Continue)\<rparr>) = (out, u)"
    by fastforce
  have "numbered u"
    using numbered_step [of "s\<lparr>dbgState := fst (vmDebugApplyCommand (dbgState s) Continue)\<rparr>" host] step assms(1) by simp
  then show ?thesis
    using cmd_step assms(1) step
    by (auto simp: debugStep_def split: if_splits StepOutcome.splits dest!: numbered_requireStop)
next
  case (cmd_continue r)
  then show ?thesis
    using assms(1)
    by (auto simp: continueExecution_def Let_def split: if_splits dest: numbered_loop dest!: numbered_requireStop)
qed (metis assms(1) numbered_sameRun quiet_commands)+

interpretation hook_numbers: transition_invariant numbered "debugCommand host" for host
  by (rule transition_invariant.intro) (rule numbered_command)

text \<open>
  C13: the hook events of a session are numbered consecutively from zero in the order they are
  delivered, whatever commands run and whichever hooks are installed, replaced or removed on
  the way.
\<close>

theorem hook_events_numbered:
  assumes "startCount m n s0 = (None, s1) \<or> startArgs m args s0 = (None, s1)" and "hookLog s0 = []"
    and "(debugCommand host)\<^sup>*\<^sup>* s1 s" and "i < length (hookLog s)"
  shows "sequenceNo (hookLog s ! i) = of_nat i"
proof -
  have "numbered s1"
    using assms(1,2)
    by (auto simp: startCount_def startArgs_def initFromModule_def Let_def vmDebugApplyCommand_def numbered_def
        split: if_splits)
  then have "numbered s" by (rule hook_numbers.run_inv [OF assms(3)])
  then have "map sequenceNo (hookLog s) ! i = map of_nat [0..<length (hookLog s)] ! i"
    by (simp add: numbered_def)
  with assms(4) show ?thesis by simp
qed

theorem hook_events_numbered_witness:
  "\<forall>(host :: unit VmHost) wd. \<exists>s1 s. startCount sampleModule 0 (setHooks \<lparr>beforeInstructionHook = True,
       afterInstructionHook = True, callPushHook = True, callPopHook = True, faultHook = True\<rparr>
       (freshSession wd)) = (None, s1)
     \<and> (debugCommand host)\<^sup>*\<^sup>* s1 s \<and> length (hookLog s) = 2 \<and> sequenceNo (hookLog s ! 1) = 1"
proof (intro allI)
  fix host :: "unit VmHost" and wd :: "unit VmWorld"
  let ?init = "setHooks \<lparr>beforeInstructionHook = True, afterInstructionHook = True, callPushHook = True,
      callPopHook = True, faultHook = True\<rparr> (freshSession wd)"
  obtain s1 where s1: "startCount sampleModule 0 ?init = (None, s1)"
    by (simp add: startCount_def initFromModule_def Let_def vmDebugApplyCommand_def)
  have f: "dbgState s1 = Paused" "dbgModule s1 = Some sampleModule" "dbgFrames s1 = [sampleFrame 0 0 False]"
    "dbgStack s1 = []" "hookLog s1 = []" "beforeInstructionHook (hooks s1)" "afterInstructionHook (hooks s1)"
    using s1 by (auto simp: startCount_def initFromModule_def Let_def vmDebugApplyCommand_def setHooks_def
        freshSession_def sampleFrame_def vmDebugLocalCount_eq)
  let ?s = "snd (debugStep host s1)"
  have run: "(debugCommand host)\<^sup>*\<^sup>* s1 ?s"
    by (rule r_into_rtranclp, rule cmd_step [of host s1 "fst (debugStep host s1)"]) simp
  have len: "length (hookLog ?s) = 2"
    using f
    by (simp add: debugStep_def requireStop_def stepInstruction_def Let_def handleVmDebugNumericOpcode_def
        step_defs applyDebugControl_def applyDebugData_def debugSwitch_def debugPushLocal_def orElseData_def
        finishStep_def emitInstructionHook_def sampleFrame_def pure_group_defs)
  have "hookLog ?init = []" by (simp add: setHooks_def freshSession_def)
  from hook_events_numbered [OF disjI1 [OF s1] this run, of 1] len
  show "\<exists>s1 s. startCount sampleModule 0 ?init = (None, s1) \<and> (debugCommand host)\<^sup>*\<^sup>* s1 s
      \<and> length (hookLog s) = 2 \<and> sequenceNo (hookLog s ! 1) = 1"
    using s1 run by auto
qed

end
