(* ===== verification/VmBreakpoints.thy ===== *)
theory VmBreakpoints
  imports VmDebug IrSamples
begin

text \<open>
  Source breakpoints: what \<^verbatim>\<open>resolveSourceBreakpoints\<close> finds. The instructions come out of the
  two nested loops in strictly increasing order, so that the final sort and unique change
  nothing, and they are exactly the instructions whose debug id a matching entry of the source
  map has.
\<close>

definition breakpointKey :: "VmResolvedSourceBreakpoint \<Rightarrow> nat \<times> nat" where
  "breakpointKey b = (rbFunctionIndex b, rbInstructionPointer b)"

lemma sorted_wrt_concat_enumerate:
  assumes "\<And>i x. sorted_wrt P (f (i, x))"
    and "\<And>i j x y a b. i < j \<Longrightarrow> a \<in> set (f (i, x)) \<Longrightarrow> b \<in> set (f (j, y)) \<Longrightarrow> P a b"
  shows "sorted_wrt P (concat (map f (List.enumerate n xs)))"
proof (induction xs arbitrary: n)
  case (Cons x xs)
  have "P a b" if a: "a \<in> set (f (n, x))" and b: "b \<in> set (concat (map f (List.enumerate (Suc n) xs)))" for a b
  proof -
    from b obtain p where "p \<in> set (List.enumerate (Suc n) xs)" "b \<in> set (f p)" by auto
    then have "n < fst p" "b \<in> set (f (fst p, snd p))" by (auto simp: in_set_enumerate_eq)
    with assms(2) a show ?thesis by blast
  qed
  then show ?case using Cons.IH [of "Suc n"] assms(1) by (simp add: sorted_wrt_append)
qed simp

lemma concat_mapI: "x \<in> set xs \<Longrightarrow> y \<in> set (f x) \<Longrightarrow> y \<in> set (concat (map f xs))"
  by auto

lemma collectBreakpoints_sorted:
  "sorted_wrt (\<lambda>a b. breakpointKey a < breakpointKey b) (collectBreakpoints m es)"
  unfolding collectBreakpoints_def
proof (rule sorted_wrt_concat_enumerate, goal_cases)
  case (1 fi f)
  show ?case unfolding prod.case
  proof (rule sorted_wrt_concat_enumerate, goal_cases)
    case (1 ip inst)
    then show ?case by (simp split: option.splits)
  next
    case (2 i j x y a b)
    then show ?case by (auto simp: breakpointKey_def split: option.splits)
  qed
next
  case (2 i j f g a b)
  then show ?case by (auto simp: breakpointKey_def split: option.splits)
qed

lemma uniqueBy_id:
  "sorted_wrt (\<lambda>a b. \<not> eq a b) xs \<Longrightarrow> uniqueBy eq xs = xs"
proof (induction xs)
  case (Cons x xs)
  have "dropWhile (eq x) xs = xs" using Cons.prems by (cases xs) auto
  with Cons show ?case by simp
qed simp

lemma resolve_collect:
  assumes "resolveSourceBreakpoints m ln col srcUnit = Inr bps"
  obtains es where "breakpointEntries m ln col srcUnit = Inr es" "bps = collectBreakpoints m es" "bps \<noteq> []" "ln \<noteq> 0"
proof -
  from assms obtain es where es: "breakpointEntries m ln col srcUnit = Inr es" "collectBreakpoints m es \<noteq> []" "ln \<noteq> 0"
    and b: "bps = uniqueBy (\<lambda>l r. rbFunctionIndex l = rbFunctionIndex r \<and> rbInstructionPointer l = rbInstructionPointer r)
      (sort_key (\<lambda>b. (rbFunctionIndex b, rbInstructionPointer b, unat (rbDebugId b))) (collectBreakpoints m es))"
    by (auto simp: resolveSourceBreakpoints_def rbind_Inr_iff Let_def split: if_splits)
  have "sorted (map (\<lambda>b. (rbFunctionIndex b, rbInstructionPointer b, unat (rbDebugId b))) (collectBreakpoints m es))"
    unfolding sorted_map
    by (rule sorted_wrt_mono_rel [OF _ collectBreakpoints_sorted]) (auto simp: breakpointKey_def)
  moreover have "sorted_wrt (\<lambda>l r. \<not> (rbFunctionIndex l = rbFunctionIndex r \<and> rbInstructionPointer l = rbInstructionPointer r))
      (collectBreakpoints m es)"
    by (rule sorted_wrt_mono_rel [OF _ collectBreakpoints_sorted]) (auto simp: breakpointKey_def)
  ultimately have "bps = collectBreakpoints m es"
    using b by (simp add: sorted_sort_id uniqueBy_id sort_key_id_if_sorted)
  then show thesis using es that by blast
qed

lemma collectBreakpoints_set:
  "breakpointKey ` set (collectBreakpoints m es) =
     {(fi, ip). fi < length (mod_functions m) \<and> ip < length (instructions (mod_functions m ! fi))
        \<and> (\<exists>e \<in> set es. sm_debugId e = debugId (instructions (mod_functions m ! fi) ! ip))}"
proof -
  have found: "sourceByDebugId es i \<noteq> None \<longleftrightarrow> (\<exists>e \<in> set es. sm_debugId e = i)" for i
    by (auto simp: sourceByDebugId_def find_None_iff)
  have "(fi, ip) \<in> breakpointKey ` set (collectBreakpoints m es) \<longleftrightarrow>
      fi < length (mod_functions m) \<and> ip < length (instructions (mod_functions m ! fi))
      \<and> sourceByDebugId es (debugId (instructions (mod_functions m ! fi) ! ip)) \<noteq> None" (is "_ \<longleftrightarrow> ?R")
    for fi ip
  proof
    assume "(fi, ip) \<in> breakpointKey ` set (collectBreakpoints m es)"
    then show ?R
      by (auto simp: collectBreakpoints_def in_set_enumerate_eq breakpointKey_def dest: sym split: option.splits)
  next
    assume R: ?R
    let ?f = "mod_functions m ! fi" and ?i = "instructions (mod_functions m ! fi) ! ip"
    from R obtain e where e: "sourceByDebugId es (debugId ?i) = Some e" by auto
    have p: "(fi, ?f) \<in> set (List.enumerate 0 (mod_functions m))"
      "(ip, ?i) \<in> set (List.enumerate 0 (instructions ?f))"
      using R by (auto simp: in_set_enumerate_eq)
    have "\<lparr>rbFunctionIndex = fi, rbInstructionPointer = ip, rbDebugId = debugId ?i,
        rbLine = line e, rbColumn = column e, rbProvenance = provenance e,
        rbSourceUnit = sourceUnit e\<rparr> \<in> set (collectBreakpoints m es)"
      unfolding collectBreakpoints_def
      by (rule concat_mapI [OF p(1)], unfold prod.case, rule concat_mapI [OF p(2)]) (simp add: e)
    then show "(fi, ip) \<in> breakpointKey ` set (collectBreakpoints m es)"
      by (force simp: breakpointKey_def)
  qed
  then have mem: "(fi, ip) \<in> breakpointKey ` set (collectBreakpoints m es) \<longleftrightarrow>
      fi < length (mod_functions m) \<and> ip < length (instructions (mod_functions m ! fi))
      \<and> (\<exists>e \<in> set es. sm_debugId e = debugId (instructions (mod_functions m ! fi) ! ip))" for fi ip
    using found by blast
  show ?thesis
  proof (rule set_eqI)
    fix p
    show "p \<in> breakpointKey ` set (collectBreakpoints m es) \<longleftrightarrow> p \<in> {(fi, ip).
        fi < length (mod_functions m) \<and> ip < length (instructions (mod_functions m ! fi))
        \<and> (\<exists>e \<in> set es. sm_debugId e = debugId (instructions (mod_functions m ! fi) ! ip))}"
      by (cases p) (simp only: mem mem_Collect_eq prod.case)
  qed
qed

text \<open>The entries a source location names.\<close>

definition namesLocation :: "u32 \<Rightarrow> u32 option \<Rightarrow> string option \<Rightarrow> IrInstructionSourceMapEntry \<Rightarrow> bool" where
  "namesLocation ln col srcUnit e \<longleftrightarrow>
     provenance e = ProvenanceCanonicalAst \<and> (srcUnit = None \<or> srcUnit = Some [] \<or> srcUnit = Some (sourceUnit e))
     \<and> line e = ln \<and> column e \<noteq> 0 \<and> (col = None \<or> col = Some (column e))"

lemma matches_unit:
  "sourceMapEntryMatchesSourceUnit e srcUnit \<longleftrightarrow>
     srcUnit = None \<or> srcUnit = Some [] \<or> srcUnit = Some (sourceUnit e)"
  by (auto simp: sourceMapEntryMatchesSourceUnit_def split: option.splits)

lemma single_column:
  assumes "length (remdups_adj (sort cols)) \<le> 1" and "c \<in> set cols"
  shows "c = hd (remdups_adj (sort cols))"
proof -
  have s: "set (remdups_adj (sort cols)) = set cols" by simp
  then obtain d where "remdups_adj (sort cols) = [d]"
    using assms by (cases "remdups_adj (sort cols)") auto
  with s assms(2) show ?thesis by auto
qed

lemma breakpointEntries_set:
  assumes "breakpointEntries m ln col srcUnit = Inr es"
  shows "set es = {e \<in> set (instructionSourceMap m). namesLocation ln col srcUnit e}"
    "col = None \<Longrightarrow> e \<in> set es \<Longrightarrow> e' \<in> set es \<Longrightarrow> column e = column e'"
proof -
  let ?ls = "lineEntries m ln srcUnit"
  have ls: "set ?ls = {e \<in> set (instructionSourceMap m). namesLocation ln None srcUnit e}"
    by (auto simp: lineEntries_def namesLocation_def matches_unit)
  have "set es = {e \<in> set (instructionSourceMap m). namesLocation ln col srcUnit e}
      \<and> (col = None \<longrightarrow> (\<forall>e \<in> set es. \<forall>e' \<in> set es. column e = column e'))"
  proof (cases col)
    case None
    let ?cols = "map column ?ls"
    define c where "c = hd (remdups_adj (sort ?cols))"
    have es: "es = [e \<leftarrow> instructionSourceMap m. provenance e = ProvenanceCanonicalAst
        \<and> sourceMapEntryMatchesSourceUnit e srcUnit \<and> line e = ln \<and> column e = c]"
      and one: "length (remdups_adj (sort ?cols)) \<le> 1" and ne: "?ls \<noteq> []"
      using assms None by (auto simp: breakpointEntries_def Let_def c_def split: if_splits)
    have all: "\<forall>e \<in> set ?ls. column e = c"
      using single_column [OF one] by (auto simp: c_def)
    obtain x where x: "x \<in> set ?ls" using ne by (cases ?ls) auto
    have "column x \<noteq> 0" using x ls by (simp add: namesLocation_def)
    with all x have "c \<noteq> 0" by simp
    then have sub: "set es \<subseteq> set ?ls"
      unfolding es ls by (auto simp: namesLocation_def matches_unit)
    moreover have "set ?ls \<subseteq> set es"
    proof
      fix e assume e: "e \<in> set ?ls"
      with all have "column e = c" by blast
      with e show "e \<in> set es" unfolding es ls by (simp add: namesLocation_def matches_unit)
    qed
    ultimately have "set es = set ?ls" by blast
    then show ?thesis using all None ls by simp
  next
    case (Some c)
    then have "es = [e \<leftarrow> ?ls. column e = c]"
      using assms by (auto simp: breakpointEntries_def Let_def split: if_splits)
    with ls Some show ?thesis by (auto simp: namesLocation_def)
  qed
  then show "set es = {e \<in> set (instructionSourceMap m). namesLocation ln col srcUnit e}"
    "col = None \<Longrightarrow> e \<in> set es \<Longrightarrow> e' \<in> set es \<Longrightarrow> column e = column e'"
    by blast+
qed

text \<open>
  C12: a source breakpoint that resolves stands for at least one instruction; the resolved list
  is in strictly increasing order of function and instruction pointer, and it holds exactly the
  instructions whose debug id belongs to an entry of the source map for the requested line,
  column and source unit that comes from the program's own syntax tree. Without a column, all
  matching entries share one.
\<close>

theorem source_breakpoints_exact:
  assumes "resolveSourceBreakpoints m ln col srcUnit = Inr bps"
  shows "bps \<noteq> [] \<and> sorted_wrt (\<lambda>a b. breakpointKey a < breakpointKey b) bps
    \<and> breakpointKey ` set bps =
        {(fi, ip). fi < length (mod_functions m) \<and> ip < length (instructions (mod_functions m ! fi))
           \<and> (\<exists>e \<in> set (instructionSourceMap m). namesLocation ln col srcUnit e
                \<and> sm_debugId e = debugId (instructions (mod_functions m ! fi) ! ip))}
    \<and> (\<forall>e \<in> set (instructionSourceMap m). \<forall>e' \<in> set (instructionSourceMap m).
         namesLocation ln col srcUnit e \<and> namesLocation ln col srcUnit e' \<longrightarrow> column e = column e')"
proof -
  obtain es where es: "breakpointEntries m ln col srcUnit = Inr es" "bps = collectBreakpoints m es" "bps \<noteq> []"
    using resolve_collect [OF assms] .
  note entries = breakpointEntries_set(1) [OF es(1)]
  have "column e = column e'" if "namesLocation ln col srcUnit e" "namesLocation ln col srcUnit e'"
    "e \<in> set (instructionSourceMap m)" "e' \<in> set (instructionSourceMap m)" for e e'
  proof (cases col)
    case None
    then show ?thesis using breakpointEntries_set(2) [OF es(1) None] that entries by blast
  next
    case (Some c)
    then show ?thesis using that(1,2) by (simp add: namesLocation_def)
  qed
  moreover have "breakpointKey ` set bps =
        {(fi, ip). fi < length (mod_functions m) \<and> ip < length (instructions (mod_functions m ! fi))
           \<and> (\<exists>e \<in> set (instructionSourceMap m). namesLocation ln col srcUnit e
                \<and> sm_debugId e = debugId (instructions (mod_functions m ! fi) ! ip))}"
    unfolding es(2) collectBreakpoints_set entries by blast
  ultimately show ?thesis
    using es(2,3) collectBreakpoints_sorted [of m es] by blast
qed

definition mappedModule :: IrModule where
  "mappedModule = sampleModule\<lparr>
     mod_functions := [sampleFunction ''main'' [\<lparr>op = PushI32, imm = 7, debugId = 5\<rparr>,
       \<lparr>op = PrintI32, imm = 0, debugId = 6\<rparr>, \<lparr>op = ReturnVoid, imm = 0, debugId = 5\<rparr>]],
     instructionSourceMap :=
       [\<lparr>sm_debugId = 5, line = 3, column = 9, provenance = ProvenanceCanonicalAst, sourceUnit = ''a.prime''\<rparr>,
        \<lparr>sm_debugId = 6, line = 4, column = 1, provenance = ProvenanceCanonicalAst, sourceUnit = ''a.prime''\<rparr>]\<rparr>"

theorem source_breakpoints_exact_witness:
  "\<exists>bps. resolveSourceBreakpoints mappedModule 3 None (Some ''a.prime'') = Inr bps
     \<and> (0, 2) \<in> breakpointKey ` set bps \<and> (0, 1) \<notin> breakpointKey ` set bps"
proof -
  obtain bps where r: "resolveSourceBreakpoints mappedModule 3 None (Some ''a.prime'') = Inr bps"
    by (simp add: resolveSourceBreakpoints_def breakpointEntries_def lineEntries_def Let_def mappedModule_def
        sourceMapEntryMatchesSourceUnit_def collectBreakpoints_def sourceByDebugId_def)
  have "breakpointKey ` set bps = {(fi, ip). fi < length (mod_functions mappedModule)
      \<and> ip < length (instructions (mod_functions mappedModule ! fi))
      \<and> (\<exists>e \<in> set (instructionSourceMap mappedModule). namesLocation 3 None (Some ''a.prime'') e
                \<and> sm_debugId e = debugId (instructions (mod_functions mappedModule ! fi) ! ip))}"
    using source_breakpoints_exact [OF r] by blast
  then have "(0, 2) \<in> breakpointKey ` set bps" "(0, 1) \<notin> breakpointKey ` set bps"
    by (simp_all add: mappedModule_def namesLocation_def)
  with r show ?thesis by blast
qed

end
