(* ===== verification/IrValidation.thy ===== *)
theory IrValidation
  imports IrSamples
begin

text \<open>
  The module validator (\<^verbatim>\<open>src/IrValidation.cpp\<close>): entry index, function names, masks and, for
  every instruction, the opcode range, the opcode tables of the targets and the immediates. A
  check that fails ends the validation with its message, as the \<^verbatim>\<open>return false\<close> of the source.
\<close>

section \<open>Targets and tables\<close>

datatype IrValidationTarget = Any | Vm | Native | Glsl | Wasm | WasmBrowser

definition MinOpcode :: u8 where "MinOpcode = opcodeValue PushI32"

definition MaxOpcode :: u8 where "MaxOpcode = opcodeValue FileWriteStringDynamic"

definition MaxGlslLocalIndex :: u64 where "MaxGlslLocalIndex = 1023"

definition MaxCallParameterCount :: u32 where "MaxCallParameterCount = 4096"

definition KnownEffectMask :: u64 where
  "KnownEffectMask = EffectIoOut OR EffectIoErr OR EffectHeapAlloc OR EffectPathSpaceNotify OR
     EffectPathSpaceInsert OR EffectPathSpaceTake OR EffectFileWrite OR
     EffectGpuDispatch OR EffectPathSpaceBind OR EffectPathSpaceSchedule OR
     EffectFileRead OR EffectTask"

definition KnownWasmWasiEffectMask :: u64 where
  "KnownWasmWasiEffectMask = EffectIoOut OR EffectIoErr OR EffectHeapAlloc OR EffectFileWrite OR EffectFileRead"

definition KnownWasmBrowserEffectMask :: u64 where "KnownWasmBrowserEffectMask = 0"

definition isWasmTarget :: "IrValidationTarget \<Rightarrow> bool" where
  "isWasmTarget target \<longleftrightarrow> target = Wasm \<or> target = WasmBrowser"

definition isGlslTarget :: "IrValidationTarget \<Rightarrow> bool" where
  "isGlslTarget target \<longleftrightarrow> target = Glsl"

definition wasmTargetName :: "IrValidationTarget \<Rightarrow> string" where
  "wasmTargetName target = (if target = WasmBrowser then ''wasm-browser'' else ''wasm'')"

definition isGlslOpcodeAllowed :: "IrOpcode \<Rightarrow> bool" where
  "isGlslOpcodeAllowed opc \<longleftrightarrow> opc \<in> set
    [PushI32, PushI64, LoadLocal, StoreLocal, AddressOfLocal, LoadIndirect, StoreIndirect, Dup,
     Pop, AddI32, SubI32, MulI32, DivI32, NegI32, AddI64, SubI64, MulI64, DivI64, DivU64,
     NegI64, CmpEqI32, CmpNeI32, CmpLtI32, CmpLeI32, CmpGtI32, CmpGeI32, CmpEqI64, CmpNeI64,
     CmpLtI64, CmpLeI64, CmpGtI64, CmpGeI64, CmpLtU64, CmpLeU64, CmpGtU64, CmpGeU64,
     JumpIfZero, Jump, ReturnVoid, ReturnI32, ReturnI64, PrintI32, PrintI64, PrintU64,
     PrintString, PushArgc, PrintArgv, PrintArgvUnsafe, LoadStringByte, LoadStringLength,
     FileOpenRead, FileOpenWrite, FileOpenAppend, FileOpenReadDynamic, FileOpenWriteDynamic,
     FileOpenAppendDynamic, FileClose, FileFlush, FileWriteI32, FileWriteI64, FileWriteU64,
     FileWriteString, FileWriteStringDynamic, FileWriteByte, FileWriteNewline, PushF32,
     PushF64, AddF32, SubF32, MulF32, DivF32, NegF32, AddF64, SubF64, MulF64, DivF64, NegF64,
     CmpEqF32, CmpNeF32, CmpLtF32, CmpLeF32, CmpGtF32, CmpGeF32, CmpEqF64, CmpNeF64, CmpLtF64,
     CmpLeF64, CmpGtF64, CmpGeF64, ConvertI32ToF32, ConvertI32ToF64, ConvertI64ToF32,
     ConvertI64ToF64, ConvertU64ToF32, ConvertU64ToF64, ConvertF32ToI32, ConvertF32ToI64,
     ConvertF32ToU64, ConvertF64ToI32, ConvertF64ToI64, ConvertF64ToU64, ConvertF32ToF64,
     ConvertF64ToF32, ReturnF32, ReturnF64, PrintStringDynamic, Call, CallVoid]"

definition isWasmOpcodeAllowedWasi :: "IrOpcode \<Rightarrow> bool" where
  "isWasmOpcodeAllowedWasi opc \<longleftrightarrow> opc \<in> set
    [PushI32, PushI64, LoadLocal, StoreLocal, Dup, Pop, AddI32, SubI32, MulI32, DivI32, NegI32,
     AddI64, SubI64, MulI64, DivI64, DivU64, NegI64, CmpEqI32, CmpNeI32, CmpLtI32, CmpLeI32,
     CmpGtI32, CmpGeI32, CmpEqI64, CmpNeI64, CmpLtI64, CmpLeI64, CmpGtI64, CmpGeI64, CmpLtU64,
     CmpLeU64, CmpGtU64, CmpGeU64, PushF32, PushF64, AddF32, SubF32, MulF32, DivF32, NegF32,
     AddF64, SubF64, MulF64, DivF64, NegF64, CmpEqF32, CmpNeF32, CmpLtF32, CmpLeF32, CmpGtF32,
     CmpGeF32, CmpEqF64, CmpNeF64, CmpLtF64, CmpLeF64, CmpGtF64, CmpGeF64, ConvertI32ToF32,
     ConvertI32ToF64, ConvertI64ToF32, ConvertI64ToF64, ConvertU64ToF32, ConvertU64ToF64,
     ConvertF32ToI32, ConvertF32ToI64, ConvertF32ToU64, ConvertF64ToI32, ConvertF64ToI64,
     ConvertF64ToU64, ConvertF32ToF64, ConvertF64ToF32, PrintI32, PrintI64, PrintU64, PushArgc,
     PrintString, PrintStringDynamic, PrintArgv, PrintArgvUnsafe, FileOpenRead, FileOpenWrite,
     FileOpenAppend, FileOpenReadDynamic, FileOpenWriteDynamic, FileOpenAppendDynamic,
     FileReadByte, FileClose, FileFlush, FileWriteI32, FileWriteI64, FileWriteU64,
     FileWriteString, FileWriteStringDynamic, FileWriteByte, FileWriteNewline, JumpIfZero,
     Jump, Call, CallVoid, ReturnVoid, ReturnI32, ReturnI64, ReturnF32, ReturnF64]"

definition isWasiOnlyOpcode :: "IrOpcode \<Rightarrow> bool" where
  "isWasiOnlyOpcode opc \<longleftrightarrow> opc \<in> set
    [PrintI32, PrintI64, PrintU64, PushArgc, PrintString, PrintStringDynamic, PrintArgv,
     PrintArgvUnsafe, FileOpenRead, FileOpenWrite, FileOpenAppend, FileOpenReadDynamic,
     FileOpenWriteDynamic, FileOpenAppendDynamic, FileReadByte, FileClose, FileFlush,
     FileWriteI32, FileWriteI64, FileWriteU64, FileWriteString, FileWriteStringDynamic,
     FileWriteByte, FileWriteNewline]"

definition isWasmOpcodeAllowedForTarget :: "IrOpcode \<Rightarrow> IrValidationTarget \<Rightarrow> bool" where
  "isWasmOpcodeAllowedForTarget opc target =
     (if \<not> isWasmOpcodeAllowedWasi opc then False
      else if target = WasmBrowser \<and> isWasiOnlyOpcode opc then False
      else True)"

section \<open>Failures\<close>

definition failFunction :: "nat \<Rightarrow> string \<Rightarrow> string \<Rightarrow> 'a result" where
  "failFunction fi fnName detail =
     Inl (''invalid IR function'' @ (if fnName \<noteq> [] then '' '' @ fnName else '' #'' @ dec_nat fi)
          @ '': '' @ detail)"

definition failInstruction :: "nat \<Rightarrow> string \<Rightarrow> nat \<Rightarrow> string \<Rightarrow> 'a result" where
  "failInstruction fi fnName ii detail =
     Inl (''invalid IR instruction '' @ dec_nat ii @ '' in ''
          @ (if fnName \<noteq> [] then fnName else ''function #'' @ dec_nat fi)
          @ '': '' @ detail)"

definition validatePrintFlags :: "nat \<Rightarrow> string \<Rightarrow> nat \<Rightarrow> u64 \<Rightarrow> unit result" where
  "validatePrintFlags fi fnName ii i =
     (if (i AND NOT PrintFlagMask) \<noteq> 0 then failInstruction fi fnName ii ''invalid print flags'' else Inr ())"

definition validateStringIndex ::
  "nat \<Rightarrow> string \<Rightarrow> nat \<Rightarrow> u64 \<Rightarrow> nat \<Rightarrow> IrValidationTarget \<Rightarrow> unit result" where
  "validateStringIndex fi fnName ii stringIndex stringCount target =
     (if unat stringIndex \<ge> stringCount then failInstruction fi fnName ii ''invalid string index''
      else if target = Native \<and> unat stringIndex > 2 ^ 32 - 1
      then failInstruction fi fnName ii ''native string index exceeds 32-bit limit''
      else Inr ())"

section \<open>One instruction\<close>

text \<open>The \<^verbatim>\<open>switch\<close> over the opcode.\<close>

definition validateImmediate ::
  "IrModule \<Rightarrow> nat \<Rightarrow> IrFunction \<Rightarrow> IrValidationTarget \<Rightarrow> nat \<Rightarrow> IrInstruction \<Rightarrow> unit result" where
  "validateImmediate m fi f target ii inst =
     (let fail = failInstruction fi (fn_name f) ii in
      if op inst = PushI64 then
        (if target = Glsl \<and> (sint (imm inst) < - (2 ^ 31) \<or> sint (imm inst) > 2 ^ 31 - 1)
         then fail ''glsl i64 literal out of i32 range'' else Inr ())
      else if op inst = JumpIfZero \<or> op inst = Jump then
        (if unat (imm inst) > length (instructions f) then fail ''invalid jump target'' else Inr ())
      else if op inst = Call \<or> op inst = CallVoid then
        (if unat (imm inst) \<ge> length (mod_functions m) then fail ''invalid call target''
         else if parameterCount (mod_functions m ! unat (imm inst)) > MaxCallParameterCount
         then fail ''call target parameter count exceeds supported limit''
         else Inr ())
      else if op inst = LoadLocal \<or> op inst = StoreLocal \<or> op inst = AddressOfLocal \<or> op inst = FileReadByte then
        (if unat (imm inst) > 2 ^ 32 - 1 then fail ''local index exceeds 32-bit limit''
         else if target = Glsl \<and> imm inst > MaxGlslLocalIndex
         then fail ''local index exceeds glsl local-slot limit''
         else Inr ())
      else if op inst = PrintI32 \<or> op inst = PrintI64 \<or> op inst = PrintU64 \<or> op inst = PrintStringDynamic
              \<or> op inst = PrintArgv \<or> op inst = PrintArgvUnsafe then
        validatePrintFlags fi (fn_name f) ii (imm inst)
      else if op inst = PrintString then
        validateStringIndex fi (fn_name f) ii (decodePrintStringIndex (imm inst)) (length (stringTable m)) target
      else if op inst = FileOpenRead \<or> op inst = FileOpenWrite \<or> op inst = FileOpenAppend
              \<or> op inst = FileWriteString \<or> op inst = LoadStringByte then
        validateStringIndex fi (fn_name f) ii (imm inst) (length (stringTable m)) target
      else Inr ())"

definition validateInstruction ::
  "IrModule \<Rightarrow> nat \<Rightarrow> IrFunction \<Rightarrow> IrValidationTarget \<Rightarrow> nat \<Rightarrow> IrInstruction \<Rightarrow> unit result" where
  "validateInstruction m fi f target ii inst =
     (if opcodeValue (op inst) < MinOpcode \<or> opcodeValue (op inst) > MaxOpcode
      then failInstruction fi (fn_name f) ii ''unsupported opcode''
      else if isWasmTarget target \<and> \<not> isWasmOpcodeAllowedForTarget (op inst) target
      then failInstruction fi (fn_name f) ii (''unsupported opcode for '' @ wasmTargetName target @ '' target'')
      else if isGlslTarget target \<and> \<not> isGlslOpcodeAllowed (op inst)
      then failInstruction fi (fn_name f) ii ''unsupported opcode for glsl target''
      else validateImmediate m fi f target ii inst)"

section \<open>Functions and modules\<close>

text \<open>A loop whose body may return an error: the first error ends it.\<close>

fun forEach :: "('a \<Rightarrow> unit result) \<Rightarrow> 'a list \<Rightarrow> unit result" where
  "forEach check [] = Inr ()"
| "forEach check (x # xs) = rbind (check x) (\<lambda>_. forEach check xs)"

definition validateFunctionHeader ::
  "nat \<Rightarrow> IrFunction \<Rightarrow> IrValidationTarget \<Rightarrow> unit result" where
  "validateFunctionHeader fi f target =
     (let fail = failFunction fi (fn_name f); meta = metadata f;
          allowedMask = (if target = WasmBrowser then KnownWasmBrowserEffectMask else KnownWasmWasiEffectMask)
      in if fn_name f = [] then fail ''empty function name''
         else if instructions f = [] then fail ''no instructions''
         else if schedulingScope meta \<noteq> SchedulingDefault then fail ''unsupported scheduling scope''
         else if (instrumentationFlags meta AND NOT InstrumentationTailExecution) \<noteq> 0
         then fail ''unsupported instrumentation flags''
         else if (effectMask meta AND NOT KnownEffectMask) \<noteq> 0 then fail ''unsupported effect mask bits''
         else if (capabilityMask meta AND NOT KnownEffectMask) \<noteq> 0
         then fail ''unsupported capability mask bits''
         else if isWasmTarget target \<and> (effectMask meta AND NOT allowedMask) \<noteq> 0
         then fail (''unsupported effect mask bits for '' @ wasmTargetName target @ '' target'')
         else if isWasmTarget target \<and> (capabilityMask meta AND NOT allowedMask) \<noteq> 0
         then fail (''unsupported capability mask bits for '' @ wasmTargetName target @ '' target'')
         else Inr ())"

definition validateFunction ::
  "IrModule \<Rightarrow> nat \<Rightarrow> IrFunction \<Rightarrow> IrValidationTarget \<Rightarrow> unit result" where
  "validateFunction m fi f target =
     rbind (validateFunctionHeader fi f target)
       (\<lambda>_. forEach (\<lambda>(ii, inst). validateInstruction m fi f target ii inst)
              (List.enumerate 0 (instructions f)))"

text \<open>The loop over the functions, with the names inserted so far.\<close>

fun validateFunctions ::
  "IrModule \<Rightarrow> IrValidationTarget \<Rightarrow> string set \<Rightarrow> (nat \<times> IrFunction) list \<Rightarrow> unit result" where
  "validateFunctions m target functionNames [] = Inr ()"
| "validateFunctions m target functionNames ((fi, f) # fs) =
     (if fn_name f \<in> functionNames then Inl (''duplicate IR function name: '' @ fn_name f)
      else
        rbind (validateFunction m fi f target)
          (\<lambda>_. validateFunctions m target (insert (fn_name f) functionNames) fs))"

definition validateIrModule :: "IrModule \<Rightarrow> IrValidationTarget \<Rightarrow> unit result" where
  "validateIrModule m target =
     (if \<not> entry_in_range m then Inl ''invalid IR entry index''
      else if target = Native \<and> length (stringTable m) > 2 ^ 32 - 1
      then Inl ''native string table exceeds 32-bit limit''
      else validateFunctions m target {} (List.enumerate 0 (mod_functions m)))"

section \<open>What validation accepts\<close>

text \<open>The declarative reading of the checks.\<close>

definition immediate_ok :: "IrModule \<Rightarrow> IrFunction \<Rightarrow> IrValidationTarget \<Rightarrow> IrInstruction \<Rightarrow> bool" where
  "immediate_ok m f target inst \<longleftrightarrow>
     (op inst = PushI64 \<and> target = Glsl \<longrightarrow> - (2 ^ 31) \<le> sint (imm inst) \<and> sint (imm inst) \<le> 2 ^ 31 - 1)
     \<and> (op inst \<in> {Jump, JumpIfZero} \<longrightarrow> unat (imm inst) \<le> length (instructions f))
     \<and> (op inst \<in> {Call, CallVoid} \<longrightarrow> unat (imm inst) < length (mod_functions m)
          \<and> parameterCount (mod_functions m ! unat (imm inst)) \<le> 4096)
     \<and> (op inst \<in> {LoadLocal, StoreLocal, AddressOfLocal, FileReadByte} \<longrightarrow>
          unat (imm inst) < 2 ^ 32 \<and> (target = Glsl \<longrightarrow> unat (imm inst) < 1024))
     \<and> (op inst \<in> {PrintI32, PrintI64, PrintU64, PrintStringDynamic, PrintArgv, PrintArgvUnsafe} \<longrightarrow>
          imm inst AND NOT PrintFlagMask = 0)
     \<and> (op inst = PrintString \<longrightarrow> unat (decodePrintStringIndex (imm inst)) < length (stringTable m)
          \<and> (target = Native \<longrightarrow> unat (decodePrintStringIndex (imm inst)) < 2 ^ 32))
     \<and> (op inst \<in> {FileOpenRead, FileOpenWrite, FileOpenAppend, FileWriteString, LoadStringByte} \<longrightarrow>
          unat (imm inst) < length (stringTable m) \<and> (target = Native \<longrightarrow> unat (imm inst) < 2 ^ 32))"

definition instruction_ok :: "IrModule \<Rightarrow> IrFunction \<Rightarrow> IrValidationTarget \<Rightarrow> IrInstruction \<Rightarrow> bool" where
  "instruction_ok m f target inst \<longleftrightarrow>
     opcodeValue (op inst) \<in> {1..112}
     \<and> (target \<in> {Wasm, WasmBrowser} \<longrightarrow> isWasmOpcodeAllowedWasi (op inst))
     \<and> (target = WasmBrowser \<longrightarrow> \<not> isWasiOnlyOpcode (op inst))
     \<and> (target = Glsl \<longrightarrow> isGlslOpcodeAllowed (op inst))
     \<and> immediate_ok m f target inst"

definition mask_ok :: "IrValidationTarget \<Rightarrow> u64 \<Rightarrow> bool" where
  "mask_ok target msk \<longleftrightarrow>
     msk AND NOT KnownEffectMask = 0
     \<and> (target = Wasm \<longrightarrow> msk AND NOT KnownWasmWasiEffectMask = 0)
     \<and> (target = WasmBrowser \<longrightarrow> msk = 0)"

definition function_ok :: "IrModule \<Rightarrow> IrValidationTarget \<Rightarrow> IrFunction \<Rightarrow> bool" where
  "function_ok m target f \<longleftrightarrow>
     fn_name f \<noteq> [] \<and> instructions f \<noteq> [] \<and> schedulingScope (metadata f) = SchedulingDefault
     \<and> instrumentationFlags (metadata f) AND NOT InstrumentationTailExecution = 0
     \<and> mask_ok target (effectMask (metadata f)) \<and> mask_ok target (capabilityMask (metadata f))
     \<and> (\<forall>inst \<in> set (instructions f). instruction_ok m f target inst)"

definition module_ok :: "IrModule \<Rightarrow> IrValidationTarget \<Rightarrow> bool" where
  "module_ok m target \<longleftrightarrow>
     entry_in_range m \<and> (target = Native \<longrightarrow> length (stringTable m) < 2 ^ 32)
     \<and> distinct (map fn_name (mod_functions m)) \<and> (\<forall>f \<in> set (mod_functions m). function_ok m target f)"

lemma fail_not_ok [simp]: "failFunction fi n d \<noteq> Inr x" "failInstruction fi n ii d \<noteq> Inr x"
  by (simp_all add: failFunction_def failInstruction_def)

lemma forEach_ok_iff: "forEach check xs = Inr () \<longleftrightarrow> (\<forall>x \<in> set xs. check x = Inr ())"
  by (induction xs) (auto simp: rbind_Inr_iff)

lemma enumerate_all: "(\<forall>p \<in> set (List.enumerate n xs). P (snd p)) \<longleftrightarrow> (\<forall>x \<in> set xs. P x)"
  by (induction xs arbitrary: n) auto

lemma validateImmediate_ok_iff: "validateImmediate m fi f target ii inst = Inr () \<longleftrightarrow> immediate_ok m f target inst"
proof (cases "\<exists>opc \<in> {PushI64, JumpIfZero, Jump, Call, CallVoid, LoadLocal, StoreLocal, AddressOfLocal,
    FileReadByte, PrintI32, PrintI64, PrintU64, PrintStringDynamic, PrintArgv, PrintArgvUnsafe, PrintString,
    FileOpenRead, FileOpenWrite, FileOpenAppend, FileWriteString, LoadStringByte}. op inst = opc")
  case True
  then show ?thesis
    by (elim bexE insertE emptyE)
      (simp_all add: validateImmediate_def immediate_ok_def Let_def validatePrintFlags_def
        validateStringIndex_def not_less not_le less_eq_Suc_le MaxCallParameterCount_def MaxGlslLocalIndex_def
        word_le_nat_alt word_less_nat_alt)
next
  case False
  then show ?thesis by (simp add: validateImmediate_def immediate_ok_def)
qed

lemma opcode_range: "\<not> (opcodeValue opc < MinOpcode \<or> opcodeValue opc > MaxOpcode) \<longleftrightarrow> opcodeValue opc \<in> {1..112}"
  by (simp add: MinOpcode_def MaxOpcode_def word_le_nat_alt word_less_nat_alt) arith

lemma validateInstruction_ok_iff:
  "validateInstruction m fi f target ii inst = Inr () \<longleftrightarrow> instruction_ok m f target inst"
proof (cases "opcodeValue (op inst) \<in> {1..112}")
  case True
  then show ?thesis
    using opcode_range [of "op inst"]
    by (cases target) (simp_all add: validateInstruction_def instruction_ok_def validateImmediate_ok_iff
        isWasmTarget_def isGlslTarget_def isWasmOpcodeAllowedForTarget_def)
next
  case False
  have "opcodeValue (op inst) < MinOpcode \<or> opcodeValue (op inst) > MaxOpcode"
    using False opcode_range [of "op inst"] by blast
  then have "validateInstruction m fi f target ii inst \<noteq> Inr ()"
    by (simp only: validateInstruction_def if_True fail_not_ok) simp
  then show ?thesis using False by (simp only: instruction_ok_def) simp
qed

lemma validateFunctionHeader_ok_iff:
  "validateFunctionHeader fi f target = Inr () \<longleftrightarrow>
     fn_name f \<noteq> [] \<and> instructions f \<noteq> [] \<and> schedulingScope (metadata f) = SchedulingDefault
     \<and> instrumentationFlags (metadata f) AND NOT InstrumentationTailExecution = 0
     \<and> mask_ok target (effectMask (metadata f)) \<and> mask_ok target (capabilityMask (metadata f))"
proof -
  have browser: "x AND NOT KnownWasmBrowserEffectMask = x" for x
    by (simp add: KnownWasmBrowserEffectMask_def)
  show ?thesis
    by (cases target) (auto simp: validateFunctionHeader_def Let_def mask_ok_def isWasmTarget_def browser)
qed

lemma validateFunction_ok_iff: "validateFunction m fi f target = Inr () \<longleftrightarrow> function_ok m target f"
proof -
  have "(\<forall>p \<in> set (List.enumerate 0 (instructions f)).
        (case p of (ii, inst) \<Rightarrow> validateInstruction m fi f target ii inst) = Inr ())
      \<longleftrightarrow> (\<forall>inst \<in> set (instructions f). instruction_ok m f target inst)"
    by (simp add: split_beta validateInstruction_ok_iff enumerate_all)
  then show ?thesis
    by (auto simp: validateFunction_def rbind_Inr_iff validateFunctionHeader_ok_iff forEach_ok_iff function_ok_def)
qed

lemma validateFunctions_ok_iff:
  "validateFunctions m target names fs = Inr () \<longleftrightarrow>
     distinct (map (fn_name \<circ> snd) fs) \<and> (\<forall>p \<in> set fs. fn_name (snd p) \<notin> names \<and> function_ok m target (snd p))"
proof (induction fs arbitrary: names)
  case (Cons p fs)
  obtain fi f where p: "p = (fi, f)" by fastforce
  show ?case
    unfolding p by (auto simp: rbind_Inr_iff validateFunction_ok_iff Cons.IH image_iff)
qed simp

section \<open>Properties\<close>

lemma validate_iff: "validateIrModule m target = Inr () \<longleftrightarrow> module_ok m target"
proof -
  have "map (fn_name \<circ> snd) (List.enumerate 0 (mod_functions m)) = map fn_name (mod_functions m)"
    by (simp only: map_map [symmetric] map_snd_enumerate)
  then show ?thesis
    by (simp add: validateIrModule_def module_ok_def validateFunctions_ok_iff enumerate_all
        [where P = "\<lambda>f. function_ok m target f"] not_less less_eq_Suc_le) linarith
qed

text \<open>
  C21: validation accepts exactly the modules whose entry index is in range, whose functions have
  distinct, non-empty names, code and known masks, and each of whose instructions has a known
  opcode the target supports and an immediate inside its bounds: jumps inside the function or
  right behind it, calls to functions of the module with at most 4096 parameters, local indices
  below \<open>2\<^sup>32\<close>, string indices inside the string table.
\<close>

theorem validation_accepts_exactly:
  "validateIrModule m target = Inr () \<longleftrightarrow> module_ok m target"
  by (rule validate_iff)

text \<open>Dropping target-specific checks: \<^term>\<open>Any\<close> and \<^term>\<open>Vm\<close> have none, WASI has fewer than the browser.\<close>

definition weaker_target :: "IrValidationTarget \<Rightarrow> IrValidationTarget \<Rightarrow> bool" where
  "weaker_target t' t \<longleftrightarrow> t' \<in> {Any, Vm} \<or> t' = Wasm \<and> t = WasmBrowser"

lemma immediate_ok_weaker:
  assumes "weaker_target t' t" "immediate_ok m f t inst"
  shows "immediate_ok m f t' inst"
proof -
  have "t' \<noteq> Glsl" "t' \<noteq> Native" using assms(1) by (auto simp: weaker_target_def)
  then show ?thesis using assms(2) by (simp add: immediate_ok_def)
qed

lemma instruction_ok_weaker:
  assumes "weaker_target t' t" "instruction_ok m f t inst"
  shows "instruction_ok m f t' inst"
  using assms immediate_ok_weaker [OF assms(1)] by (cases t') (simp_all add: instruction_ok_def weaker_target_def)

lemma mask_ok_weaker: "weaker_target t' t \<Longrightarrow> mask_ok t msk \<Longrightarrow> mask_ok t' msk"
  by (cases t') (simp_all add: mask_ok_def weaker_target_def)

lemma module_ok_weaker:
  assumes "weaker_target t' t" "module_ok m t"
  shows "module_ok m t'"
proof -
  have "function_ok m t' f" if "function_ok m t f" for f
    using that instruction_ok_weaker [OF assms(1)] mask_ok_weaker [OF assms(1)] by (simp add: function_ok_def)
  moreover have "t' \<noteq> Native" using assms(1) by (auto simp: weaker_target_def)
  ultimately show ?thesis using assms(2) by (simp add: module_ok_def)
qed

text \<open>
  C22: a module valid for any target is valid for the virtual machine and for no target in
  particular, and one valid for the browser is valid for WASI.
\<close>

theorem validation_targets_ordered:
  assumes "validateIrModule m t = Inr ()" and "weaker_target t' t"
  shows "validateIrModule m t' = Inr ()"
  using assms module_ok_weaker by (simp add: validate_iff)

lemma sampleModule_valid: "validateIrModule sampleModule t = Inr ()"
proof -
  have inst: "instruction_ok sampleModule f t inst"
    if "inst \<in> {sampleInst PushI32 40, sampleInst PushI32 2, sampleInst Call 1, sampleInst AddI32 0,
      sampleInst ReturnI32 0}" for f inst
    using that by (elim insertE emptyE)
      (simp_all add: instruction_ok_def immediate_ok_def isWasmOpcodeAllowedWasi_def isWasiOnlyOpcode_def
        isGlslOpcodeAllowed_def sampleFunction_def)
  have "function_ok sampleModule t f" if "f \<in> set (mod_functions sampleModule)" for f
    using that by (auto simp: function_ok_def mask_ok_def sampleFunction_def SchedulingDefault_def intro!: inst)
  then show ?thesis
    by (simp add: validate_iff module_ok_def) (simp add: sampleModule_def)
qed

theorem validation_targets_ordered_witness:
  "validateIrModule sampleModule WasmBrowser = Inr () \<and> validateIrModule sampleModule Wasm = Inr ()"
  using validation_targets_ordered [where m = sampleModule and t = WasmBrowser and t' = Wasm]
  by (simp add: sampleModule_valid weaker_target_def)

end
