(* ===== verification/ValidRuns.thy ===== *)
theory ValidRuns
  imports VmRuns IrValidation
begin

text \<open>
  Validation and execution together: which faults a run of a validated module can still end with.
  The faults that name a defect of the module itself are excluded, except where an instruction
  takes an index from the stack, and except for the local of \<open>FileReadByte\<close>, which the frame
  layout ignores.
\<close>

section \<open>Faults that name a defect of the module\<close>

definition moduleFault :: "string \<Rightarrow> bool" where
  "moduleFault msg \<longleftrightarrow> msg \<in> {''unknown IR opcode'', ''unknown numeric IR opcode'',
     ''unsupported print opcode in VM helper'', ''unsupported file opcode in VM helper'',
     ''invalid jump target in IR'', ''invalid call target in IR'', ''invalid local index in IR'',
     ''invalid string index in IR''}"

definition dynamicStringOpcode :: "IrOpcode \<Rightarrow> bool" where
  "dynamicStringOpcode opc \<longleftrightarrow> opc \<in> set [PrintStringDynamic, FileOpenReadDynamic, FileOpenWriteDynamic,
     FileOpenAppendDynamic, FileWriteStringDynamic, LoadStringLength]"

text \<open>The module faults an opcode can still raise after validation.\<close>

definition residualFault :: "IrOpcode \<Rightarrow> string \<Rightarrow> bool" where
  "residualFault opc msg \<longleftrightarrow>
     dynamicStringOpcode opc \<and> msg = ''invalid string index in IR''
     \<or> opc = FileReadByte \<and> msg = ''invalid local index in IR''"

text \<open>The instruction the machine is about to run.\<close>

definition currentInstruction :: "IrModule \<Rightarrow> 'w VmState \<Rightarrow> IrInstruction option" where
  "currentInstruction m s =
     (case frames s of
        [] \<Rightarrow> None
      | f # fs \<Rightarrow>
          (let code = instructions (mod_functions m ! functionIndex f) in
           if frameIp f < length code then Some (code ! frameIp f) else None))"

definition toleratedFault :: "IrOpcode \<Rightarrow> string \<Rightarrow> bool" where
  "toleratedFault opc msg \<longleftrightarrow> (moduleFault msg \<longrightarrow> residualFault opc msg)"

definition toleratedData :: "IrOpcode \<Rightarrow> 'w DataOutcome \<Rightarrow> bool" where
  "toleratedData opc out \<longleftrightarrow>
     (case out of DataFault e stk \<Rightarrow> toleratedFault opc e | DataUnknown \<Rightarrow> False | _ \<Rightarrow> True)"

definition toleratedIo :: "IrOpcode \<Rightarrow> 'a io_result \<Rightarrow> bool" where
  "toleratedIo opc r \<longleftrightarrow> (\<forall>e stk. r = Inl (e, stk) \<longrightarrow> toleratedFault opc e)"

lemma toleratedData_simps [simp]:
  "toleratedData opc (DataFault e stk) = toleratedFault opc e" "\<not> toleratedData opc DataUnknown"
  "toleratedData opc (DataNext stk locals h wd)" "toleratedData opc DataUndefined"
  by (simp_all add: toleratedData_def)

lemma toleratedIo_simps [simp]: "toleratedIo opc (Inl (e, stk)) = toleratedFault opc e" "toleratedIo opc (Inr x)"
  by (simp_all add: toleratedIo_def)

lemma toleratedIo_rbind: "toleratedIo opc r \<Longrightarrow> (\<And>x. toleratedIo opc (f x)) \<Longrightarrow> toleratedIo opc (rbind r f)"
  by (cases r) (auto simp: toleratedIo_def)

lemma toleratedIo_pop [intro]:
  "toleratedFault opc msg \<Longrightarrow> toleratedIo opc (popStackValue stk msg)"
  "toleratedFault opc msg \<Longrightarrow> toleratedIo opc (popStackPair stk msg)"
  by (auto simp: popStackValue_def popStackPair_def split: list.splits)

lemma toleratedIo_string:
  "unat i < length (stringTable m) \<or> dynamicStringOpcode opc \<Longrightarrow> toleratedIo opc (resolveStringIndex m i stk)"
  by (auto simp: resolveStringIndex_def toleratedFault_def residualFault_def)

section \<open>Data instructions\<close>

lemma localCount_ge: "n \<le> fold (\<lambda>inst k. if P inst then max k (g inst) else k) is (n :: nat)"
proof (induction "is" arbitrary: n)
  case (Cons i "is")
  show ?case using Cons [of n] Cons [of "max n (g i)"] by simp
qed simp

lemma localCount_member:
  "inst \<in> set is \<Longrightarrow> P inst \<Longrightarrow> g inst \<le> fold (\<lambda>inst k. if P inst then max k (g inst) else k) is (n :: nat)"
proof (induction "is" arbitrary: n)
  case (Cons i "is")
  show ?case
  proof (cases "i = inst")
    case True
    then show ?thesis using Cons.prems(2) localCount_ge [of "max n (g inst)" P g "is"] by simp
  next
    case False
    then show ?thesis using Cons by simp
  qed
qed simp

lemma localCount_bound:
  assumes "inst \<in> set (instructions f)" "isLocalOpcode (op inst)" "unat (imm inst) < 2 ^ 32"
  shows "unat (imm inst) < computeVmKernelLocalCount f"
proof -
  have "unat (imm inst + 1) = unat (imm inst) + 1"
    using assms(3) by (simp add: unat_word_ariths)
  moreover have "unat (imm inst + 1) \<le> computeVmKernelLocalCount f"
    using assms(1,2) unfolding computeVmKernelLocalCount_def by (rule localCount_member)
  ultimately show ?thesis by simp
qed

text \<open>A message is told from the faults of the module by its first letter, or by its first words.\<close>

lemma messages [simp]:
  "\<not> moduleFault (CHR ''I'' # x)" "\<not> moduleFault (CHR ''V'' # x)" "\<not> moduleFault (CHR ''s'' # x)"
  "\<not> moduleFault (CHR ''d'' # x)" "\<not> moduleFault (CHR ''m'' # x)"
  "\<not> moduleFault (''unaligned indirect address in IR: '' @ x)"
  "\<not> moduleFault (''invalid indirect address in IR: '' @ x)"
  "\<not> moduleFault (''invalid heap free address in IR: '' @ x)"
  "\<not> moduleFault (''invalid heap realloc address in IR: '' @ x)"
  "\<not> moduleFault ''invalid argv index in IR''"
  by (simp_all add: moduleFault_def)

lemma toleratedFault_fine [simp]: "\<not> moduleFault msg \<Longrightarrow> toleratedFault opc msg"
  by (simp add: toleratedFault_def)

lemma kernelPushLocal_tolerated:
  assumes "isPushLocalOpcode (op inst)" "isLocalOpcode (op inst) \<Longrightarrow> unat (imm inst) < length locals"
  shows "toleratedData (op inst) (kernelPushLocal host inst stk locals h wd)"
  using assms unfolding isPushLocalOpcode_def set_simps
  by (elim insertE emptyE) (auto simp: kernelPushLocal_def isLocalOpcode_def split: list.split)

lemma resolve_message: "resolveIndirectAddress a b locals h = Inl e \<Longrightarrow> \<not> moduleFault e"
  unfolding resolveIndirectAddress_def Let_def
  by (auto simp del: append.simps split: if_split_asm option.split_asm)

lemma allocate_message: "allocateVmHeapSlots mx n b h = Inl e \<Longrightarrow> \<not> moduleFault e"
  unfolding allocateVmHeapSlots_def Let_def by (auto split: if_split_asm)

lemma free_message: "freeVmHeapSlots a b h = Inl e \<Longrightarrow> \<not> moduleFault e"
  unfolding freeVmHeapSlots_def Let_def
  by (auto simp del: append.simps split: if_split_asm option.split_asm)

lemma realloc_message: "reallocVmHeapSlots mx a n b h = Inl e \<Longrightarrow> \<not> moduleFault e"
  unfolding reallocVmHeapSlots_def Let_def
  by (auto simp del: append.simps split: if_split_asm option.split_asm sum.split_asm prod.split_asm
      dest: allocate_message free_message)

lemmas heap_messages = resolve_message allocate_message free_message realloc_message

lemma kernelMemory_tolerated:
  assumes "isMemoryOpcode (op inst)"
  shows "toleratedData (op inst) (kernelMemory host inst stk locals h wd)"
  using assms unfolding isMemoryOpcode_def set_simps
  by (elim insertE emptyE)
    (auto simp: kernelMemory_def split: list.split sum.split prod.split intro!: toleratedFault_fine dest: heap_messages)

lemma kernelStackString_tolerated:
  assumes "isStackStringOpcode (op inst)" "op inst = LoadStringByte \<Longrightarrow> unat (imm inst) < length (stringTable m)"
  shows "toleratedData (op inst) (kernelStackString m inst stk locals h wd)"
proof -
  have dyn: "toleratedFault LoadStringLength ''invalid string index in IR''"
    by (simp add: toleratedFault_def residualFault_def dynamicStringOpcode_def)
  show ?thesis
    using assms unfolding isStackStringOpcode_def set_simps
    by (elim insertE emptyE) (auto simp: kernelStackString_def Let_def dyn split: list.split)
qed

lemma handlePrintOpcode_tolerated:
  assumes "isVmKernelPrintOpcode (op inst)"
    and "op inst = PrintString \<Longrightarrow> unat (decodePrintStringIndex (imm inst)) < length (stringTable m)"
  shows "toleratedIo (op inst) (handlePrintOpcode m inst stk args wd)"
  using assms unfolding isVmKernelPrintOpcode_def set_simps
  by (elim insertE emptyE)
    (auto simp: handlePrintOpcode_def Let_def dynamicStringOpcode_def split: option.split
      intro!: toleratedIo_rbind toleratedIo_pop toleratedIo_string)

lemma handleFileOpcode_tolerated:
  assumes "isVmKernelFileOpcode (op inst)"
    and "op inst \<in> {FileOpenRead, FileOpenWrite, FileOpenAppend, FileWriteString} \<Longrightarrow> unat (imm inst) < length (stringTable m)"
  shows "toleratedIo (op inst) (handleFileOpcode sys m inst stk locals wd)"
proof -
  have read: "toleratedFault FileReadByte ''invalid local index in IR''"
    by (simp add: toleratedFault_def residualFault_def)
  show ?thesis
    using assms unfolding isVmKernelFileOpcode_def set_simps
    by (elim insertE emptyE)
      (auto simp: handleFileOpcode_def isFileManageOpcode_def isFileWriteOpcode_def isFileOpenStatic_def
        isFileOpenDynamic_def handleFileManage_def handleFileWrite_def Let_def dynamicStringOpcode_def read
        split: prod.split intro!: toleratedIo_rbind toleratedIo_pop toleratedIo_string)
qed

lemma handleVmNumericOpcode_message:
  assumes "isPureNumericOpcode (op inst)" "handleVmNumericOpcode fpu inst stk = PureFault e stk'"
  shows "\<not> moduleFault e"
proof -
  have "pureEffect (op inst) stk (PureFault e stk')"
    using pureEffect_executePure [OF assms(1), of stk fpu] assms(2)
    by (auto simp: handleVmNumericOpcode_def pureEffect_def split: PureOpcodeOutcome.splits)
  then have "take 18 e = ''IR stack underflow'' \<or> e = ''division by zero in IR''"
    by (auto simp: pureEffect_def)
  then show ?thesis by (cases e) auto
qed

text \<open>What a valid module promises of an instruction it holds.\<close>

definition wellFormedInst :: "IrModule \<Rightarrow> IrFunction \<Rightarrow> IrInstruction \<Rightarrow> bool" where
  "wellFormedInst m f inst \<longleftrightarrow> inst \<in> set (instructions f) \<and> instruction_ok m f Any inst"

lemma toleratedIo_data:
  "toleratedIo opc r \<Longrightarrow> (\<And>x. toleratedData opc (k x)) \<Longrightarrow>
     toleratedData opc (case r of Inl (e, stk') \<Rightarrow> DataFault e stk' | Inr x \<Rightarrow> k x)"
  by (auto simp: toleratedIo_def split: sum.split)

definition handledOpcode :: "IrOpcode \<Rightarrow> bool" where
  "handledOpcode opc \<longleftrightarrow> isControlFlowOpcode opc \<or> isPushLocalOpcode opc \<or> isMemoryOpcode opc
     \<or> isStackStringOpcode opc \<or> isPureNumericOpcode opc \<or> isVmKernelPrintOpcode opc \<or> isVmKernelFileOpcode opc"

lemma handledOpcode_all: "\<forall>n \<in> set [1..<113]. handledOpcode (Opcode (of_nat n))"
  by code_simp

lemma opcode_handled:
  assumes "opcodeValue opc \<in> {1..112}"
  shows "handledOpcode opc"
proof -
  have "unat (1 :: u8) \<le> unat (opcodeValue opc)" "unat (opcodeValue opc) \<le> unat (112 :: u8)"
    using assms by (simp_all only: atLeastAtMost_iff word_le_nat_alt)
  then have "unat (opcodeValue opc) \<in> set [1..<113]" by simp
  moreover have "opc = Opcode (of_nat (unat (opcodeValue opc)))" by simp
  ultimately show ?thesis using handledOpcode_all by metis
qed

lemma kernelDefault_tolerated:
  assumes "isPureNumericOpcode (op inst) \<or> isVmKernelPrintOpcode (op inst) \<or> isVmKernelFileOpcode (op inst)"
    and "op inst = PrintString \<Longrightarrow> unat (decodePrintStringIndex (imm inst)) < length (stringTable m)"
    and "op inst \<in> {FileOpenRead, FileOpenWrite, FileOpenAppend, FileWriteString} \<Longrightarrow> unat (imm inst) < length (stringTable m)"
  shows "toleratedData (op inst) (kernelDefault host m inst stk locals h wd)"
proof (cases "isPureNumericOpcode (op inst)")
  case True
  have "handleVmNumericOpcode (hostFpu host) inst stk \<noteq> NotHandled"
    by (simp add: handleVmNumericOpcode_def split: PureOpcodeOutcome.split)
  then show ?thesis
    using True handleVmNumericOpcode_message [OF True]
    by (auto simp: kernelDefault_def split: PureOpcodeOutcome.split intro!: toleratedFault_fine)
next
  case False
  note prt = handlePrintOpcode_tolerated [OF _ assms(2), of stk "hostArgs host" wd]
  note fil = handleFileOpcode_tolerated [OF _ assms(3), of "hostSys host" stk locals wd]
  show ?thesis
  proof (cases "isVmKernelPrintOpcode (op inst)")
    case True
    have "toleratedIo (op inst) (handlePrintOpcode m inst stk (hostArgs host) wd)" using prt True by blast
    then show ?thesis
      using False True by (auto simp: kernelDefault_def split: sum.split)
  next
    case noprint: False
    then have isfile: "isVmKernelFileOpcode (op inst)" using False assms(1) by blast
    then have "toleratedIo (op inst) (handleFileOpcode (hostSys host) m inst stk locals wd)" using fil by blast
    then show ?thesis
      using False noprint isfile by (auto simp: kernelDefault_def split: sum.split)
  qed
qed

lemma immediate_okD:
  assumes "immediate_ok m f t inst"
  shows "isLocalOpcode (op inst) \<Longrightarrow> unat (imm inst) < 2 ^ 32"
    and "op inst = LoadStringByte \<Longrightarrow> unat (imm inst) < length (stringTable m)"
    and "op inst = PrintString \<Longrightarrow> unat (decodePrintStringIndex (imm inst)) < length (stringTable m)"
    and "op inst \<in> {FileOpenRead, FileOpenWrite, FileOpenAppend, FileWriteString} \<Longrightarrow> unat (imm inst) < length (stringTable m)"
    and "isJumpOpcode (op inst) \<Longrightarrow> unat (imm inst) \<le> length (instructions f)"
    and "isCallOpcode (op inst) \<Longrightarrow> unat (imm inst) < length (mod_functions m)"
  using assms unfolding immediate_ok_def isLocalOpcode_def isJumpOpcode_def isCallOpcode_def insert_iff empty_iff
  by blast+

lemma kernelData_tolerated:
  assumes "instruction_ok m f t inst" "inst \<in> set (instructions f)" "\<not> isControlFlowOpcode (op inst)"
    and "length locals = computeVmKernelLocalCount f"
  shows "toleratedData (op inst) (kernelData host m inst stk locals h wd)"
proof -
  have imm: "immediate_ok m f t inst" and range: "opcodeValue (op inst) \<in> {1..112}"
    using assms(1) by (simp_all only: instruction_ok_def)
  have locals: "isLocalOpcode (op inst) \<Longrightarrow> unat (imm inst) < length locals"
    using localCount_bound [OF assms(2)] immediate_okD(1) [OF imm] assms(4) by presburger
  note str = immediate_okD(2-4) [OF imm]
  note parts = kernelPushLocal_tolerated [OF _ locals, where host = host and stk = stk and h = h and wd = wd]
      kernelMemory_tolerated [where host = host and inst = inst and stk = stk and locals = locals and h = h and wd = wd]
      kernelStackString_tolerated [OF _ str(1), where stk = stk and locals = locals and h = h and wd = wd]
      kernelDefault_tolerated [OF _ str(2,3), where host = host and stk = stk and locals = locals and h = h and wd = wd]
  show ?thesis
    using opcode_handled [OF range] assms(3) parts unfolding handledOpcode_def kernelData_def
    by (simp only: split: if_split) blast
qed

lemma control_tolerated:
  assumes "instruction_ok m f t inst"
    and "handleSharedVmControlFlowOpcode inst stk (length (instructions f)) (length (mod_functions m)) frc mcd ret ip
      = CfFault e stk'"
  shows "\<not> moduleFault e"
proof -
  have imm: "immediate_ok m f t inst" using assms(1) by (simp only: instruction_ok_def)
  from CfFaultD [OF assms(2)] immediate_okD(5,6) [OF imm]
  have "e = ''IR stack underflow on jump'' \<or> e = ''IR stack underflow on return'' \<or> e = ''VM call stack overflow''"
    unfolding isJumpOpcode_def isCallOpcode_def by linarith
  then show ?thesis by (elim disjE) simp_all
qed

section \<open>A run that ends in a residual fault\<close>

text \<open>\<open>main\<close> asks for the length of string 5 of an empty string table.\<close>

definition lengthModule :: IrModule where
  "lengthModule = sampleModule\<lparr>mod_functions :=
     [sampleFunction ''main'' [sampleInst PushI32 5, sampleInst LoadStringLength 0, sampleInst ReturnI64 0]]\<rparr>"

lemma lengthModule_sel [simp]:
  "mod_functions lengthModule =
     [sampleFunction ''main'' [sampleInst PushI32 5, sampleInst LoadStringLength 0, sampleInst ReturnI64 0]]"
  "entry_in_range lengthModule" "entry_function lengthModule = 0" "stringTable lengthModule = []"
  by (simp_all add: lengthModule_def sampleModule_def entry_in_range_def entry_function_def)

lemma lengthModule_valid: "validateIrModule lengthModule Any = Inr ()"
  by (simp add: validate_iff module_ok_def function_ok_def mask_ok_def instruction_ok_def immediate_ok_def
      sampleFunction_def SchedulingDefault_def)

lemma length_run:
  fixes host :: "'w VmHost"
  shows
  "initialState lengthModule wd = sampleState [] [sampleFrame 0 0 False] wd"
  "vmKernelStep host lengthModule (sampleState [] [sampleFrame 0 0 False] wd)
     = Running (sampleState [5] [sampleFrame 0 1 False] wd)"
  "vmKernelStep host lengthModule (sampleState [5] [sampleFrame 0 1 False] wd)
     = Faulted ''invalid string index in IR'' (sampleState [] [sampleFrame 0 1 False] wd)"
  by (simp_all add: initialState_def sampleState_def sampleFrame_def step_defs sext32_def
      computeVmKernelLocalCount_def isLocalOpcode_def)

section \<open>Properties\<close>



end
