(* ===== verification/IrSerializer.thy ===== *)
theory IrSerializer
  imports IrSamples
begin

text \<open>
  The binary form of a module (\<^verbatim>\<open>src/IrSerializer.cpp\<close>). The output vector only grows at its end,
  so each append routine is modelled by the bytes it appends; the input is read front to back, so a
  reader maps the bytes from the current offset on to its result and the bytes behind it. What a
  failed call leaves in its output argument is not modelled.
\<close>

section \<open>Bytes and words\<close>

definition appendU32 :: "u32 \<Rightarrow> u8 list" where
  "appendU32 v =
     [ucast (v AND 0xFF), ucast (drop_bit 8 v AND 0xFF), ucast (drop_bit 16 v AND 0xFF),
      ucast (drop_bit 24 v AND 0xFF)]"

definition appendU64 :: "u64 \<Rightarrow> u8 list" where
  "appendU64 v =
     [ucast (v AND 0xFF), ucast (drop_bit 8 v AND 0xFF), ucast (drop_bit 16 v AND 0xFF),
      ucast (drop_bit 24 v AND 0xFF), ucast (drop_bit 32 v AND 0xFF), ucast (drop_bit 40 v AND 0xFF),
      ucast (drop_bit 48 v AND 0xFF), ucast (drop_bit 56 v AND 0xFF)]"

text \<open>A \<^verbatim>\<open>char\<close> of a string and the byte it is stored as.\<close>

definition charByte :: "char \<Rightarrow> u8" where "charByte c = of_nat (of_char c)"

definition byteChar :: "u8 \<Rightarrow> char" where "byteChar b = char_of (unat b)"

definition appendString :: "string \<Rightarrow> string \<Rightarrow> u8 list result" where
  "appendString txt errorContext =
     (if length txt > 2 ^ 32 - 1 then Inl (errorContext @ '' too long for IR serialization'')
      else Inr (appendU32 (of_nat (length txt)) @ map charByte txt))"

definition readU32 :: "u8 list \<Rightarrow> (u32 \<times> u8 list) option" where
  "readU32 bs =
     (case bs of
        b0 # b1 # b2 # b3 # rest \<Rightarrow>
          Some (ucast b0 OR push_bit 8 (ucast b1) OR push_bit 16 (ucast b2) OR push_bit 24 (ucast b3), rest)
      | _ \<Rightarrow> None)"

definition readU64 :: "u8 list \<Rightarrow> (u64 \<times> u8 list) option" where
  "readU64 bs =
     (case bs of
        b0 # b1 # b2 # b3 # b4 # b5 # b6 # b7 # rest \<Rightarrow>
          Some (ucast b0 OR push_bit 8 (ucast b1) OR push_bit 16 (ucast b2) OR push_bit 24 (ucast b3)
                OR push_bit 32 (ucast b4) OR push_bit 40 (ucast b5) OR push_bit 48 (ucast b6)
                OR push_bit 56 (ucast b7), rest)
      | _ \<Rightarrow> None)"

definition readU8 :: "u8 list \<Rightarrow> (u8 \<times> u8 list) option" where
  "readU8 bs = (case bs of [] \<Rightarrow> None | b # rest \<Rightarrow> Some (b, rest))"

text \<open>\<^verbatim>\<open>if (!read...(data, offset, x)) { error = msg; return false; }\<close>, and sequencing.\<close>

definition orFail :: "string \<Rightarrow> (u8 list \<Rightarrow> ('a \<times> u8 list) option) \<Rightarrow> u8 list \<Rightarrow> ('a \<times> u8 list) result" where
  "orFail msg r bs = (case r bs of None \<Rightarrow> Inl msg | Some p \<Rightarrow> Inr p)"

definition andThen :: "(u8 list \<Rightarrow> ('a \<times> u8 list) result) \<Rightarrow> ('a \<Rightarrow> u8 list \<Rightarrow> ('b \<times> u8 list) result)
    \<Rightarrow> u8 list \<Rightarrow> ('b \<times> u8 list) result" where
  "andThen r k bs = rbind (r bs) (\<lambda>(x, rest). k x rest)"

definition finish :: "'a \<Rightarrow> u8 list \<Rightarrow> ('a \<times> u8 list) result" where
  "finish x bs = Inr (x, bs)"

definition failWith :: "string \<Rightarrow> u8 list \<Rightarrow> ('a \<times> u8 list) result" where
  "failWith msg bs = Inl msg"

definition takeText :: "nat \<Rightarrow> u8 list \<Rightarrow> (string \<times> u8 list) option" where
  "takeText len bs = (if length bs < len then None else Some (map byteChar (take len bs), drop len bs))"

definition readString :: "string \<Rightarrow> string \<Rightarrow> u8 list \<Rightarrow> (string \<times> u8 list) result" where
  "readString truncatedLengthError truncatedTextError =
     andThen (orFail truncatedLengthError readU32) (\<lambda>len. orFail truncatedTextError (takeText (unat len)))"

text \<open>The loops: over the elements of a vector, and as often as the count just read says.\<close>

fun appendAll :: "('a \<Rightarrow> u8 list result) \<Rightarrow> 'a list \<Rightarrow> u8 list result" where
  "appendAll enc [] = Inr []"
| "appendAll enc (x # xs) = rbind (enc x) (\<lambda>b. rbind (appendAll enc xs) (\<lambda>bs. Inr (b @ bs)))"

fun readMany :: "nat \<Rightarrow> (u8 list \<Rightarrow> ('a \<times> u8 list) result) \<Rightarrow> u8 list \<Rightarrow> ('a list \<times> u8 list) result" where
  "readMany 0 r = finish []"
| "readMany (Suc n) r = andThen r (\<lambda>x. andThen (readMany n r) (\<lambda>xs. finish (x # xs)))"

definition appendCounted :: "string \<Rightarrow> ('a \<Rightarrow> u8 list result) \<Rightarrow> 'a list \<Rightarrow> u8 list result" where
  "appendCounted msg enc xs =
     (if length xs > 2 ^ 32 - 1 then Inl msg
      else rbind (appendAll enc xs) (\<lambda>bs. Inr (appendU32 (of_nat (length xs)) @ bs)))"

definition readCounted :: "string \<Rightarrow> (u8 list \<Rightarrow> ('a \<times> u8 list) result) \<Rightarrow> u8 list \<Rightarrow> ('a list \<times> u8 list) result" where
  "readCounted msg r = andThen (orFail msg readU32) (\<lambda>n. readMany (unat n) r)"

section \<open>Writing\<close>

definition serializeField :: "IrStructField \<Rightarrow> u8 list result" where
  "serializeField f =
     rbind (appendString (fld_name f) ''struct field name'') (\<lambda>nm.
     rbind (appendString (fld_envelope f) ''struct field envelope'') (\<lambda>env.
       Inr (nm @ env @ appendU32 (offsetBytes f) @ appendU32 (sizeBytes f) @ appendU32 (fld_alignmentBytes f)
         @ appendU32 (ucast (paddingKind f)) @ appendU32 (ucast (category f)) @ appendU32 (ucast (visibility f))
         @ appendU32 (if isStatic f then 1 else 0))))"

definition serializeLayout :: "IrStructLayout \<Rightarrow> u8 list result" where
  "serializeLayout l =
     rbind (appendString (lay_name l) ''struct name'') (\<lambda>nm.
     rbind (appendCounted ''too many struct fields for IR serialization'' serializeField (lay_fields l)) (\<lambda>fields.
       Inr (nm @ appendU32 (totalSizeBytes l) @ appendU32 (lay_alignmentBytes l) @ fields)))"

definition serializeSlot :: "IrLocalDebugSlot \<Rightarrow> u8 list result" where
  "serializeSlot s =
     rbind (appendString (slot_name s) ''local debug slot name'') (\<lambda>nm.
     rbind (appendString (typeName s) ''local debug slot type'') (\<lambda>tn.
       Inr (appendU32 (slotIndex s) @ nm @ tn)))"

definition serializeInstruction :: "IrInstruction \<Rightarrow> u8 list result" where
  "serializeInstruction inst =
     Inr (opcodeValue (op inst) # appendU64 (imm inst) @ appendU32 (debugId inst))"

definition serializeFunction :: "IrFunction \<Rightarrow> u8 list result" where
  "serializeFunction f =
     rbind (appendString (fn_name f) ''function name'') (\<lambda>nm.
     rbind (appendCounted ''too many local debug slots for IR serialization'' serializeSlot (localDebugSlots f)) (\<lambda>slots.
     rbind (appendCounted ''too many IR instructions'' serializeInstruction (instructions f)) (\<lambda>code.
       Inr (nm @ appendU64 (effectMask (metadata f)) @ appendU64 (capabilityMask (metadata f))
         @ appendU32 (schedulingScope (metadata f)) @ appendU32 (instrumentationFlags (metadata f))
         @ appendU32 (parameterCount f) @ slots @ code))))"

definition serializeSourceMapEntry :: "IrInstructionSourceMapEntry \<Rightarrow> u8 list result" where
  "serializeSourceMapEntry e =
     rbind (appendString (sourceUnit e) ''instruction source map source unit'') (\<lambda>su.
       Inr (appendU32 (sm_debugId e) @ appendU32 (line e) @ appendU32 (column e) @ [provenance e] @ su))"

definition serializeText :: "string \<Rightarrow> u8 list result" where
  "serializeText txt = appendString txt ''string literal''"

text \<open>The number of functions is cast to 32 bits without a check.\<close>

definition serializeIr :: "IrModule \<Rightarrow> u8 list result" where
  "serializeIr m =
     (if schemaVersion m \<noteq> IrSchemaVersion then
        Inl (''unsupported IR schema version '' @ dec_nat (unat (schemaVersion m))
             @ '' for serialization (supported '' @ dec_nat (unat IrSchemaVersion) @ '')'')
      else if \<not> entry_in_range m then Inl ''invalid IR entry index''
      else
        rbind (appendCounted ''too many strings for IR serialization'' serializeText (stringTable m)) (\<lambda>texts.
        rbind (appendCounted ''too many struct layouts for IR serialization'' serializeLayout (structLayouts m)) (\<lambda>layouts.
        rbind (appendAll serializeFunction (mod_functions m)) (\<lambda>fns.
        rbind (appendCounted ''too many IR instruction source map entries'' serializeSourceMapEntry
                 (instructionSourceMap m)) (\<lambda>smap.
          Inr (appendU32 IrSchemaMagic @ appendU32 IrSchemaVersion @ appendU32 (of_nat (length (mod_functions m)))
            @ appendU32 (entryIndex m) @ texts @ layouts @ fns @ smap))))))"

section \<open>Reading\<close>

definition deserializeField :: "u8 list \<Rightarrow> (IrStructField \<times> u8 list) result" where
  "deserializeField =
     andThen (readString ''truncated IR struct field name'' ''truncated IR struct field name'') (\<lambda>nm.
     andThen (readString ''truncated IR struct field envelope'' ''truncated IR struct field envelope'') (\<lambda>env.
     let u32 = orFail ''truncated IR struct field data'' readU32 in
     andThen u32 (\<lambda>off. andThen u32 (\<lambda>size. andThen u32 (\<lambda>algn. andThen u32 (\<lambda>pad.
     andThen u32 (\<lambda>cat. andThen u32 (\<lambda>vis. andThen u32 (\<lambda>stat.
       finish \<lparr>fld_name = nm, fld_envelope = env, offsetBytes = off, sizeBytes = size, fld_alignmentBytes = algn,
         paddingKind = ucast pad, category = ucast cat,
         visibility = (if vis = 1 then VisibilityPublic else ucast vis), isStatic = (stat \<noteq> 0)\<rparr>)))))))))"

definition deserializeLayout :: "u8 list \<Rightarrow> (IrStructLayout \<times> u8 list) result" where
  "deserializeLayout =
     andThen (readString ''truncated IR struct name'' ''truncated IR struct name'') (\<lambda>nm.
     let u32 = orFail ''truncated IR struct layout header'' readU32 in
     andThen u32 (\<lambda>total. andThen u32 (\<lambda>algn.
     andThen (readCounted ''truncated IR struct layout header'' deserializeField) (\<lambda>fields.
       finish \<lparr>lay_name = nm, totalSizeBytes = total, lay_alignmentBytes = algn, lay_fields = fields\<rparr>))))"

definition deserializeSlot :: "u8 list \<Rightarrow> (IrLocalDebugSlot \<times> u8 list) result" where
  "deserializeSlot =
     andThen (orFail ''truncated IR local debug metadata entry'' readU32) (\<lambda>idx.
     andThen (readString ''truncated IR local debug metadata entry'' ''truncated IR local debug metadata name'') (\<lambda>nm.
     andThen (readString ''truncated IR local debug metadata type length'' ''truncated IR local debug metadata type'') (\<lambda>tn.
       finish \<lparr>slotIndex = idx, slot_name = nm, typeName = tn\<rparr>)))"

definition deserializeInstruction :: "u8 list \<Rightarrow> (IrInstruction \<times> u8 list) result" where
  "deserializeInstruction =
     andThen (orFail ''truncated IR instruction'' readU8) (\<lambda>opcode.
     if opcode < opcodeValue PushI32 \<or> opcode > opcodeValue HeapRealloc then failWith ''unsupported IR opcode''
     else
       andThen (orFail ''truncated IR instruction data'' readU64) (\<lambda>im.
       andThen (orFail ''truncated IR instruction debug id'' readU32) (\<lambda>dbg.
         finish \<lparr>op = Opcode opcode, imm = im, debugId = dbg\<rparr>)))"

definition deserializeFunction :: "u8 list \<Rightarrow> (IrFunction \<times> u8 list) result" where
  "deserializeFunction =
     andThen (readString ''truncated IR function header'' ''truncated IR function name'') (\<lambda>nm.
     let u64 = orFail ''truncated IR function metadata'' readU64; u32 = orFail ''truncated IR function metadata'' readU32 in
     andThen u64 (\<lambda>eff. andThen u64 (\<lambda>cap. andThen u32 (\<lambda>scope. andThen u32 (\<lambda>instr.
     andThen (orFail ''truncated IR function parameter count'' readU32) (\<lambda>params.
     andThen (readCounted ''truncated IR local debug metadata count'' deserializeSlot) (\<lambda>slots.
     andThen (readCounted ''truncated IR instruction count'' deserializeInstruction) (\<lambda>code.
       finish \<lparr>fn_name = nm,
         metadata = \<lparr>effectMask = eff, capabilityMask = cap, schedulingScope = scope, instrumentationFlags = instr\<rparr>,
         parameterCount = params, localDebugSlots = slots, instructions = code\<rparr>))))))))"

definition deserializeSourceMapEntry :: "u8 list \<Rightarrow> (IrInstructionSourceMapEntry \<times> u8 list) result" where
  "deserializeSourceMapEntry =
     (let msg = ''truncated IR instruction source map entry'' in
      andThen (orFail msg readU32) (\<lambda>dbg. andThen (orFail msg readU32) (\<lambda>ln. andThen (orFail msg readU32) (\<lambda>col.
      andThen (orFail msg readU8) (\<lambda>prov.
      if prov > ProvenanceSyntheticIr then failWith ''unsupported IR instruction source map provenance''
      else
        andThen (readString ''truncated IR instruction source map source unit''
                   ''truncated IR instruction source map source unit'') (\<lambda>su.
          finish \<lparr>sm_debugId = dbg, line = ln, column = col, provenance = prov, sourceUnit = su\<rparr>))))))"

definition deserializeHeader :: "u8 list \<Rightarrow> ((u32 \<times> u32 \<times> u32) \<times> u8 list) result" where
  "deserializeHeader =
     andThen (orFail ''invalid IR header'' readU32) (\<lambda>magic.
     if magic \<noteq> IrSchemaMagic then failWith ''invalid IR header''
     else
       andThen (orFail ''truncated IR schema version'' readU32) (\<lambda>version.
       if version < IrSchemaMinimumSupportedVersion \<or> version > IrSchemaMaximumSupportedVersion
       then failWith (''unsupported IR schema version '' @ dec_nat (unat version) @ '' (supported ''
              @ dec_nat (unat IrSchemaMinimumSupportedVersion)
              @ (if IrSchemaMinimumSupportedVersion \<noteq> IrSchemaMaximumSupportedVersion
                 then ''..'' @ dec_nat (unat IrSchemaMaximumSupportedVersion) else [])
              @ '')'')
       else
         andThen (orFail ''truncated IR header'' readU32) (\<lambda>funcCount.
         andThen (orFail ''truncated IR header'' readU32) (\<lambda>entry. finish (version, funcCount, entry)))))"

definition readModule :: "u8 list \<Rightarrow> (IrModule \<times> u8 list) result" where
  "readModule =
     andThen deserializeHeader (\<lambda>(version, funcCount, entry).
     andThen (readCounted ''truncated IR string table''
                (readString ''truncated IR string length'' ''truncated IR string'')) (\<lambda>texts.
     andThen (readCounted ''truncated IR struct layout count'' deserializeLayout) (\<lambda>layouts.
     andThen (readMany (unat funcCount) deserializeFunction) (\<lambda>fns.
     andThen (readCounted ''truncated IR instruction source map count'' deserializeSourceMapEntry) (\<lambda>smap.
       if unat entry \<ge> length fns then failWith ''invalid IR entry index''
       else finish \<lparr>schemaVersion = version, mod_functions = fns, entryIndex = entry, stringTable = texts,
              structLayouts = layouts, instructionSourceMap = smap\<rparr>)))))"

text \<open>Bytes behind the module are ignored.\<close>

definition deserializeIr :: "u8 list \<Rightarrow> IrModule result" where
  "deserializeIr bs = rbind (readModule bs) (\<lambda>(m, rest). Inr m)"

section \<open>Words and texts round trip\<close>

lemma low_byte [simp]:
  "(ucast (v AND 0xFF) :: u8) = ucast (v :: u32)" "(ucast (w AND 0xFF) :: u8) = ucast (w :: u64)"
proof -
  have m: "(0xFF :: u32) = mask 8" "(0xFF :: u64) = mask 8" by (simp_all add: mask_eq_exp_minus_1)
  show "(ucast (v AND 0xFF) :: u8) = ucast v" "(ucast (w AND 0xFF) :: u8) = ucast w"
    unfolding m by (auto intro!: bit_word_eqI simp: bit_simps)
qed

lemma readU32_append [simp]: "readU32 (appendU32 v @ rest) = Some (v, rest)"
proof -
  have "ucast (ucast v :: u8) OR push_bit 8 (ucast (ucast (drop_bit 8 v) :: u8))
      OR push_bit 16 (ucast (ucast (drop_bit 16 v) :: u8)) OR push_bit 24 (ucast (ucast (drop_bit 24 v) :: u8)) = v"
    (is "?w = v")
  proof (rule bit_word_eqI)
    fix n assume "n < LENGTH(32)"
    then have "n < 32" by simp
    then consider "n < 8" | "8 \<le> n" "n < 16" | "16 \<le> n" "n < 24" | "24 \<le> n" "n < 32" by linarith
    then show "bit ?w n \<longleftrightarrow> bit v n" by cases (auto simp: bit_simps)
  qed
  then show ?thesis by (simp add: readU32_def appendU32_def)
qed

lemma readU64_append [simp]: "readU64 (appendU64 v @ rest) = Some (v, rest)"
proof -
  have "ucast (ucast v :: u8) OR push_bit 8 (ucast (ucast (drop_bit 8 v) :: u8))
      OR push_bit 16 (ucast (ucast (drop_bit 16 v) :: u8)) OR push_bit 24 (ucast (ucast (drop_bit 24 v) :: u8))
      OR push_bit 32 (ucast (ucast (drop_bit 32 v) :: u8)) OR push_bit 40 (ucast (ucast (drop_bit 40 v) :: u8))
      OR push_bit 48 (ucast (ucast (drop_bit 48 v) :: u8)) OR push_bit 56 (ucast (ucast (drop_bit 56 v) :: u8)) = v"
    (is "?w = v")
  proof (rule bit_word_eqI)
    fix n assume "n < LENGTH(64)"
    then have "n < 64" by simp
    then consider "n < 8" | "8 \<le> n" "n < 16" | "16 \<le> n" "n < 24" | "24 \<le> n" "n < 32"
      | "32 \<le> n" "n < 40" | "40 \<le> n" "n < 48" | "48 \<le> n" "n < 56" | "56 \<le> n" "n < 64" by linarith
    then show "bit ?w n \<longleftrightarrow> bit v n" by cases (auto simp: bit_simps)
  qed
  then show ?thesis by (simp add: readU64_def appendU64_def)
qed

lemma byteChar_charByte [simp]: "byteChar (charByte c) = c"
proof -
  have "(of_char c :: nat) < 256" by (rule nat_of_char_less_256)
  then show ?thesis by (simp add: byteChar_def charByte_def unat_of_nat)
qed

lemma readString_append:
  assumes "appendString txt ctx = Inr b"
  shows "readString m1 m2 (b @ rest) = Inr (txt, rest)"
proof -
  have len: "unat (of_nat (length txt) :: u32) = length txt" and b: "b = appendU32 (of_nat (length txt)) @ map charByte txt"
    using assms by (auto simp: appendString_def unat_of_nat split: if_splits)
  show ?thesis
    by (simp add: b readString_def andThen_def orFail_def takeText_def len o_def)
qed

section \<open>Readers\<close>

text \<open>
  A reader consumes a prefix of its input, would do the same whatever followed it, and yields only
  values with a given property.
\<close>

definition reader :: "(u8 list \<Rightarrow> ('a \<times> u8 list) result) \<Rightarrow> ('a \<Rightarrow> bool) \<Rightarrow> bool" where
  "reader r P \<longleftrightarrow>
     (\<forall>bs x rest. r bs = Inr (x, rest) \<longrightarrow>
        P x \<and> (\<exists>used. bs = used @ rest \<and> (\<forall>more. r (used @ more) = Inr (x, more))))"

lemma readerD:
  assumes "reader r P" "r bs = Inr (x, rest)"
  obtains used where "P x" "bs = used @ rest" "\<And>more. r (used @ more) = Inr (x, more)"
  using assms unfolding reader_def by blast

lemma reader_finish: "P x \<Longrightarrow> reader (finish x) P"
  by (simp add: reader_def finish_def)

lemma reader_fail: "reader (failWith msg) P"
  by (simp add: reader_def failWith_def)

lemma reader_if: "(c \<Longrightarrow> reader a P) \<Longrightarrow> (\<not> c \<Longrightarrow> reader b P) \<Longrightarrow> reader (if c then a else b) P"
  by simp

lemma reader_andThen:
  assumes r: "reader r Q" and k: "\<And>x. Q x \<Longrightarrow> reader (k x) P"
  shows "reader (andThen r k) P"
  unfolding reader_def
proof (intro allI impI)
  fix bs y rest
  assume "andThen r k bs = Inr (y, rest)"
  then obtain x mid where x: "r bs = Inr (x, mid)" and y: "k x mid = Inr (y, rest)"
    by (auto simp: andThen_def rbind_Inr_iff)
  obtain u where u: "Q x" "bs = u @ mid" "\<And>more. r (u @ more) = Inr (x, more)"
    by (rule readerD [OF r x]) blast
  obtain v where v: "P y" "mid = v @ rest" "\<And>more. k x (v @ more) = Inr (y, more)"
    by (rule readerD [OF k [OF u(1)] y]) blast
  show "P y \<and> (\<exists>used. bs = used @ rest \<and> (\<forall>more. andThen r k (used @ more) = Inr (y, more)))"
    using u v by (intro conjI exI [where x = "u @ v"]) (simp_all add: andThen_def)
qed

lemma reader_u32: "reader (orFail msg readU32) (\<lambda>_. True)"
  unfolding reader_def
proof (intro allI impI conjI TrueI)
  fix bs x rest assume "orFail msg readU32 bs = Inr (x, rest)"
  then obtain b0 b1 b2 b3 where "bs = [b0, b1, b2, b3] @ rest"
    and "x = ucast b0 OR push_bit 8 (ucast b1) OR push_bit 16 (ucast b2) OR push_bit 24 (ucast b3)"
    by (auto simp: orFail_def readU32_def split: list.splits option.splits)
  then show "\<exists>used. bs = used @ rest \<and> (\<forall>more. orFail msg readU32 (used @ more) = Inr (x, more))"
    by (intro exI [where x = "[b0, b1, b2, b3]"]) (simp add: orFail_def readU32_def)
qed

lemma reader_u64: "reader (orFail msg readU64) (\<lambda>_. True)"
  unfolding reader_def
proof (intro allI impI conjI TrueI)
  fix bs x rest assume r: "orFail msg readU64 bs = Inr (x, rest)"
  then obtain b0 b1 b2 b3 b4 b5 b6 b7 where bs: "bs = [b0, b1, b2, b3, b4, b5, b6, b7] @ rest"
    by (auto simp: orFail_def readU64_def split: list.splits option.splits)
  show "\<exists>used. bs = used @ rest \<and> (\<forall>more. orFail msg readU64 (used @ more) = Inr (x, more))"
    using r unfolding bs
    by (intro exI [where x = "[b0, b1, b2, b3, b4, b5, b6, b7]"]) (simp add: orFail_def readU64_def)
qed

lemma reader_u8: "reader (orFail msg readU8) (\<lambda>_. True)"
  unfolding reader_def by (auto simp: orFail_def readU8_def split: list.splits option.splits)

lemma reader_text: "reader (orFail msg (takeText n)) (\<lambda>t. length t = n)"
  unfolding reader_def
proof (intro allI impI)
  fix bs x rest assume "orFail msg (takeText n) bs = Inr (x, rest)"
  then have "length bs \<ge> n" "x = map byteChar (take n bs)" "rest = drop n bs"
    by (auto simp: orFail_def takeText_def split: if_splits)
  then show "length x = n \<and> (\<exists>used. bs = used @ rest \<and> (\<forall>more. orFail msg (takeText n) (used @ more) = Inr (x, more)))"
    by (intro conjI exI [where x = "take n bs"]) (simp_all add: orFail_def takeText_def min_def)
qed

definition shortText :: "string \<Rightarrow> bool" where "shortText t \<longleftrightarrow> length t < 2 ^ 32"

lemma unat_u32_less: "unat (n :: u32) < 2 ^ 32"
proof -
  have "unat n < 2 ^ LENGTH(32)" by (rule unsigned_less)
  then show ?thesis by simp
qed

lemma reader_string: "reader (readString m1 m2) shortText"
  unfolding readString_def
proof (rule reader_andThen [OF reader_u32])
  fix len :: u32
  show "reader (orFail m2 (takeText (unat len))) shortText"
    using reader_text [of m2 "unat len"] unat_u32_less [of len] by (simp add: reader_def shortText_def)
qed

lemma reader_many: "reader r P \<Longrightarrow> reader (readMany n r) (\<lambda>xs. length xs = n \<and> list_all P xs)"
proof (induction n)
  case (Suc n)
  note IH = Suc.IH [OF Suc.prems]
  show ?case
    unfolding readMany.simps
    by (rule reader_andThen [OF Suc.prems], rule reader_andThen [OF IH], rule reader_finish) simp
qed (simp add: reader_finish)

lemma reader_counted: "reader r P \<Longrightarrow> reader (readCounted msg r) (\<lambda>xs. length xs < 2 ^ 32 \<and> list_all P xs)"
  unfolding readCounted_def
proof (rule reader_andThen [OF reader_u32])
  fix n :: u32 assume "reader r P"
  from reader_many [OF this, of "unat n"]
  show "reader (readMany (unat n) r) (\<lambda>xs. length xs < 2 ^ 32 \<and> list_all P xs)"
    using unat_u32_less [of n] by (simp add: reader_def)
qed

lemma reader_weaken: "reader r P \<Longrightarrow> (\<And>x. P x \<Longrightarrow> Q x) \<Longrightarrow> reader r Q"
  unfolding reader_def by blast

lemma andThen_append: "r (b @ rest) = Inr (x, rest') \<Longrightarrow> andThen r k (b @ rest) = k x rest'"
  by (simp add: andThen_def)

section \<open>Codecs\<close>

text \<open>
  The contract of a writer \<open>enc\<close> and its reader \<open>dec\<close>: reading back what was written gives the
  value in its normal form \<open>norm\<close> when the reader accepts it (\<open>ok\<close>), and the fault \<open>err\<close> when it
  does not; what the reader accepts can be written.
\<close>

locale codec =
  fixes enc :: "'a \<Rightarrow> u8 list result" and dec :: "u8 list \<Rightarrow> ('a \<times> u8 list) result"
    and ok :: "'a \<Rightarrow> bool" and norm :: "'a \<Rightarrow> 'a" and err :: string
  assumes dec_enc: "enc x = Inr b \<Longrightarrow> dec (b @ rest) = (if ok x then Inr (norm x, rest) else Inl err)"
    and reads: "reader dec (\<lambda>x. ok x \<and> (\<exists>b. enc x = Inr b))"
begin

lemma many_dec_enc:
  "appendAll enc xs = Inr b \<Longrightarrow>
     readMany (length xs) dec (b @ rest) = (if list_all ok xs then Inr (map norm xs, rest) else Inl err)"
proof (induction xs arbitrary: b)
  case Nil
  then show ?case by (simp add: finish_def)
next
  case (Cons x xs)
  then obtain bx bs where e: "enc x = Inr bx" "appendAll enc xs = Inr bs" "b = bx @ bs"
    by (auto simp: rbind_Inr_iff)
  then show ?case using dec_enc [OF e(1), of "bs @ rest"] Cons.IH [OF e(2)]
    by (simp add: andThen_def finish_def)
qed

lemma all_encode: "list_all (\<lambda>x. ok x \<and> (\<exists>b. enc x = Inr b)) xs \<Longrightarrow> list_all ok xs \<and> (\<exists>b. appendAll enc xs = Inr b)"
  by (induction xs) auto

lemma many_reads: "reader (readMany n dec) (\<lambda>xs. length xs = n \<and> list_all ok xs \<and> (\<exists>b. appendAll enc xs = Inr b))"
  by (rule reader_weaken [OF reader_many [OF reads]]) (use all_encode in blast)

lemma counted_codec: "codec (appendCounted msg enc) (readCounted msg' dec) (list_all ok) (map norm) err"
proof
  fix xs b rest
  assume "appendCounted msg enc xs = Inr b"
  then obtain bs where b: "length xs < 2 ^ 32" "appendAll enc xs = Inr bs" "b = appendU32 (of_nat (length xs)) @ bs"
    by (auto simp: appendCounted_def rbind_Inr_iff split: if_splits)
  then have "unat (of_nat (length xs) :: u32) = length xs" by (simp add: unat_of_nat)
  then show "readCounted msg' dec (b @ rest) = (if list_all ok xs then Inr (map norm xs, rest) else Inl err)"
    using many_dec_enc [OF b(2)] b(3) by (simp add: readCounted_def andThen_def orFail_def)
next
  show "reader (readCounted msg' dec) (\<lambda>xs. list_all ok xs \<and> (\<exists>b. appendCounted msg enc xs = Inr b))"
  proof (rule reader_weaken [OF reader_counted [OF reads]])
    fix xs assume "length xs < 2 ^ 32 \<and> list_all (\<lambda>x. ok x \<and> (\<exists>b. enc x = Inr b)) xs"
    then show "list_all ok xs \<and> (\<exists>b. appendCounted msg enc xs = Inr b)"
      using all_encode [of xs] by (auto simp: appendCounted_def)
  qed
qed

end

lemma shortText_append: "shortText t \<longleftrightarrow> (\<exists>b. appendString t ctx = Inr b)"
  by (auto simp: shortText_def appendString_def)

lemma text_codec:
  "codec (\<lambda>t. appendString t ctx) (readString m1 m2) (\<lambda>_. True) (\<lambda>t. t) err"
  by (unfold_locales)
    (simp_all add: readString_append shortText_append [symmetric] reader_string)

text \<open>What reading back makes of a field: visibility 1, the retired encoding, becomes public.\<close>

definition readField :: "IrStructField \<Rightarrow> IrStructField" where
  "readField f = f\<lparr>visibility := (if visibility f = 1 then VisibilityPublic else visibility f)\<rparr>"

definition readLayout :: "IrStructLayout \<Rightarrow> IrStructLayout" where
  "readLayout l = l\<lparr>lay_fields := map readField (lay_fields l)\<rparr>"

definition readableInstruction :: "IrInstruction \<Rightarrow> bool" where
  "readableInstruction inst \<longleftrightarrow> opcodeValue (op inst) \<in> {1..111}"

definition readableEntry :: "IrInstructionSourceMapEntry \<Rightarrow> bool" where
  "readableEntry e \<longleftrightarrow> provenance e \<le> 2"

lemmas reader_rules = reader_andThen [OF reader_string] reader_andThen [OF reader_u32] reader_andThen [OF reader_u64]
  reader_andThen [OF reader_u8] reader_if reader_fail reader_finish

lemma read_back [simp]:
  "andThen (orFail m readU32) k (appendU32 v @ rest) = k v rest"
  "andThen (orFail m readU64) k64 (appendU64 w @ rest) = k64 w rest"
  "andThen (orFail m readU8) k8 (b # rest) = k8 b rest"
  "finish x rest = Inr (x, rest)" "failWith m rest = Inl m"
  by (simp_all add: andThen_def orFail_def readU8_def finish_def failWith_def)

lemma string_back:
  "appendString txt ctx = Inr b \<Longrightarrow> andThen (readString m1 m2) k (b @ rest) = k txt rest"
  by (simp add: andThen_def readString_append)

lemma rbind_total: "(\<exists>b. rbind r f = Inr b) \<longleftrightarrow> (\<exists>x. r = Inr x \<and> (\<exists>b. f x = Inr b))"
  by (auto simp: rbind_Inr_iff)

lemma u8_u32 [simp]: "(ucast (v :: u8) = (1 :: u32)) \<longleftrightarrow> v = 1" "ucast (ucast (v :: u8) :: u32) = v"
proof -
  show u: "ucast (ucast (v :: u8) :: u32) = v" by (rule bit_word_eqI) (simp add: bit_simps)
  show "(ucast v = (1 :: u32)) \<longleftrightarrow> v = 1"
  proof
    assume "ucast v = (1 :: u32)"
    then have "ucast (ucast v :: u32) = (1 :: u8)" by simp
    then show "v = 1" by (simp only: u)
  qed simp
qed

lemma field_codec: "codec serializeField deserializeField (\<lambda>_. True) readField []"
proof
  fix f b rest
  assume "serializeField f = Inr b"
  then obtain nm env where e: "appendString (fld_name f) ''struct field name'' = Inr nm"
      "appendString (fld_envelope f) ''struct field envelope'' = Inr env"
    and b: "b = nm @ env @ appendU32 (offsetBytes f) @ appendU32 (sizeBytes f) @ appendU32 (fld_alignmentBytes f)
         @ appendU32 (ucast (paddingKind f)) @ appendU32 (ucast (category f)) @ appendU32 (ucast (visibility f))
         @ appendU32 (if isStatic f then 1 else 0)"
    by (auto simp: serializeField_def rbind_Inr_iff)
  show "deserializeField (b @ rest) = (if True then Inr (readField f, rest) else Inl [])"
    by (simp add: b deserializeField_def Let_def string_back [OF e(1)] string_back [OF e(2)] readField_def)
next
  show "reader deserializeField (\<lambda>f. True \<and> (\<exists>b. serializeField f = Inr b))"
    unfolding deserializeField_def Let_def
    by (intro reader_rules)
      (auto simp: serializeField_def rbind_total shortText_append [symmetric])
qed

interpretation field: codec serializeField deserializeField "\<lambda>_. True" readField "[]"
  by (rule field_codec)

interpretation fields: codec "appendCounted ''too many struct fields for IR serialization'' serializeField"
    "readCounted ''truncated IR struct layout header'' deserializeField" "list_all (\<lambda>_. True)" "map readField" "[]"
  by (rule field.counted_codec)

lemma counted_back:
  assumes "codec (appendCounted msg enc) (readCounted msg' dec) ok norm err" "appendCounted msg enc xs = Inr b"
  shows "andThen (readCounted msg' dec) k (b @ rest) = (if ok xs then k (norm xs) rest else Inl err)"
  using codec.dec_enc [OF assms, of rest] by (simp add: andThen_def)

lemma layout_codec: "codec serializeLayout deserializeLayout (\<lambda>_. True) readLayout []"
proof
  fix l b rest
  assume "serializeLayout l = Inr b"
  then obtain nm fs where e: "appendString (lay_name l) ''struct name'' = Inr nm"
      "appendCounted ''too many struct fields for IR serialization'' serializeField (lay_fields l) = Inr fs"
    and b: "b = nm @ appendU32 (totalSizeBytes l) @ appendU32 (lay_alignmentBytes l) @ fs"
    by (auto simp: serializeLayout_def rbind_Inr_iff)
  show "deserializeLayout (b @ rest) = (if True then Inr (readLayout l, rest) else Inl [])"
    by (simp add: b deserializeLayout_def Let_def string_back [OF e(1)] counted_back [OF field.counted_codec e(2)]
        readLayout_def list_all_iff)
next
  show "reader deserializeLayout (\<lambda>l. True \<and> (\<exists>b. serializeLayout l = Inr b))"
    unfolding deserializeLayout_def Let_def
    by (intro reader_rules reader_andThen [OF fields.reads]) (auto simp: serializeLayout_def rbind_total shortText_append [symmetric])
qed

interpretation layout: codec serializeLayout deserializeLayout "\<lambda>_. True" readLayout "[]"
  by (rule layout_codec)

lemma slot_codec: "codec serializeSlot deserializeSlot (\<lambda>_. True) (\<lambda>s. s) []"
proof
  fix s b rest
  assume "serializeSlot s = Inr b"
  then obtain nm tn where e: "appendString (slot_name s) ''local debug slot name'' = Inr nm"
      "appendString (typeName s) ''local debug slot type'' = Inr tn"
    and b: "b = appendU32 (slotIndex s) @ nm @ tn"
    by (auto simp: serializeSlot_def rbind_Inr_iff)
  show "deserializeSlot (b @ rest) = (if True then Inr (s, rest) else Inl [])"
    by (simp add: b deserializeSlot_def string_back [OF e(1)] string_back [OF e(2)])
next
  show "reader deserializeSlot (\<lambda>s. True \<and> (\<exists>b. serializeSlot s = Inr b))"
    unfolding deserializeSlot_def
    by (intro reader_rules) (auto simp: serializeSlot_def rbind_total shortText_append [symmetric])
qed

interpretation slot: codec serializeSlot deserializeSlot "\<lambda>_. True" "\<lambda>s. s" "[]"
  by (rule slot_codec)

lemma opcode_guard: "opcode < opcodeValue PushI32 \<or> opcode > opcodeValue HeapRealloc \<longleftrightarrow> opcode \<notin> {1..111}"
  by (simp add: word_le_nat_alt word_less_nat_alt) arith

lemma instruction_codec:
  "codec serializeInstruction deserializeInstruction readableInstruction (\<lambda>i. i) ''unsupported IR opcode''"
proof
  fix inst b rest
  assume "serializeInstruction inst = Inr b"
  then have b: "b = opcodeValue (op inst) # appendU64 (imm inst) @ appendU32 (debugId inst)"
    by (simp add: serializeInstruction_def)
  show "deserializeInstruction (b @ rest) =
      (if readableInstruction inst then Inr (inst, rest) else Inl ''unsupported IR opcode'')"
    unfolding deserializeInstruction_def opcode_guard by (simp add: b readableInstruction_def)
next
  have "reader deserializeInstruction readableInstruction"
    unfolding deserializeInstruction_def opcode_guard by (intro reader_rules) (simp add: readableInstruction_def)
  then show "reader deserializeInstruction (\<lambda>i. readableInstruction i \<and> (\<exists>b. serializeInstruction i = Inr b))"
    by (simp add: serializeInstruction_def)
qed

interpretation instruction: codec serializeInstruction deserializeInstruction readableInstruction "\<lambda>i. i"
    "''unsupported IR opcode''"
  by (rule instruction_codec)

lemmas code_codec = instruction.counted_codec [of "''too many IR instructions''" "''truncated IR instruction count''"]
lemmas slots_codec = slot.counted_codec [of "''too many local debug slots for IR serialization''"
    "''truncated IR local debug metadata count''"]

definition readableFunction :: "IrFunction \<Rightarrow> bool" where
  "readableFunction f \<longleftrightarrow> list_all readableInstruction (instructions f)"

lemma function_codec:
  "codec serializeFunction deserializeFunction readableFunction (\<lambda>f. f) ''unsupported IR opcode''"
proof
  fix f b rest
  assume "serializeFunction f = Inr b"
  then obtain nm slots code where e: "appendString (fn_name f) ''function name'' = Inr nm"
      "appendCounted ''too many local debug slots for IR serialization'' serializeSlot (localDebugSlots f) = Inr slots"
      "appendCounted ''too many IR instructions'' serializeInstruction (instructions f) = Inr code"
    and b: "b = nm @ appendU64 (effectMask (metadata f)) @ appendU64 (capabilityMask (metadata f))
         @ appendU32 (schedulingScope (metadata f)) @ appendU32 (instrumentationFlags (metadata f))
         @ appendU32 (parameterCount f) @ slots @ code"
    by (auto simp: serializeFunction_def rbind_Inr_iff)
  show "deserializeFunction (b @ rest) =
      (if readableFunction f then Inr (f, rest) else Inl ''unsupported IR opcode'')"
    by (simp add: b deserializeFunction_def Let_def string_back [OF e(1)] counted_back [OF slots_codec e(2)]
        counted_back [OF code_codec e(3)] readableFunction_def list_all_iff)
next
  show "reader deserializeFunction (\<lambda>f. readableFunction f \<and> (\<exists>b. serializeFunction f = Inr b))"
    unfolding deserializeFunction_def Let_def
    by (intro reader_rules reader_andThen [OF codec.reads [OF slots_codec]] reader_andThen [OF codec.reads [OF code_codec]])
      (auto simp: serializeFunction_def readableFunction_def rbind_total shortText_append [symmetric])
qed

interpretation func: codec serializeFunction deserializeFunction readableFunction "\<lambda>f. f"
    "''unsupported IR opcode''"
  by (rule function_codec)

lemma entry_codec:
  "codec serializeSourceMapEntry deserializeSourceMapEntry readableEntry (\<lambda>e. e)
     ''unsupported IR instruction source map provenance''"
proof
  fix e b rest
  assume "serializeSourceMapEntry e = Inr b"
  then obtain su where a: "appendString (sourceUnit e) ''instruction source map source unit'' = Inr su"
    and b: "b = appendU32 (sm_debugId e) @ appendU32 (line e) @ appendU32 (column e) @ [provenance e] @ su"
    by (auto simp: serializeSourceMapEntry_def rbind_Inr_iff)
  show "deserializeSourceMapEntry (b @ rest) =
      (if readableEntry e then Inr (e, rest) else Inl ''unsupported IR instruction source map provenance'')"
    by (simp add: b deserializeSourceMapEntry_def Let_def string_back [OF a] readableEntry_def ProvenanceSyntheticIr_def
        linorder_not_le [symmetric])
next
  show "reader deserializeSourceMapEntry (\<lambda>e. readableEntry e \<and> (\<exists>b. serializeSourceMapEntry e = Inr b))"
    unfolding deserializeSourceMapEntry_def Let_def
    by (intro reader_rules)
      (auto simp: serializeSourceMapEntry_def readableEntry_def ProvenanceSyntheticIr_def not_less rbind_total
        shortText_append [symmetric])
qed

interpretation smap: codec serializeSourceMapEntry deserializeSourceMapEntry readableEntry "\<lambda>e. e"
    "''unsupported IR instruction source map provenance''"
  by (rule entry_codec)

lemma literal_codec:
  "codec serializeText (readString ''truncated IR string length'' ''truncated IR string'') (\<lambda>_. True) (\<lambda>t. t) []"
  using text_codec [of "''string literal''" "''truncated IR string length''" "''truncated IR string''" "[]"]
  by (simp add: serializeText_def [abs_def])

interpretation literal: codec serializeText "readString ''truncated IR string length'' ''truncated IR string''"
    "\<lambda>_. True" "\<lambda>t. t" "[]"
  by (rule literal_codec)

lemmas texts_codec = literal.counted_codec [of "''too many strings for IR serialization''" "''truncated IR string table''"]
lemmas layouts_codec = layout.counted_codec [of "''too many struct layouts for IR serialization''"
    "''truncated IR struct layout count''"]
lemmas smap_codec = smap.counted_codec [of "''too many IR instruction source map entries''"
    "''truncated IR instruction source map count''"]

section \<open>Modules\<close>

text \<open>What reading a serialized module back yields.\<close>

definition readModuleBack :: "IrModule \<Rightarrow> IrModule result" where
  "readModuleBack m =
     (if \<not> list_all readableFunction (mod_functions m) then Inl ''unsupported IR opcode''
      else if \<not> list_all readableEntry (instructionSourceMap m)
      then Inl ''unsupported IR instruction source map provenance''
      else Inr (m\<lparr>structLayouts := map readLayout (structLayouts m)\<rparr>))"

lemma many_back:
  assumes "codec enc dec ok norm err" "appendAll enc xs = Inr b" "length xs = n"
  shows "andThen (readMany n dec) k (b @ rest) = (if list_all ok xs then k (map norm xs) rest else Inl err)"
  using codec.many_dec_enc [OF assms(1,2), of rest] assms(3) by (simp add: andThen_def)

lemma versions: "IrSchemaMinimumSupportedVersion = IrSchemaVersion" "IrSchemaMaximumSupportedVersion = IrSchemaVersion"
  by (simp_all add: IrSchemaMinimumSupportedVersion_def IrSchemaMaximumSupportedVersion_def)

lemma header_back:
  "andThen deserializeHeader k (appendU32 IrSchemaMagic @ appendU32 IrSchemaVersion @ appendU32 n @ appendU32 e @ rest)
     = k (IrSchemaVersion, n, e) rest"
proof -
  have "deserializeHeader (appendU32 IrSchemaMagic @ appendU32 IrSchemaVersion @ appendU32 n @ appendU32 e @ rest)
      = Inr ((IrSchemaVersion, n, e), rest)"
    by (simp add: deserializeHeader_def versions)
  then show ?thesis by (simp add: andThen_def)
qed

lemma entry_word:
  assumes "entry_in_range m"
  shows "unat (entryIndex m) = entry_function m"
proof -
  have "0 \<le> sint (entryIndex m)" using assms by (simp add: entry_in_range_def)
  moreover have "sint (entryIndex m) < 2 ^ 32" using sint_lt [of "entryIndex m"] by simp
  ultimately have "uint (entryIndex m) = sint (entryIndex m)"
    by (simp add: uint_sint take_bit_int_eq_self)
  then show ?thesis by (metis entry_function_def nat_uint_eq)
qed

lemma readModule_serialized:
  assumes "serializeIr m = Inr bs" and "length (mod_functions m) < 2 ^ 32"
  shows "readModule (bs @ rest) = rbind (readModuleBack m) (\<lambda>m'. Inr (m', rest))"
proof -
  obtain texts layouts fns smp where v: "schemaVersion m = IrSchemaVersion" and entry: "entry_in_range m"
    and e: "appendCounted ''too many strings for IR serialization'' serializeText (stringTable m) = Inr texts"
      "appendCounted ''too many struct layouts for IR serialization'' serializeLayout (structLayouts m) = Inr layouts"
      "appendAll serializeFunction (mod_functions m) = Inr fns"
      "appendCounted ''too many IR instruction source map entries'' serializeSourceMapEntry (instructionSourceMap m) = Inr smp"
    and bs: "bs = appendU32 IrSchemaMagic @ appendU32 IrSchemaVersion @ appendU32 (of_nat (length (mod_functions m)))
            @ appendU32 (entryIndex m) @ texts @ layouts @ fns @ smp"
    using assms(1) by (auto simp: serializeIr_def rbind_Inr_iff split: if_splits)
  have n: "length (mod_functions m) = unat (of_nat (length (mod_functions m)) :: u32)"
    using assms(2) by (simp add: unat_of_nat)
  have ent: "\<not> length (mod_functions m) \<le> unat (entryIndex m)"
    using entry_word [OF entry] entry_in_rangeD [OF entry] by simp
  show ?thesis
    using ent v
    by (simp add: bs readModule_def header_back counted_back [OF texts_codec e(1)] counted_back [OF layouts_codec e(2)]
        many_back [OF function_codec e(3) n] counted_back [OF smap_codec e(4)] readModuleBack_def list_all_iff)
qed

lemma sint_small: "uint (w :: 32 word) < 2 ^ 31 \<Longrightarrow> sint w = uint w"
  unfolding sint_uint by (rule signed_take_bit_int_eq_self) (simp_all add: order_trans [OF _ uint_ge_0])

lemma entry_in_range_word:
  assumes "unat (entryIndex m) < length (mod_functions m)" "length (mod_functions m) < 2 ^ 31"
  shows "entry_in_range m"
proof -
  have "nat (uint (entryIndex m)) < nat (2 ^ 31)" using assms by simp
  then have "uint (entryIndex m) < 2 ^ 31" by (simp only: nat_less_eq_zless [OF uint_ge_0])
  then have "sint (entryIndex m) = uint (entryIndex m)" by (rule sint_small)
  then show ?thesis using assms(1) by (simp add: entry_in_range_def)
qed

definition writableModule :: "IrModule \<Rightarrow> bool" where
  "writableModule m \<longleftrightarrow> list_all readableFunction (mod_functions m) \<and> list_all readableEntry (instructionSourceMap m)
     \<and> (length (mod_functions m) < 2 ^ 31 \<longrightarrow> (\<exists>bs. serializeIr m = Inr bs))"

lemma reader_header: "reader deserializeHeader (\<lambda>p. fst p = IrSchemaVersion)"
  unfolding deserializeHeader_def versions
  by (intro reader_rules) (simp, metis linorder_neqE)

lemma writableModule_intro:
  assumes "list_all readableFunction fns" "\<exists>b. appendAll serializeFunction fns = Inr b"
    "list_all readableEntry smp" "\<exists>b. appendCounted ''too many IR instruction source map entries'' serializeSourceMapEntry smp = Inr b"
    "\<exists>b. appendCounted ''too many strings for IR serialization'' serializeText texts = Inr b"
    "\<exists>b. appendCounted ''too many struct layouts for IR serialization'' serializeLayout layouts = Inr b"
    "unat entry < length fns" "version = IrSchemaVersion"
  shows "writableModule \<lparr>schemaVersion = version, mod_functions = fns, entryIndex = entry, stringTable = texts,
    structLayouts = layouts, instructionSourceMap = smp\<rparr>"
  using assms by (auto simp: writableModule_def serializeIr_def entry_in_range_word)

lemma readModule_reads: "reader readModule writableModule"
proof -
  have body: "reader (andThen (readCounted ''truncated IR string table''
                (readString ''truncated IR string length'' ''truncated IR string'')) (\<lambda>texts.
     andThen (readCounted ''truncated IR struct layout count'' deserializeLayout) (\<lambda>layouts.
     andThen (readMany (unat n) deserializeFunction) (\<lambda>fns.
     andThen (readCounted ''truncated IR instruction source map count'' deserializeSourceMapEntry) (\<lambda>smap.
       if unat entry \<ge> length fns then failWith ''invalid IR entry index''
       else finish \<lparr>schemaVersion = v, mod_functions = fns, entryIndex = entry, stringTable = texts,
              structLayouts = layouts, instructionSourceMap = smap\<rparr>))))) writableModule"
    if "v = IrSchemaVersion" for v n entry
    by (intro reader_rules reader_andThen [OF codec.reads [OF texts_codec]]
        reader_andThen [OF codec.reads [OF layouts_codec]] reader_andThen [OF func.many_reads]
        reader_andThen [OF codec.reads [OF smap_codec]] writableModule_intro)
      (use that in simp_all)
  show ?thesis
    unfolding readModule_def
  proof (rule reader_andThen [OF reader_header], clarify)
    fix v n entry :: u32 assume "fst (v, n, entry) = IrSchemaVersion"
    then show "reader (andThen (readCounted ''truncated IR string table''
                (readString ''truncated IR string length'' ''truncated IR string'')) (\<lambda>texts.
     andThen (readCounted ''truncated IR struct layout count'' deserializeLayout) (\<lambda>layouts.
     andThen (readMany (unat n) deserializeFunction) (\<lambda>fns.
     andThen (readCounted ''truncated IR instruction source map count'' deserializeSourceMapEntry) (\<lambda>smap.
       if unat entry \<ge> length fns then failWith ''invalid IR entry index''
       else finish \<lparr>schemaVersion = v, mod_functions = fns, entryIndex = entry, stringTable = texts,
              structLayouts = layouts, instructionSourceMap = smap\<rparr>))))) writableModule"
      by (intro body) simp
  qed
qed

section \<open>The sample module\<close>

lemma sampleModule_back: "readModuleBack sampleModule = Inr sampleModule"
  by (simp add: readModuleBack_def readableFunction_def readableInstruction_def) (simp add: sampleModule_def)

lemma sampleModule_bytes: "\<exists>bs. serializeIr sampleModule = Inr bs \<and> length bs = 196"
proof -
  have e: "entry_in_range sampleModule" "schemaVersion sampleModule = IrSchemaVersion" "stringTable sampleModule = []"
    "structLayouts sampleModule = []" "instructionSourceMap sampleModule = []"
    by (simp_all add: sampleModule_def entry_in_range_def)
  show ?thesis
    by (simp add: serializeIr_def e appendCounted_def serializeFunction_def appendString_def serializeInstruction_def
        sampleFunction_def appendU32_def appendU64_def)
qed

section \<open>Properties\<close>

text \<open>
  C23: reading a serialized module back, whatever bytes follow it, yields the module, with fields of
  the retired visibility 1 made public, unless the module holds an opcode outside 1 to 111 or a
  source map entry of an unknown provenance: then it is rejected with the message of that check.
\<close>

theorem serialized_reads_back:
  assumes "serializeIr m = Inr bs" and "length (mod_functions m) < 2 ^ 32"
  shows "deserializeIr (bs @ trailing) = readModuleBack m"
  using readModule_serialized [OF assms, of trailing]
  by (cases "readModuleBack m") (simp_all add: deserializeIr_def)

theorem serialized_reads_back_witness:
  "\<exists>bs. serializeIr sampleModule = Inr bs \<and> deserializeIr (bs @ [7]) = Inr sampleModule"
proof -
  obtain bs where bs: "serializeIr sampleModule = Inr bs" using sampleModule_bytes by blast
  show ?thesis using bs serialized_reads_back [OF bs, of "[7]"] by (simp add: sampleModule_back)
qed

text \<open>
  C24: every truncation of a serialized module is detected: no proper prefix of its bytes is
  accepted as a module.
\<close>

theorem truncated_module_rejected:
  assumes "serializeIr m = Inr (front @ lost)" and "lost \<noteq> []" and "length (mod_functions m) < 2 ^ 32"
  shows "\<exists>msg. deserializeIr front = Inl msg"
proof (cases "readModule front")
  case (Inr p)
  obtain m' rest where p: "readModule front = Inr (m', rest)" using Inr by (cases p) auto
  obtain used where u: "front = used @ rest" "\<And>more. readModule (used @ more) = Inr (m', more)"
    by (rule readerD [OF readModule_reads p]) blast
  have "readModule (front @ lost) = Inr (m', rest @ lost)" using u by simp
  moreover have "readModule (front @ lost) = rbind (readModuleBack m) (\<lambda>m'. Inr (m', []))"
    using readModule_serialized [OF assms(1,3), of "[]"] by simp
  ultimately show ?thesis using assms(2) by (auto simp: rbind_Inr_iff)
qed (simp add: deserializeIr_def)

theorem truncated_module_rejected_witness:
  "\<exists>bs msg. serializeIr sampleModule = Inr bs \<and> deserializeIr (take 100 bs) = Inl msg"
proof -
  obtain bs where bs: "serializeIr sampleModule = Inr bs" "length bs = 196" using sampleModule_bytes by blast
  then have "serializeIr sampleModule = Inr (take 100 bs @ drop 100 bs)" "drop 100 bs \<noteq> []" by simp_all
  from truncated_module_rejected [OF this] bs(1) show ?thesis by auto
qed



end
