(* ===== verification/VmCode.thy ===== *)
theory VmCode
  imports VmRuns
begin

text \<open>
  Straight-line code in the execution kernel: the effect of a list of data instructions on stack,
  locals, heap and world, and the kernel steps that run it.
\<close>

section \<open>The effect of data instructions\<close>

fun runBody :: "'w VmHost \<Rightarrow> IrModule \<Rightarrow> IrInstruction list \<Rightarrow> u64 list \<Rightarrow> u64 list \<Rightarrow> VmHeap \<Rightarrow> 'w VmWorld
    \<Rightarrow> (u64 list \<times> u64 list \<times> VmHeap \<times> 'w VmWorld) option" where
  "runBody host m [] stk locals h wd = Some (stk, locals, h, wd)"
| "runBody host m (inst # rest) stk locals h wd =
     (case kernelData host m inst stk locals h wd of
        DataNext stk' locals' h' wd' \<Rightarrow> runBody host m rest stk' locals' h' wd'
      | _ \<Rightarrow> None)"

lemma stringTable_functions: "stringTable (m\<lparr>mod_functions := fns\<rparr>) = stringTable m"
  by simp

lemma kernelData_functions [simp]: "kernelData host (m\<lparr>mod_functions := fns\<rparr>) = kernelData host m"
  by (intro ext, unfold kernelData_def kernelStackString_def kernelDefault_def handlePrintOpcode_def
      handleFileOpcode_def handleFileManage_def handleFileWrite_def resolveStringIndex_def stringTable_functions)
    (rule refl)

lemma runBody_functions [simp]: "runBody host (m\<lparr>mod_functions := fns\<rparr>) code stk locals h wd = runBody host m code stk locals h wd"
  by (induction code arbitrary: stk locals h wd) (auto split: DataOutcome.split)

lemma runBody_append:
  "runBody host m (a @ b) stk locals h wd =
     (case runBody host m a stk locals h wd of None \<Rightarrow> None | Some (stk', locals', h', wd') \<Rightarrow> runBody host m b stk' locals' h' wd')"
  by (induction a arbitrary: stk locals h wd) (auto split: DataOutcome.split option.split)

section \<open>Kernel steps through straight-line code\<close>

text \<open>\<open>code\<close> is what the frame runs next.\<close>

definition runsNext :: "IrModule \<Rightarrow> VmKernelFrame \<Rightarrow> IrInstruction list \<Rightarrow> bool" where
  "runsNext m f code \<longleftrightarrow> (\<exists>rest. drop (frameIp f) (instructions (mod_functions m ! functionIndex f)) = code @ rest)"

lemma runsNext_Cons:
  assumes "runsNext m f (inst # code)"
  shows "frameIp f < length (instructions (mod_functions m ! functionIndex f))"
    and "instructions (mod_functions m ! functionIndex f) ! frameIp f = inst"
    and "runsNext m (f\<lparr>frameLocals := l, frameIp := Suc (frameIp f)\<rparr>) code"
proof -
  obtain rest where d: "drop (frameIp f) (instructions (mod_functions m ! functionIndex f)) = inst # code @ rest"
    using assms by (auto simp: runsNext_def)
  then show lt: "frameIp f < length (instructions (mod_functions m ! functionIndex f))"
    by (metis drop_all list.distinct(1) linorder_not_less)
  show "instructions (mod_functions m ! functionIndex f) ! frameIp f = inst"
    using d by (metis lt Cons_nth_drop_Suc list.inject)
  have "drop (Suc (frameIp f)) (instructions (mod_functions m ! functionIndex f)) = code @ rest"
    using d by (metis lt Cons_nth_drop_Suc list.inject)
  then show "runsNext m (f\<lparr>frameLocals := l, frameIp := Suc (frameIp f)\<rparr>) code"
    by (auto simp: runsNext_def)
qed

lemma data_step:
  assumes f: "frames s = f # fs" and code: "runsNext m f (inst # code)" and "\<not> isControlFlowOpcode (op inst)"
    and "kernelData host m inst (opStack s) (frameLocals f) (vmHeap s) (world s) = DataNext stk locals h wd"
  shows "vmKernelStep host m s = Running \<lparr>opStack = stk, frames = f\<lparr>frameLocals := locals, frameIp := Suc (frameIp f)\<rparr> # fs,
    vmHeap = h, world = wd\<rparr>"
  using runsNext_Cons(1,2) [OF code] assms(1,4) control_flow_handled_iff [THEN iffD2, OF assms(3)]
  by (simp add: vmKernelStep_def Let_def applyData_def)

lemma body_steps:
  "frames s = f # fs \<Longrightarrow> runsNext m f (code @ later) \<Longrightarrow> \<forall>inst \<in> set code. \<not> isControlFlowOpcode (op inst) \<Longrightarrow>
     runBody host m code (opStack s) (frameLocals f) (vmHeap s) (world s) = Some (stk, locals, h, wd) \<Longrightarrow>
     (kernelNext host m)\<^sup>*\<^sup>* s \<lparr>opStack = stk, frames = f\<lparr>frameLocals := locals, frameIp := frameIp f + length code\<rparr> # fs,
        vmHeap = h, world = wd\<rparr>
     \<and> runsNext m (f\<lparr>frameLocals := locals, frameIp := frameIp f + length code\<rparr>) later"
proof (induction code arbitrary: s f)
  case Nil
  then have "s = \<lparr>opStack = stk, frames = f # fs, vmHeap = h, world = wd\<rparr>" by (cases s) simp
  moreover have "f\<lparr>frameLocals := locals, frameIp := frameIp f\<rparr> = f" using Nil.prems(4) by (cases f) simp
  ultimately show ?case using Nil.prems(2) by simp
next
  case (Cons inst code)
  from Cons.prems(4) obtain stk1 locals1 h1 wd1
    where one: "kernelData host m inst (opStack s) (frameLocals f) (vmHeap s) (world s) = DataNext stk1 locals1 h1 wd1"
    and rest: "runBody host m code stk1 locals1 h1 wd1 = Some (stk, locals, h, wd)"
    by (auto split: DataOutcome.splits)
  let ?f = "f\<lparr>frameLocals := locals1, frameIp := Suc (frameIp f)\<rparr>"
  let ?s = "\<lparr>opStack = stk1, frames = ?f # fs, vmHeap = h1, world = wd1\<rparr>"
  have next1: "vmKernelStep host m s = Running ?s"
    using data_step [OF Cons.prems(1) _ _ one, of "code @ later"] Cons.prems(2,3) by simp
  have "runsNext m ?f (code @ later)" using runsNext_Cons(3) [of m f inst "code @ later"] Cons.prems(2) by simp
  from Cons.IH [of ?s ?f, OF _ this] Cons.prems(3) rest
  have "(kernelNext host m)\<^sup>*\<^sup>* ?s \<lparr>opStack = stk, frames = ?f\<lparr>frameLocals := locals, frameIp := frameIp ?f + length code\<rparr> # fs,
        vmHeap = h, world = wd\<rparr>
     \<and> runsNext m (?f\<lparr>frameLocals := locals, frameIp := frameIp ?f + length code\<rparr>) later" by simp
  then show ?case using step_run [OF next1] by simp
qed

end
