(* ===== verification/IrInliner.thy ===== *)
theory IrInliner
  imports VmKernel IrSamples
begin

text \<open>
  The inlining pass (\<^verbatim>\<open>src/IrInliner.cpp\<close>): calls of leaf functions, those without calls and
  jumps, are replaced by the callee's instructions on locals of their own, pass after pass until
  nothing changes. The state is the module's functions with the two vectors the passes keep; what a
  failed call leaves in the module is not modelled.
\<close>

section \<open>The pass\<close>

definition hasCallOpcode :: "IrFunction \<Rightarrow> bool" where
  "hasCallOpcode f \<longleftrightarrow> list_ex (\<lambda>inst. isCallOpcode (op inst)) (instructions f)"

definition hasControlFlowOpcode :: "IrFunction \<Rightarrow> bool" where
  "hasControlFlowOpcode f \<longleftrightarrow> list_ex (\<lambda>inst. isJumpOpcode (op inst)) (instructions f)"

definition computeLocalCount :: "IrFunction \<Rightarrow> u64" where
  "computeLocalCount f =
     fold (\<lambda>inst cnt. if isLocalOpcode (op inst) then max cnt (imm inst + 1) else cnt) (instructions f) 0"

definition newInstruction :: "IrOpcode \<Rightarrow> u64 \<Rightarrow> IrInstruction" where
  "newInstruction opc im = \<lparr>op = opc, imm = im, debugId = 0\<rparr>"

text \<open>The loop of \<^verbatim>\<open>appendInlinedCallee\<close>.\<close>

fun appendInlinedLoop :: "u64 \<Rightarrow> bool \<Rightarrow> IrInstruction list \<Rightarrow> IrInstruction list \<Rightarrow> IrInstruction list result" where
  "appendInlinedLoop localBase pushReturnValue [] out = Inr out"
| "appendInlinedLoop localBase pushReturnValue (inst # rest) out =
     (if isLocalOpcode (op inst) then
        (if imm inst > - 1 - localBase then Inl ''IR inlining local index overflow''
         else appendInlinedLoop localBase pushReturnValue rest (out @ [newInstruction (op inst) (imm inst + localBase)]))
      else if op inst = ReturnVoid then
        appendInlinedLoop localBase pushReturnValue rest
          (if pushReturnValue then out @ [newInstruction PushI32 0] else out)
      else if op inst = ReturnI32 \<or> op inst = ReturnI64 \<or> op inst = ReturnF32 \<or> op inst = ReturnF64 then
        appendInlinedLoop localBase pushReturnValue rest
          (if \<not> pushReturnValue then out @ [newInstruction Pop 0] else out)
      else appendInlinedLoop localBase pushReturnValue rest (out @ [inst]))"

definition appendInlinedCallee ::
  "IrFunction \<Rightarrow> u64 \<Rightarrow> bool \<Rightarrow> IrInstruction list \<Rightarrow> IrInstruction list result" where
  "appendInlinedCallee callee localBase pushReturnValue out =
     (if instructions callee = [] then Inl ''IR inlining requires callee instructions''
      else if \<not> isReturnOpcode (op (last (instructions callee)))
      then Inl ''IR inlining requires callee to end with return''
      else appendInlinedLoop localBase pushReturnValue (instructions callee) out)"

definition leafFunction :: "IrFunction \<Rightarrow> bool" where
  "leafFunction f \<longleftrightarrow>
     \<not> hasCallOpcode f \<and> \<not> hasControlFlowOpcode f \<and> instructions f \<noteq> [] \<and> isReturnOpcode (op (last (instructions f)))"

record InlineState =
  inl_functions :: "IrFunction list"
  inl_localCounts :: "u64 list"
  inl_leaf :: "bool list"

record RewriteState =
  rewritten :: "IrInstruction list"
  nextLocal :: u64
  changedFunction :: bool

text \<open>The loop over the instructions of function \<open>fi\<close>.\<close>

fun rewriteLoop :: "InlineState \<Rightarrow> nat \<Rightarrow> IrInstruction list \<Rightarrow> RewriteState \<Rightarrow> RewriteState result" where
  "rewriteLoop st fi [] r = Inr r"
| "rewriteLoop st fi (inst # rest) r =
     (if \<not> isCallOpcode (op inst) then rewriteLoop st fi rest (r\<lparr>rewritten := rewritten r @ [inst]\<rparr>)
      else if unat (imm inst) \<ge> length (inl_functions st) then
        Inl (''IR inlining encountered invalid call target '' @ dec_nat (unat (imm inst)) @ '' in ''
             @ fn_name (inl_functions st ! fi))
      else
        (let calleeIndex = unat (imm inst) in
         if calleeIndex = fi \<or> \<not> inl_leaf st ! calleeIndex
         then rewriteLoop st fi rest (r\<lparr>rewritten := rewritten r @ [inst]\<rparr>)
         else
           (case appendInlinedCallee (inl_functions st ! calleeIndex) (nextLocal r) (op inst = Call) (rewritten r) of
              Inl e \<Rightarrow> Inl (''IR inlining failed for '' @ fn_name (inl_functions st ! calleeIndex) @ '': '' @ e)
            | Inr out \<Rightarrow>
                rewriteLoop st fi rest
                  \<lparr>rewritten = out, nextLocal = nextLocal r + inl_localCounts st ! calleeIndex, changedFunction = True\<rparr>)))"

definition rewriteFunction :: "InlineState \<Rightarrow> nat \<Rightarrow> (InlineState \<times> bool) result" where
  "rewriteFunction st fi =
     (let f = inl_functions st ! fi in
      rbind (rewriteLoop st fi (instructions f)
               \<lparr>rewritten = [], nextLocal = inl_localCounts st ! fi, changedFunction = False\<rparr>) (\<lambda>r.
        if changedFunction r then
          (let f' = f\<lparr>instructions := rewritten r\<rparr> in
           Inr (st\<lparr>inl_functions := (inl_functions st)[fi := f'],
                   inl_localCounts := (inl_localCounts st)[fi := nextLocal r],
                   inl_leaf := (inl_leaf st)[fi := leafFunction f']\<rparr>, True))
        else Inr (st, False)))"

text \<open>One pass over the functions, then the passes.\<close>

fun inlinePass :: "nat list \<Rightarrow> InlineState \<Rightarrow> bool \<Rightarrow> (InlineState \<times> bool) result" where
  "inlinePass [] st changedInPass = Inr (st, changedInPass)"
| "inlinePass (fi # fis) st changedInPass =
     rbind (rewriteFunction st fi) (\<lambda>(st', changed). inlinePass fis st' (changedInPass \<or> changed))"

fun inlinePasses :: "nat \<Rightarrow> InlineState \<Rightarrow> InlineState result" where
  "inlinePasses 0 st = Inr st"
| "inlinePasses (Suc k) st =
     rbind (inlinePass [0..<length (inl_functions st)] st False)
       (\<lambda>(st', changedInPass). if \<not> changedInPass then Inr st' else inlinePasses k st')"

definition initInline :: "IrFunction list \<Rightarrow> InlineState" where
  "initInline fns = \<lparr>inl_functions = fns, inl_localCounts = map computeLocalCount fns, inl_leaf = map leafFunction fns\<rparr>"

definition inlineIrModuleCalls :: "IrModule \<Rightarrow> IrModule result" where
  "inlineIrModuleCalls m =
     (if mod_functions m = [] then Inr m
      else
        rbind (inlinePasses (length (mod_functions m) * 2 + 1) (initInline (mod_functions m)))
          (\<lambda>st. Inr (m\<lparr>mod_functions := inl_functions st\<rparr>)))"

section \<open>What a rewritten function contains\<close>

lemma leaf_no_call: "leafFunction f \<Longrightarrow> inst \<in> set (instructions f) \<Longrightarrow> \<not> isCallOpcode (op inst) \<and> \<not> isJumpOpcode (op inst)"
  by (auto simp: leafFunction_def hasCallOpcode_def hasControlFlowOpcode_def list_ex_iff)

text \<open>What the loop appends for a callee does not depend on what is there.\<close>

definition plainInst :: "IrInstruction \<Rightarrow> bool" where
  "plainInst inst \<longleftrightarrow> \<not> isCallOpcode (op inst) \<and> \<not> isJumpOpcode (op inst)"

lemma appendInlinedLoop_plain:
  assumes "appendInlinedLoop base psh is out = Inr out'" "list_all plainInst is"
  shows "\<exists>new. out' = out @ new \<and> list_all plainInst new"
  using assms
proof (induction base psh "is" out rule: appendInlinedLoop.induct)
  case (2 base psh inst rest out)
  have keep: "plainInst (newInstruction PushI32 0)" "plainInst (newInstruction Pop 0)"
    "plainInst inst \<Longrightarrow> plainInst (newInstruction (op inst) i)" for i
    by (simp_all add: plainInst_def newInstruction_def isCallOpcode_def isJumpOpcode_def)
  show ?case
    using 2 keep by (auto split: if_splits)
qed simp

lemma leafFunction_plain: "leafFunction f \<Longrightarrow> list_all plainInst (instructions f)"
  using leaf_no_call by (auto simp: list_all_iff plainInst_def)

lemma appendInlinedCallee_plain:
  assumes "appendInlinedCallee f base psh out = Inr out'" "leafFunction f"
  shows "\<exists>new. out' = out @ new \<and> list_all plainInst new"
  using assms appendInlinedLoop_plain leafFunction_plain
  by (auto simp: appendInlinedCallee_def split: if_splits)

definition leaf_flags :: "InlineState \<Rightarrow> bool" where
  "leaf_flags st \<longleftrightarrow> inl_leaf st = map leafFunction (inl_functions st)"

definition inlinable :: "InlineState \<Rightarrow> nat \<Rightarrow> IrInstruction \<Rightarrow> bool" where
  "inlinable st fi inst \<longleftrightarrow> isCallOpcode (op inst) \<and> unat (imm inst) \<noteq> fi \<and> inl_leaf st ! unat (imm inst)"

text \<open>A call that stays in the output: one of the input, in range, and not inlinable.\<close>

definition keptCall :: "InlineState \<Rightarrow> nat \<Rightarrow> IrInstruction list \<Rightarrow> IrInstruction \<Rightarrow> bool" where
  "keptCall st fi code inst \<longleftrightarrow>
     inst \<in> set code \<and> unat (imm inst) < length (inl_functions st) \<and> \<not> inlinable st fi inst"

definition rewriteResult :: "InlineState \<Rightarrow> nat \<Rightarrow> IrInstruction list \<Rightarrow> IrInstruction list \<Rightarrow> bool" where
  "rewriteResult st fi code new \<longleftrightarrow>
     (\<forall>inst \<in> set new. \<not> plainInst inst \<longrightarrow> inst \<in> set code)
     \<and> (\<forall>inst \<in> set new. isCallOpcode (op inst) \<longrightarrow> keptCall st fi code inst)
     \<and> ((\<forall>inst \<in> set code. \<not> inlinable st fi inst) \<longrightarrow> new = code)
     \<and> (code \<noteq> [] \<and> \<not> isCallOpcode (op (last code)) \<longrightarrow> new \<noteq> [] \<and> last new = last code)"

lemma rewriteResult_Nil: "rewriteResult st fi [] []"
  by (simp add: rewriteResult_def)

lemma rewriteResultD:
  assumes "rewriteResult st fi code new"
  shows "inst \<in> set new \<Longrightarrow> \<not> plainInst inst \<Longrightarrow> inst \<in> set code"
    and "inst \<in> set new \<Longrightarrow> isCallOpcode (op inst) \<Longrightarrow> keptCall st fi code inst"
    and "(\<And>inst. inst \<in> set code \<Longrightarrow> \<not> inlinable st fi inst) \<Longrightarrow> new = code"
    and "code \<noteq> [] \<Longrightarrow> \<not> isCallOpcode (op (last code)) \<Longrightarrow> new \<noteq> [] \<and> last new = last code"
  using assms unfolding rewriteResult_def by blast+

lemma keptCall_Cons: "keptCall st fi rest i \<Longrightarrow> keptCall st fi (inst # rest) i"
  by (simp add: keptCall_def)

lemma rewriteResult_keep:
  assumes r: "rewriteResult st fi rest new"
    and inst: "isCallOpcode (op inst) \<Longrightarrow> unat (imm inst) < length (inl_functions st) \<and> \<not> inlinable st fi inst"
  shows "rewriteResult st fi (inst # rest) (inst # new)"
  unfolding rewriteResult_def
proof (intro conjI ballI impI)
  fix i assume i: "i \<in> set (inst # new)"
  show "\<not> plainInst i \<Longrightarrow> i \<in> set (inst # rest)" using i rewriteResultD(1) [OF r] by auto
  show "isCallOpcode (op i) \<Longrightarrow> keptCall st fi (inst # rest) i"
    using i inst rewriteResultD(2) [OF r, of i] keptCall_Cons by (cases "i = inst") (simp_all add: keptCall_def)
next
  assume "\<forall>i \<in> set (inst # rest). \<not> inlinable st fi i"
  then show "inst # new = inst # rest" using rewriteResultD(3) [OF r] by simp
next
  assume *: "inst # rest \<noteq> [] \<and> \<not> isCallOpcode (op (last (inst # rest)))"
  show "last (inst # new) = last (inst # rest)"
  proof (cases "rest = []")
    case True
    then have "new = []" using rewriteResultD(3) [OF r] by simp
    with True show ?thesis by simp
  next
    case False
    then show ?thesis using * rewriteResultD(4) [OF r] by simp
  qed
qed simp

lemma rewriteResult_inline:
  assumes r: "rewriteResult st fi rest new" and inl: "inlinable st fi inst" and mid: "list_all plainInst mid"
  shows "rewriteResult st fi (inst # rest) (mid @ new)"
  unfolding rewriteResult_def
proof (intro conjI ballI impI)
  fix i assume i: "i \<in> set (mid @ new)"
  have m: "i \<in> set mid \<Longrightarrow> plainInst i" using mid by (simp add: list_all_iff)
  show "\<not> plainInst i \<Longrightarrow> i \<in> set (inst # rest)" using i m rewriteResultD(1) [OF r] by auto
  show "isCallOpcode (op i) \<Longrightarrow> keptCall st fi (inst # rest) i"
    using i m rewriteResultD(2) [OF r] keptCall_Cons by (auto simp: plainInst_def)
next
  assume "\<forall>i \<in> set (inst # rest). \<not> inlinable st fi i"
  then show "mid @ new = inst # rest" using inl by simp
next
  assume *: "inst # rest \<noteq> [] \<and> \<not> isCallOpcode (op (last (inst # rest)))"
  have "isCallOpcode (op inst)" using inl by (simp add: inlinable_def)
  then have "rest \<noteq> []" using * by (cases rest) auto
  moreover then have "\<not> isCallOpcode (op (last rest))" using * by simp
  ultimately have "rest \<noteq> []" "\<not> isCallOpcode (op (last rest))" .
  then have n: "new \<noteq> []" "last new = last rest" using rewriteResultD(4) [OF r] by simp_all
  then show "mid @ new \<noteq> []" "last (mid @ new) = last (inst # rest)" using \<open>rest \<noteq> []\<close> by simp_all
qed

lemma rewriteLoop_result:
  assumes "leaf_flags st"
  shows "rewriteLoop st fi code r = Inr r' \<Longrightarrow>
     (\<exists>new. rewritten r' = rewritten r @ new \<and> rewriteResult st fi code new)
     \<and> (changedFunction r' \<longleftrightarrow> changedFunction r \<or> (\<exists>inst \<in> set code. inlinable st fi inst))"
proof (induction code arbitrary: r)
  case Nil
  then show ?case by (simp add: rewriteResult_Nil)
next
  case (Cons inst rest)
  show ?case
  proof (cases "isCallOpcode (op inst)")
    case False
    then have "rewriteLoop st fi rest (r\<lparr>rewritten := rewritten r @ [inst]\<rparr>) = Inr r'" using Cons.prems by simp
    from Cons.IH [OF this] obtain new where new: "rewritten r' = rewritten r @ inst # new" "rewriteResult st fi rest new"
      "changedFunction r' \<longleftrightarrow> changedFunction r \<or> (\<exists>inst \<in> set rest. inlinable st fi inst)" by auto
    show ?thesis
      using new rewriteResult_keep [OF new(2), of inst] False
      by (intro conjI exI [where x = "inst # new"]) (simp_all add: inlinable_def)
  next
    case call: True
    then have t: "unat (imm inst) < length (inl_functions st)" using Cons.prems by (auto split: if_splits)
    show ?thesis
    proof (cases "inlinable st fi inst")
      case False
      then have "rewriteLoop st fi rest (r\<lparr>rewritten := rewritten r @ [inst]\<rparr>) = Inr r'"
        using Cons.prems call t by (auto simp: inlinable_def Let_def)
      from Cons.IH [OF this] obtain new where new: "rewritten r' = rewritten r @ inst # new" "rewriteResult st fi rest new"
        "changedFunction r' \<longleftrightarrow> changedFunction r \<or> (\<exists>inst \<in> set rest. inlinable st fi inst)" by auto
      show ?thesis
        using new rewriteResult_keep [OF new(2), of inst] False t
        by (intro conjI exI [where x = "inst # new"]) simp_all
    next
      case True
      let ?callee = "inl_functions st ! unat (imm inst)"
      from True have g: "unat (imm inst) \<noteq> fi" "inl_leaf st ! unat (imm inst)" by (simp_all add: inlinable_def)
      obtain out where out: "appendInlinedCallee ?callee (nextLocal r) (op inst = Call) (rewritten r) = Inr out"
        and run: "rewriteLoop st fi rest \<lparr>rewritten = out, nextLocal = nextLocal r + inl_localCounts st ! unat (imm inst),
            changedFunction = True\<rparr> = Inr r'"
        using Cons.prems call t g by (auto simp: Let_def split: sum.splits)
      have "leafFunction ?callee" using g(2) t assms by (simp add: leaf_flags_def)
      from appendInlinedCallee_plain [OF out this] obtain mid where mid: "out = rewritten r @ mid" "list_all plainInst mid"
        by blast
      from Cons.IH [OF run] obtain new where new: "rewritten r' = out @ new" "rewriteResult st fi rest new"
        "changedFunction r'" by auto
      show ?thesis
        using new mid rewriteResult_inline [OF new(2) True mid(2)] True
        by (intro conjI exI [where x = "mid @ new"]) auto
    qed
  qed
qed

section \<open>Passes\<close>

definition leafSet :: "InlineState \<Rightarrow> nat set" where
  "leafSet st = {i. i < length (inl_functions st) \<and> leafFunction (inl_functions st ! i)}"

text \<open>Function \<open>fi\<close> has only calls in range, and none to a function of \<open>L\<close>.\<close>

definition cleanFor :: "nat set \<Rightarrow> InlineState \<Rightarrow> nat \<Rightarrow> bool" where
  "cleanFor L st fi \<longleftrightarrow>
     (\<forall>inst \<in> set (instructions (inl_functions st ! fi)).
        isCallOpcode (op inst) \<longrightarrow> unat (imm inst) < length (inl_functions st) \<and> unat (imm inst) \<notin> L)"

text \<open>What a rewriting keeps of a function: everything but the code, and in the code the jumps, the
  instructions that are no plain ones, and the last instruction when it is no call.\<close>

definition rewrittenFrom :: "IrFunction \<Rightarrow> IrFunction \<Rightarrow> bool" where
  "rewrittenFrom f f' \<longleftrightarrow>
     f' = f\<lparr>instructions := instructions f'\<rparr>
     \<and> (\<forall>inst \<in> set (instructions f'). \<not> plainInst inst \<longrightarrow> inst \<in> set (instructions f))
     \<and> (instructions f \<noteq> [] \<and> \<not> isCallOpcode (op (last (instructions f))) \<longrightarrow>
          instructions f' \<noteq> [] \<and> last (instructions f') = last (instructions f))"

lemma rewrittenFrom_refl: "rewrittenFrom f f"
  by (simp add: rewrittenFrom_def)

lemma rewrittenFrom_trans:
  assumes a: "rewrittenFrom f g" and b: "rewrittenFrom g h"
  shows "rewrittenFrom f h"
proof -
  have "h = g\<lparr>instructions := instructions h\<rparr>" "g = f\<lparr>instructions := instructions g\<rparr>"
    using a b by (simp_all add: rewrittenFrom_def)
  then have "h = f\<lparr>instructions := instructions h\<rparr>" by (metis IrFunction.surjective IrFunction.update_convs(5))
  then show ?thesis using a b unfolding rewrittenFrom_def by metis
qed

definition rewriteSteps :: "InlineState \<Rightarrow> InlineState \<Rightarrow> bool" where
  "rewriteSteps st st' \<longleftrightarrow>
     leaf_flags st' \<and> leafSet st \<subseteq> leafSet st' \<and> list_all2 rewrittenFrom (inl_functions st) (inl_functions st')"

lemma rewriteSteps_length: "rewriteSteps st st' \<Longrightarrow> length (inl_functions st') = length (inl_functions st)"
  using list_all2_lengthD by (fastforce simp: rewriteSteps_def)

lemma rewriteSteps_refl: "leaf_flags st \<Longrightarrow> rewriteSteps st st"
  by (simp add: rewriteSteps_def list_all2_refl rewrittenFrom_refl)

lemma rewriteSteps_trans: "rewriteSteps st st' \<Longrightarrow> rewriteSteps st' st'' \<Longrightarrow> rewriteSteps st st''"
  unfolding rewriteSteps_def using list_all2_trans [of rewrittenFrom rewrittenFrom rewrittenFrom] rewrittenFrom_trans
  by blast

lemma inlinable_leafSet:
  assumes "leaf_flags st" "unat (imm inst) < length (inl_functions st)" "isCallOpcode (op inst)"
    "inst \<in> set (instructions (inl_functions st ! fi))" "fi < length (inl_functions st)"
  shows "inlinable st fi inst \<longleftrightarrow> unat (imm inst) \<in> leafSet st"
proof -
  have "\<not> leafFunction (inl_functions st ! fi)" using assms(3,4) leaf_no_call by blast
  then show ?thesis using assms(1-3) by (auto simp: inlinable_def leafSet_def leaf_flags_def)
qed

lemma rewriteFunction_step:
  assumes flags: "leaf_flags st" and fi: "fi < length (inl_functions st)"
    and run: "rewriteFunction st fi = Inr (st', changed)"
  shows "rewriteSteps st st' \<and> (\<forall>j. j \<noteq> fi \<longrightarrow> inl_functions st' ! j = inl_functions st ! j)
    \<and> cleanFor (leafSet st) st' fi \<and> (\<not> changed \<longrightarrow> st' = st) \<and> (cleanFor (leafSet st) st fi \<longrightarrow> \<not> changed)"
proof -
  let ?f = "inl_functions st ! fi" and ?code = "instructions (inl_functions st ! fi)"
  obtain r where r: "rewriteLoop st fi ?code \<lparr>rewritten = [], nextLocal = inl_localCounts st ! fi, changedFunction = False\<rparr> = Inr r"
    using run by (auto simp: rewriteFunction_def Let_def rbind_Inr_iff)
  let ?f' = "?f\<lparr>instructions := rewritten r\<rparr>"
  from rewriteLoop_result [OF flags r]
  have res: "rewriteResult st fi ?code (rewritten r)" and ch: "changedFunction r \<longleftrightarrow> (\<exists>inst \<in> set ?code. inlinable st fi inst)"
    by auto
  have st': "st' = (if changedFunction r then st\<lparr>inl_functions := (inl_functions st)[fi := ?f'],
        inl_localCounts := (inl_localCounts st)[fi := nextLocal r], inl_leaf := (inl_leaf st)[fi := leafFunction ?f']\<rparr> else st)"
    and changed: "changed = changedFunction r"
    using run r by (auto simp: rewriteFunction_def Let_def rbind_Inr_iff split: if_splits)
  have code: "instructions (inl_functions st' ! fi) = rewritten r"
    using st' fi rewriteResultD(3) [OF res] ch by (cases "changedFunction r") auto
  have kept: "unat (imm inst) < length (inl_functions st) \<and> unat (imm inst) \<notin> leafSet st"
    if "inst \<in> set (rewritten r)" "isCallOpcode (op inst)" for inst
    using rewriteResultD(2) [OF res that] inlinable_leafSet [OF flags _ that(2) _ fi] by (auto simp: keptCall_def)
  have len: "length (inl_functions st') = length (inl_functions st)" by (simp add: st')
  have rw: "rewrittenFrom ?f ?f'"
    using rewriteResultD(1,4) [OF res] by (simp add: rewrittenFrom_def)
  have "leaf_flags st'"
    using flags by (simp add: st' leaf_flags_def map_update)
  moreover have "leafSet st \<subseteq> leafSet st'"
  proof (cases "leafFunction ?f")
    case True
    then have "\<not> changedFunction r" using ch leaf_no_call by (auto simp: inlinable_def)
    then show ?thesis by (simp add: st')
  next
    case False
    then have "x \<noteq> fi" if "x \<in> leafSet st" for x using that by (auto simp: leafSet_def)
    then show ?thesis by (cases "changedFunction r") (force simp: st' leafSet_def)+
  qed
  moreover have "list_all2 rewrittenFrom (inl_functions st) (inl_functions st')"
    using rw fi by (auto simp: st' list_all2_conv_all_nth nth_list_update rewrittenFrom_refl)
  moreover have "cleanFor (leafSet st) st fi \<longrightarrow> \<not> changedFunction r"
    using ch inlinable_leafSet [OF flags _ _ _ fi] by (auto simp: cleanFor_def inlinable_def)
  moreover have "inl_functions st' ! j = inl_functions st ! j" if "j \<noteq> fi" for j
    using that by (simp add: st')
  moreover have "cleanFor (leafSet st) st' fi" using kept by (simp add: cleanFor_def code len)
  moreover have "\<not> changedFunction r \<longrightarrow> st' = st" by (simp add: st')
  ultimately show ?thesis by (simp add: rewriteSteps_def changed)
qed

lemma cleanFor_frame:
  "inl_functions st' ! j = inl_functions st ! j \<Longrightarrow> length (inl_functions st') = length (inl_functions st) \<Longrightarrow>
     cleanFor L st' j = cleanFor L st j"
  by (simp add: cleanFor_def)

lemma cleanFor_mono: "cleanFor L st j \<Longrightarrow> K \<subseteq> L \<Longrightarrow> cleanFor K st j"
  by (auto simp: cleanFor_def)

lemma inlinePass_step:
  "leaf_flags st \<Longrightarrow> distinct fis \<Longrightarrow> \<forall>fi \<in> set fis. fi < length (inl_functions st) \<Longrightarrow>
     inlinePass fis st c = Inr (st', c') \<Longrightarrow>
     rewriteSteps st st' \<and> (\<forall>j. j \<notin> set fis \<longrightarrow> inl_functions st' ! j = inl_functions st ! j)
     \<and> (\<forall>j \<in> set fis. cleanFor (leafSet st) st' j)
     \<and> (\<not> c' \<longrightarrow> st' = st) \<and> ((\<forall>j \<in> set fis. cleanFor (leafSet st) st j) \<longrightarrow> c' = c) \<and> (c \<longrightarrow> c')"
proof (induction fis arbitrary: st c)
  case Nil
  then show ?case by (simp add: rewriteSteps_refl)
next
  case (Cons fi fis)
  obtain st1 ch where one: "rewriteFunction st fi = Inr (st1, ch)" and rest: "inlinePass fis st1 (c \<or> ch) = Inr (st', c')"
    using Cons.prems(4) by (auto simp: rbind_Inr_iff)
  have fi: "fi < length (inl_functions st)" "fi \<notin> set fis" using Cons.prems by simp_all
  from rewriteFunction_step [OF Cons.prems(1) fi(1) one]
  have a: "rewriteSteps st st1" "\<And>j. j \<noteq> fi \<Longrightarrow> inl_functions st1 ! j = inl_functions st ! j"
    "cleanFor (leafSet st) st1 fi" "\<not> ch \<Longrightarrow> st1 = st" "cleanFor (leafSet st) st fi \<Longrightarrow> \<not> ch" by blast+
  have len: "length (inl_functions st1) = length (inl_functions st)" by (rule rewriteSteps_length [OF a(1)])
  have flags: "leaf_flags st1" and sub: "leafSet st \<subseteq> leafSet st1" using a(1) by (simp_all add: rewriteSteps_def)
  from Cons.IH [OF flags _ _ rest] Cons.prems len
  have b: "rewriteSteps st1 st'" "\<And>j. j \<notin> set fis \<Longrightarrow> inl_functions st' ! j = inl_functions st1 ! j"
    "\<And>j. j \<in> set fis \<Longrightarrow> cleanFor (leafSet st1) st' j" "\<not> c' \<Longrightarrow> st' = st1"
    "\<forall>j \<in> set fis. cleanFor (leafSet st1) st1 j \<Longrightarrow> c' = (c \<or> ch)" "c \<or> ch \<Longrightarrow> c'" by auto
  have len': "length (inl_functions st') = length (inl_functions st1)" by (rule rewriteSteps_length [OF b(1)])
  have "cleanFor (leafSet st) st' j" if "j \<in> set (fi # fis)" for j
  proof (cases "j = fi")
    case True
    then show ?thesis using cleanFor_frame [OF b(2) [OF fi(2)] len'] a(3) by simp
  next
    case False
    then show ?thesis using that b(3) cleanFor_mono [OF _ sub] by simp
  qed
  moreover have "c' = c" if "\<forall>j \<in> set (fi # fis). cleanFor (leafSet st) st j"
    using that a(4,5) b(5) by simp
  moreover have "st' = st" if "\<not> c'" using that a(4) b(4,6) by blast
  ultimately show ?case
    using rewriteSteps_trans [OF a(1) b(1)] a(2) b(2,6) by simp
qed

text \<open>
  A pass that starts with every function clean changes nothing; one that adds no leaf function
  leaves every function clean. So one pass more than there are functions that can become leaves
  reaches a state no pass changes.
\<close>

lemma inlinePasses_clean:
  "leaf_flags st \<Longrightarrow> inlinePasses k st = Inr st' \<Longrightarrow>
     length (inl_functions st) - card (leafSet st) < k
     \<or> (0 < length (inl_functions st) \<longrightarrow> (\<forall>j < length (inl_functions st). cleanFor (leafSet st) st j)) \<Longrightarrow>
     rewriteSteps st st' \<and> (\<forall>j < length (inl_functions st). cleanFor (leafSet st') st' j)"
proof (induction k arbitrary: st)
  case 0
  then show ?case by (auto simp: rewriteSteps_refl)
next
  case (Suc k)
  let ?n = "length (inl_functions st)"
  obtain st1 c where pass: "inlinePass [0..<?n] st False = Inr (st1, c)"
    and rest: "(if \<not> c then Inr st1 else inlinePasses k st1) = Inr st'"
    using Suc.prems(2) by (auto simp: rbind_Inr_iff)
  have "distinct [0..<?n]" "\<forall>fi \<in> set [0..<?n]. fi < ?n" by simp_all
  from inlinePass_step [OF Suc.prems(1) this pass]
  have a: "rewriteSteps st st1" "\<And>j. j < ?n \<Longrightarrow> cleanFor (leafSet st) st1 j" "\<not> c \<Longrightarrow> st1 = st"
    "\<forall>j < ?n. cleanFor (leafSet st) st j \<Longrightarrow> \<not> c" by auto
  have len: "length (inl_functions st1) = ?n" by (rule rewriteSteps_length [OF a(1)])
  show ?case
  proof (cases c)
    case False
    then have "st' = st" using rest a(3) by simp
    then show ?thesis using a(1,2,3) False by simp
  next
    case True
    then have run: "inlinePasses k st1 = Inr st'" using rest by simp
    have flags: "leaf_flags st1" and sub: "leafSet st \<subseteq> leafSet st1" using a(1) by (simp_all add: rewriteSteps_def)
    have fin: "finite (leafSet st1)" "card (leafSet st1) \<le> ?n"
    proof -
      have "leafSet st1 \<subseteq> {..<?n}" using len by (auto simp: leafSet_def)
      then show "finite (leafSet st1)" "card (leafSet st1) \<le> ?n"
        using finite_subset card_mono [of "{..<?n}" "leafSet st1"] by auto
    qed
    have budget: "?n - card (leafSet st) < Suc k" using Suc.prems(3) a(4) True by auto
    have "?n - card (leafSet st1) < k \<or> (\<forall>j < ?n. cleanFor (leafSet st1) st1 j)"
    proof (cases "leafSet st1 = leafSet st")
      case True
      then show ?thesis using a(2) by simp
    next
      case False
      then have "card (leafSet st) < card (leafSet st1)" using sub fin psubset_card_mono by blast
      then show ?thesis using budget fin(2) by linarith
    qed
    with Suc.IH [OF flags run] len have "rewriteSteps st1 st' \<and> (\<forall>j < ?n. cleanFor (leafSet st') st' j)" by simp
    then show ?thesis using rewriteSteps_trans [OF a(1)] by blast
  qed
qed

section \<open>Failures\<close>

definition callsInRange :: "nat \<Rightarrow> IrInstruction list \<Rightarrow> bool" where
  "callsInRange n code \<longleftrightarrow> (\<forall>inst \<in> set code. isCallOpcode (op inst) \<longrightarrow> unat (imm inst) < n)"

definition overflowMessage :: "string \<Rightarrow> bool" where
  "overflowMessage e \<longleftrightarrow> (\<exists>nm. e = ''IR inlining failed for '' @ nm @ '': IR inlining local index overflow'')"

lemma appendInlinedLoop_fails: "appendInlinedLoop base psh is out = Inl e \<Longrightarrow> e = ''IR inlining local index overflow''"
  by (induction base psh "is" out rule: appendInlinedLoop.induct) (auto split: if_splits)

lemma appendInlinedCallee_fails:
  "leafFunction f \<Longrightarrow> appendInlinedCallee f base psh out = Inl e \<Longrightarrow> e = ''IR inlining local index overflow''"
  using appendInlinedLoop_fails by (auto simp: appendInlinedCallee_def leafFunction_def)

lemma rewriteLoop_fails:
  "leaf_flags st \<Longrightarrow> callsInRange (length (inl_functions st)) code \<Longrightarrow> rewriteLoop st fi code r = Inl e \<Longrightarrow> overflowMessage e"
proof (induction code arbitrary: r)
  case (Cons inst rest)
  have rest: "callsInRange (length (inl_functions st)) rest" using Cons.prems(2) by (simp add: callsInRange_def)
  show ?case
  proof (cases "inlinable st fi inst")
    case True
    let ?callee = "inl_functions st ! unat (imm inst)"
    have t: "isCallOpcode (op inst)" "unat (imm inst) < length (inl_functions st)" "unat (imm inst) \<noteq> fi" "inl_leaf st ! unat (imm inst)"
      using True Cons.prems(2) by (simp_all add: inlinable_def callsInRange_def)
    then have leaf: "leafFunction ?callee" using Cons.prems(1) by (simp add: leaf_flags_def)
    show ?thesis
    proof (cases "appendInlinedCallee ?callee (nextLocal r) (op inst = Call) (rewritten r)")
      case (Inl e')
      then have "e = ''IR inlining failed for '' @ fn_name ?callee @ '': '' @ e'"
        using Cons.prems(3) t by (simp add: Let_def)
      then show ?thesis using appendInlinedCallee_fails [OF leaf Inl] by (auto simp: overflowMessage_def simp del: append.simps)
    next
      case (Inr out)
      then show ?thesis using Cons.prems t Cons.IH [OF Cons.prems(1) rest] by (simp add: Let_def)
    qed
  next
    case False
    have t: "isCallOpcode (op inst) \<longrightarrow> unat (imm inst) < length (inl_functions st)"
      using Cons.prems(2) by (simp add: callsInRange_def)
    have "rewriteLoop st fi (inst # rest) r = rewriteLoop st fi rest (r\<lparr>rewritten := rewritten r @ [inst]\<rparr>)"
      using False t by (auto simp: inlinable_def Let_def)
    then show ?thesis using Cons.IH [OF Cons.prems(1) rest] Cons.prems(3) by simp
  qed
qed simp

definition allInRange :: "nat \<Rightarrow> IrFunction list \<Rightarrow> bool" where
  "allInRange n fns \<longleftrightarrow> (\<forall>f \<in> set fns. callsInRange n (instructions f))"

lemma rewrittenFrom_inRange: "rewrittenFrom f f' \<Longrightarrow> callsInRange n (instructions f) \<Longrightarrow> callsInRange n (instructions f')"
  unfolding rewrittenFrom_def callsInRange_def plainInst_def by blast

lemma list_all2_inRange: "list_all2 rewrittenFrom fs fs' \<Longrightarrow> allInRange n fs \<Longrightarrow> allInRange n fs'"
  by (induction rule: list_all2_induct) (auto simp: allInRange_def rewrittenFrom_inRange)

lemma rewriteSteps_inRange:
  "rewriteSteps st st' \<Longrightarrow> allInRange n (inl_functions st) \<Longrightarrow> allInRange n (inl_functions st')"
  unfolding rewriteSteps_def using list_all2_inRange by blast

lemma rewriteFunction_fails:
  assumes "leaf_flags st" "allInRange (length (inl_functions st)) (inl_functions st)" "fi < length (inl_functions st)"
    "rewriteFunction st fi = Inl e"
  shows "overflowMessage e"
proof -
  have "callsInRange (length (inl_functions st)) (instructions (inl_functions st ! fi))"
    using assms(2,3) by (simp add: allInRange_def)
  then show ?thesis
    using rewriteLoop_fails [OF assms(1)] assms(4) by (auto simp: rewriteFunction_def Let_def rbind_Inl_iff split: if_splits)
qed

lemma inlinePass_fails:
  "leaf_flags st \<Longrightarrow> allInRange (length (inl_functions st)) (inl_functions st) \<Longrightarrow>
     \<forall>fi \<in> set fis. fi < length (inl_functions st) \<Longrightarrow> inlinePass fis st c = Inl e \<Longrightarrow> overflowMessage e"
proof (induction fis arbitrary: st c)
  case (Cons fi fis)
  show ?case
  proof (cases "rewriteFunction st fi")
    case (Inl e')
    then show ?thesis using rewriteFunction_fails [OF Cons.prems(1,2) _ Inl] Cons.prems(3,4) by simp
  next
    case (Inr p)
    obtain st1 ch where p: "p = (st1, ch)" by fastforce
    have one: "rewriteFunction st fi = Inr (st1, ch)" using Inr p by simp
    have st1: "rewriteSteps st st1" using rewriteFunction_step [OF Cons.prems(1) _ one] Cons.prems(3) by simp
    have "inlinePass fis st1 (c \<or> ch) = Inl e" using Cons.prems(4) Inr p by simp
    moreover have "leaf_flags st1" using st1 by (simp add: rewriteSteps_def)
    ultimately show ?thesis
      using Cons.IH [of st1] rewriteSteps_inRange [OF st1 Cons.prems(2)] rewriteSteps_length [OF st1] Cons.prems(3) by simp
  qed
qed simp

lemma inlinePasses_fails:
  "leaf_flags st \<Longrightarrow> allInRange (length (inl_functions st)) (inl_functions st) \<Longrightarrow>
     inlinePasses k st = Inl e \<Longrightarrow> overflowMessage e"
proof (induction k arbitrary: st)
  case (Suc k)
  let ?n = "length (inl_functions st)"
  have range: "\<forall>fi \<in> set [0..<?n]. fi < ?n" by simp
  show ?case
  proof (cases "inlinePass [0..<?n] st False")
    case (Inl e')
    then show ?thesis using inlinePass_fails [OF Suc.prems(1,2) range Inl] Suc.prems(3) by simp
  next
    case (Inr p)
    obtain st1 c where p: "p = (st1, c)" by fastforce
    have pass: "inlinePass [0..<?n] st False = Inr (st1, c)" using Inr p by simp
    have st1: "rewriteSteps st st1" using inlinePass_step [OF Suc.prems(1) _ range pass] by simp
    have "leaf_flags st1" using st1 by (simp add: rewriteSteps_def)
    then show ?thesis
      using Suc.IH [of st1] Suc.prems(3) pass rewriteSteps_inRange [OF st1 Suc.prems(2)] rewriteSteps_length [OF st1]
      by (auto split: if_splits)
  qed
qed simp

section \<open>The sample module\<close>

definition inlinedSample :: IrModule where
  "inlinedSample = sampleModule\<lparr>mod_functions :=
     [sampleFunction ''main'' [sampleInst PushI32 40, sampleInst PushI32 2, sampleInst AddI32 0, sampleInst ReturnI32 0],
      sampleFunction ''addTwo'' [sampleInst PushI32 2, sampleInst AddI32 0, sampleInst ReturnI32 0]]\<rparr>"

lemma sample_inlined: "inlineIrModuleCalls sampleModule = Inr inlinedSample"
  by code_simp

text \<open>The callee uses the last 64-bit local index, so it has no room behind the caller's local.\<close>

definition overflowSample :: IrModule where
  "overflowSample = sampleModule\<lparr>mod_functions :=
     [sampleFunction ''main'' [sampleInst LoadLocal 0, sampleInst Call 1, sampleInst ReturnI64 0],
      sampleFunction ''last'' [sampleInst LoadLocal (- 1), sampleInst ReturnI64 0]]\<rparr>"

lemma overflow_fails:
  "inlineIrModuleCalls overflowSample = Inl ''IR inlining failed for last: IR inlining local index overflow''"
  by code_simp

section \<open>Properties\<close>

lemma initInline_flags [simp]: "leaf_flags (initInline fns)" "inl_functions (initInline fns) = fns"
  by (simp_all add: leaf_flags_def initInline_def)

lemma inline_steps:
  assumes "inlineIrModuleCalls m = Inr m'"
  shows "m' = m\<lparr>mod_functions := mod_functions m'\<rparr> \<and> list_all2 rewrittenFrom (mod_functions m) (mod_functions m')
    \<and> (\<forall>f \<in> set (mod_functions m'). \<forall>inst \<in> set (instructions f). isCallOpcode (op inst) \<longrightarrow>
         unat (imm inst) < length (mod_functions m') \<and> \<not> leafFunction (mod_functions m' ! unat (imm inst)))"
proof (cases "mod_functions m = []")
  case True
  then show ?thesis using assms by (simp add: inlineIrModuleCalls_def)
next
  case False
  let ?st = "initInline (mod_functions m)"
  obtain st' where run: "inlinePasses (length (mod_functions m) * 2 + 1) ?st = Inr st'"
    and m': "m' = m\<lparr>mod_functions := inl_functions st'\<rparr>"
    using assms False by (auto simp: inlineIrModuleCalls_def rbind_Inr_iff)
  have "length (mod_functions m) - card (leafSet ?st) < length (mod_functions m) * 2 + 1" by simp
  with inlinePasses_clean [OF initInline_flags(1) run]
  have a: "rewriteSteps ?st st'" "\<And>j. j < length (mod_functions m) \<Longrightarrow> cleanFor (leafSet st') st' j" by simp_all
  have len: "length (inl_functions st') = length (mod_functions m)" using rewriteSteps_length [OF a(1)] by simp
  have "unat (imm inst) < length (mod_functions m') \<and> \<not> leafFunction (mod_functions m' ! unat (imm inst))"
    if f: "f \<in> set (mod_functions m')" and inst: "inst \<in> set (instructions f)" "isCallOpcode (op inst)" for f inst
  proof -
    have "f \<in> set (inl_functions st')" using f by (simp add: m')
    then obtain j where "j < length (mod_functions m)" "f = inl_functions st' ! j"
      using len by (metis in_set_conv_nth)
    then show ?thesis using a(2) [of j] inst len by (auto simp: cleanFor_def leafSet_def m')
  qed
  then show ?thesis using a(1) m' by (simp add: rewriteSteps_def)
qed

text \<open>
  C27: the number of passes suffices: in the module the inliner returns, no function calls a leaf
  function, one without calls and jumps that ends in a return, and every call is in range.
\<close>

theorem inlining_complete:
  assumes "inlineIrModuleCalls m = Inr m'"
    and "f \<in> set (mod_functions m')" and "inst \<in> set (instructions f)" and "isCallOpcode (op inst)"
  shows "unat (imm inst) < length (mod_functions m') \<and> \<not> leafFunction (mod_functions m' ! unat (imm inst))"
  using inline_steps [OF assms(1)] assms(2-4) by blast

theorem inlining_complete_witness:
  "\<exists>m'. inlineIrModuleCalls (sampleModule\<lparr>mod_functions := mod_functions sampleModule @ [sampleFunction ''loop'' [sampleInst Call 2]]\<rparr>)
      = Inr m' \<and> \<not> leafFunction (mod_functions m' ! 2)"
proof -
  let ?m = "sampleModule\<lparr>mod_functions := mod_functions sampleModule @ [sampleFunction ''loop'' [sampleInst Call 2]]\<rparr>"
  let ?m' = "inlinedSample\<lparr>mod_functions := mod_functions inlinedSample @ [sampleFunction ''loop'' [sampleInst Call 2]]\<rparr>"
  have run: "inlineIrModuleCalls ?m = Inr ?m'" by code_simp
  have "\<not> leafFunction (mod_functions ?m' ! unat (imm (sampleInst Call 2)))"
    using inlining_complete [OF run, of "sampleFunction ''loop'' [sampleInst Call 2]" "sampleInst Call 2"]
    by (simp add: isCallOpcode_def)
  then show ?thesis using run by (intro exI [of _ ?m']) simp
qed

text \<open>
  C29: inlining changes nothing of the module but the code of its functions, and there it invents no
  call and no jump, and keeps the final return.
\<close>

theorem inlining_keeps_interface:
  assumes "inlineIrModuleCalls m = Inr m'"
  shows "m' = m\<lparr>mod_functions := mod_functions m'\<rparr> \<and> list_all2 rewrittenFrom (mod_functions m) (mod_functions m')"
  using inline_steps [OF assms] by blast

theorem inlining_keeps_interface_witness:
  "inlineIrModuleCalls sampleModule = Inr inlinedSample
     \<and> list_all2 rewrittenFrom (mod_functions sampleModule) (mod_functions inlinedSample)"
  using inlining_keeps_interface [OF sample_inlined] sample_inlined by blast

text \<open>Straight-line functions that call only later ones.\<close>

definition forwardStraightLine :: "IrFunction list \<Rightarrow> bool" where
  "forwardStraightLine fns \<longleftrightarrow>
     (\<forall>i < length fns.
        instructions (fns ! i) \<noteq> [] \<and> isReturnOpcode (op (last (instructions (fns ! i))))
        \<and> (\<forall>inst \<in> set (instructions (fns ! i)).
             \<not> isJumpOpcode (op inst) \<and> (isCallOpcode (op inst) \<longrightarrow> i < unat (imm inst))))"

lemma return_no_call: "isReturnOpcode opc \<Longrightarrow> \<not> isCallOpcode opc"
  by (auto simp: isReturnOpcode_def isCallOpcode_def)

text \<open>
  C28: a module of straight-line functions that call only later functions is inlined completely: no
  call is left in any function.
\<close>

theorem straight_line_fully_inlined:
  assumes "inlineIrModuleCalls m = Inr m'" and "forwardStraightLine (mod_functions m)"
  shows "list_all (\<lambda>f. \<not> hasCallOpcode f) (mod_functions m')"
proof -
  let ?old = "mod_functions m" and ?new = "mod_functions m'"
  from inline_steps [OF assms(1)] have rel: "list_all2 rewrittenFrom ?old ?new"
    and clean: "\<And>f inst. f \<in> set ?new \<Longrightarrow> inst \<in> set (instructions f) \<Longrightarrow> isCallOpcode (op inst) \<Longrightarrow>
        unat (imm inst) < length ?new \<and> \<not> leafFunction (?new ! unat (imm inst))" by blast+
  have len: "length ?new = length ?old" using rel by (simp add: list_all2_lengthD)
  have leaf: "leafFunction (?new ! i)" if "i < length ?new" for i
    using that
  proof (induction "length ?new - i" arbitrary: i rule: less_induct)
    case less
    let ?f = "?old ! i" and ?g = "?new ! i"
    have r: "rewrittenFrom ?f ?g" using rel less.prems by (simp add: list_all2_conv_all_nth)
    have f: "instructions ?f \<noteq> []" "isReturnOpcode (op (last (instructions ?f)))"
      "\<And>inst. inst \<in> set (instructions ?f) \<Longrightarrow> \<not> isJumpOpcode (op inst) \<and> (isCallOpcode (op inst) \<longrightarrow> i < unat (imm inst))"
      using assms(2) less.prems len by (simp_all add: forwardStraightLine_def)
    have old: "inst \<in> set (instructions ?f)" if "inst \<in> set (instructions ?g)" "\<not> plainInst inst" for inst
      using r that unfolding rewrittenFrom_def by blast
    have g: "instructions ?g \<noteq> []" "isReturnOpcode (op (last (instructions ?g)))"
      using r f(1,2) return_no_call unfolding rewrittenFrom_def by metis+
    have "\<not> isCallOpcode (op inst)" if "inst \<in> set (instructions ?g)" for inst
    proof
      assume call: "isCallOpcode (op inst)"
      then have "i < unat (imm inst)" using old [OF that] f(3) by (auto simp: plainInst_def)
      moreover have "unat (imm inst) < length ?new" "\<not> leafFunction (?new ! unat (imm inst))"
        using clean [OF nth_mem [OF less.prems] that call] by blast+
      ultimately show False using less.hyps [of "unat (imm inst)"] less.prems by linarith
    qed
    moreover have "\<not> isJumpOpcode (op inst)" if "inst \<in> set (instructions ?g)" for inst
      using old [OF that] f(3) by (auto simp: plainInst_def)
    ultimately show ?case
      using g by (auto simp: leafFunction_def hasCallOpcode_def hasControlFlowOpcode_def list_ex_iff)
  qed
  then show ?thesis by (auto simp: list_all_iff in_set_conv_nth leafFunction_def)
qed

theorem straight_line_fully_inlined_witness:
  "hasCallOpcode (mod_functions sampleModule ! 0) \<and> list_all (\<lambda>f. \<not> hasCallOpcode f) (mod_functions inlinedSample)"
proof -
  have "forwardStraightLine (mod_functions sampleModule)"
    by (auto simp: forwardStraightLine_def less_Suc_eq isReturnOpcode_def isCallOpcode_def isJumpOpcode_def)
  moreover have "hasCallOpcode (mod_functions sampleModule ! 0)" by code_simp
  ultimately show ?thesis using straight_line_fully_inlined [OF sample_inlined] by blast
qed

text \<open>
  C30: inlining fails only for a call out of range or for a local index that does not fit 64 bits;
  when every call of the module is in range, the message is that of the overflow.
\<close>

theorem inlining_fails_only:
  assumes "inlineIrModuleCalls m = Inl e" and "allInRange (length (mod_functions m)) (mod_functions m)"
  shows "overflowMessage e"
  using assms inlinePasses_fails [OF initInline_flags(1), of "mod_functions m"]
  by (auto simp: inlineIrModuleCalls_def rbind_Inl_iff simp del: inlinePasses.simps split: if_splits)

theorem inlining_fails_only_witness:
  "\<exists>e. inlineIrModuleCalls overflowSample = Inl e \<and> overflowMessage e"
proof -
  have "allInRange (length (mod_functions overflowSample)) (mod_functions overflowSample)"
    by (simp add: allInRange_def callsInRange_def overflowSample_def isCallOpcode_def)
  from inlining_fails_only [OF overflow_fails this] overflow_fails show ?thesis by (intro exI conjI)
qed

end
