(* ===== verification/InlineRuns.thy ===== *)
theory InlineRuns
  imports VmCode IrInliner
begin

text \<open>
  The inliner against the execution kernel: a call of a straight-line function and the instructions
  the inliner puts in its place have the same effect on stack, heap and world.
\<close>

section \<open>Straight-line bodies\<close>

text \<open>
  The instructions the equivalence covers: no control flow, no address of a local or access through
  an address, which could name a local, and not \<open>FileReadByte\<close>, whose local the inliner does not move.
\<close>

definition movableInst :: "IrInstruction \<Rightarrow> bool" where
  "movableInst inst \<longleftrightarrow> \<not> isControlFlowOpcode (op inst)
     \<and> op inst \<notin> {AddressOfLocal, LoadIndirect, StoreIndirect, FileReadByte}"

text \<open>An instruction that is not about locals neither reads nor writes them.\<close>

lemma handleFileManage_locals:
  "op inst \<noteq> FileReadByte \<Longrightarrow> handleFileManage sys m inst stk locals wd = Inr (stk', locals', wd') \<Longrightarrow>
     locals' = locals \<and> handleFileManage sys m inst stk other wd = Inr (stk', other, wd')"
  unfolding handleFileManage_def openPath_def Let_def
  by (auto simp: rbind_Inr_iff split_beta split: if_split_asm)

lemma writeText_eq:
  "writeText sys handle txt stk locals wd =
     (scast (fst (writeAll sys (handleFd handle) txt (sysState wd))) # stk, locals,
      wd\<lparr>sysState := snd (writeAll sys (handleFd handle) txt (sysState wd))\<rparr>)"
  by (simp add: writeText_def split_beta)

lemma handleFileWrite_locals:
  "handleFileWrite sys m inst stk locals wd = Inr (stk', locals', wd') \<Longrightarrow>
     locals' = locals \<and> handleFileWrite sys m inst stk other wd = Inr (stk', other, wd')"
  unfolding handleFileWrite_def writeText_eq Let_def
  by (auto simp: rbind_Inr_iff split_beta split: if_split_asm)

lemma handleFileOpcode_locals:
  "op inst \<noteq> FileReadByte \<Longrightarrow> handleFileOpcode sys m inst stk locals wd = Inr (stk', locals', wd') \<Longrightarrow>
     locals' = locals \<and> handleFileOpcode sys m inst stk other wd = Inr (stk', other, wd')"
  using handleFileManage_locals handleFileWrite_locals unfolding handleFileOpcode_def by (metis sum.distinct(1))

lemma kernelDefault_locals:
  assumes "op inst \<noteq> FileReadByte" "kernelDefault host m inst stk locals h wd = DataNext stk' locals' h' wd'"
  shows "locals' = locals \<and> kernelDefault host m inst stk other h wd = DataNext stk' other h' wd'"
proof -
  consider "isPureNumericOpcode (op inst)" | "\<not> isPureNumericOpcode (op inst)" "isVmKernelPrintOpcode (op inst)"
    | "\<not> isPureNumericOpcode (op inst)" "\<not> isVmKernelPrintOpcode (op inst)" "isVmKernelFileOpcode (op inst)"
    | "\<not> isPureNumericOpcode (op inst)" "\<not> isVmKernelPrintOpcode (op inst)" "\<not> isVmKernelFileOpcode (op inst)" by blast
  then show ?thesis
  proof cases
    case 3
    then obtain r where "handleFileOpcode (hostSys host) m inst stk locals wd = Inr (stk', locals', wd')" "h' = h"
      using assms(2) by (auto simp: kernelDefault_def split: sum.splits prod.splits)
    then show ?thesis
      using 3 handleFileOpcode_locals [OF assms(1), of "hostSys host" m stk locals wd stk' locals' wd' other]
      by (simp add: kernelDefault_def)
  qed (use assms(2) in \<open>auto simp: kernelDefault_def split: PureOpcodeOutcome.splits sum.splits prod.splits\<close>)
qed

lemma kernelData_other_locals:
  assumes "movableInst inst" "\<not> isLocalOpcode (op inst)"
    and "kernelData host m inst stk locals h wd = DataNext stk' locals' h' wd'"
  shows "locals' = locals \<and> kernelData host m inst stk other h wd = DataNext stk' other h' wd'"
proof -
  have f: "op inst \<noteq> AddressOfLocal" "op inst \<noteq> LoadIndirect" "op inst \<noteq> StoreIndirect" "op inst \<noteq> FileReadByte"
    using assms(1) by (simp_all add: movableInst_def)
  have l: "op inst \<noteq> LoadLocal" "op inst \<noteq> StoreLocal" using assms(2) by (simp_all add: isLocalOpcode_def)
  have push: ?thesis if "isPushLocalOpcode (op inst)"
    using that assms(3) f l by (auto simp: kernelData_def kernelPushLocal_def split: if_splits)
  have mem: ?thesis if "\<not> isPushLocalOpcode (op inst)" "isMemoryOpcode (op inst)"
    using that assms(3) f
    by (auto simp: kernelData_def kernelMemory_def split: if_splits list.splits sum.splits prod.splits)
  have str: ?thesis if "\<not> isPushLocalOpcode (op inst)" "\<not> isMemoryOpcode (op inst)" "isStackStringOpcode (op inst)"
    using that assms(3)
    by (auto simp: kernelData_def kernelStackString_def Let_def split: if_splits list.splits)
  have dft: ?thesis if "\<not> isPushLocalOpcode (op inst)" "\<not> isMemoryOpcode (op inst)" "\<not> isStackStringOpcode (op inst)"
    using that assms(3) kernelDefault_locals [OF f(4)] by (simp add: kernelData_def)
  show ?thesis using push mem str dft by blast
qed

text \<open>The instruction the inliner puts in the place of a data instruction of the callee.\<close>

definition moveInst :: "u64 \<Rightarrow> IrInstruction \<Rightarrow> IrInstruction" where
  "moveInst base inst = (if isLocalOpcode (op inst) then newInstruction (op inst) (imm inst + base) else inst)"

text \<open>The moved instruction does to a window of the locals what the original does to all of them.\<close>

lemma moved_index:
  fixes im base :: u64
  assumes "im \<le> - 1 - base"
  shows "unat (im + base) = unat base + unat im"
proof -
  have "unat (- 1 - base) = unat (- 1 :: u64) - unat base" by (rule unat_sub) simp
  moreover have "unat im \<le> unat (- 1 - base)" using assms by (simp only: word_le_nat_alt)
  moreover have "unat (- 1 :: u64) = 2 ^ LENGTH(64) - 1" by (simp only: unsigned_minus_1_eq_mask mask_eq_exp_minus_1)
  moreover have "unat base < 2 ^ LENGTH(64)" by (rule unsigned_less)
  ultimately have "unat im + unat base < 2 ^ LENGTH(64)" by linarith
  then show ?thesis by (simp only: unat_word_ariths mod_less add.commute)
qed

lemma kernelData_move:
  assumes inst: "movableInst inst" and fits: "isLocalOpcode (op inst) \<Longrightarrow> imm inst \<le> - 1 - base"
    and base: "unat base = length pre"
    and run: "kernelData host m inst stk locals h wd = DataNext stk' locals' h' wd'"
  shows "kernelData host m (moveInst base inst) stk (pre @ locals @ post) h wd = DataNext stk' (pre @ locals' @ post) h' wd'
    \<and> length locals' = length locals"
proof (cases "isLocalOpcode (op inst)")
  case False
  then show ?thesis
    using kernelData_other_locals [OF inst False run, of "pre @ locals @ post"] kernelData_other_locals [OF inst False run, of locals]
    by (simp add: moveInst_def)
next
  case True
  then have opc: "op inst = LoadLocal \<or> op inst = StoreLocal" using inst by (auto simp: isLocalOpcode_def movableInst_def)
  have at: "unat (imm inst + base) = length pre + unat (imm inst)"
    using moved_index [OF fits [OF True]] base by simp
  have moved: "op (moveInst base inst) = op inst" "imm (moveInst base inst) = imm inst + base"
    using True by (simp_all add: moveInst_def newInstruction_def)
  from opc show ?thesis
  proof
    assume "op inst = LoadLocal"
    then show ?thesis
      using run by (auto simp: kernelData_def kernelPushLocal_def isPushLocalOpcode_def moved at nth_append split: if_split_asm)
  next
    assume "op inst = StoreLocal"
    then show ?thesis
      using run
      by (auto simp: kernelData_def kernelPushLocal_def isPushLocalOpcode_def moved at list_update_append
          split: if_split_asm list.split_asm)
  qed
qed

lemma runBody_move:
  assumes "list_all movableInst body" "\<forall>inst \<in> set body. isLocalOpcode (op inst) \<longrightarrow> imm inst \<le> - 1 - base"
    and "unat base = length pre"
    and "runBody host m body stk locals h wd = Some (stk', locals', h', wd')"
  shows "runBody host m (map (moveInst base) body) stk (pre @ locals @ post) h wd = Some (stk', pre @ locals' @ post, h', wd')"
  using assms
proof (induction body arbitrary: stk locals h wd)
  case (Cons inst body)
  from Cons.prems(4) obtain stk1 locals1 h1 wd1 where one: "kernelData host m inst stk locals h wd = DataNext stk1 locals1 h1 wd1"
    and rest: "runBody host m body stk1 locals1 h1 wd1 = Some (stk', locals', h', wd')"
    by (auto split: DataOutcome.splits)
  have "kernelData host m (moveInst base inst) stk (pre @ locals @ post) h wd = DataNext stk1 (pre @ locals1 @ post) h1 wd1"
    using kernelData_move [OF _ _ Cons.prems(3) one, of post] Cons.prems(1,2) by simp
  moreover have "runBody host m (map (moveInst base) body) stk1 (pre @ locals1 @ post) h1 wd1 = Some (stk', pre @ locals' @ post, h', wd')"
    using Cons.IH [OF _ _ Cons.prems(3) rest] Cons.prems(1,2) by simp
  ultimately show ?case by simp
qed simp

section \<open>What the inliner appends for a straight-line callee\<close>

definition returnTail :: "IrOpcode \<Rightarrow> bool \<Rightarrow> IrInstruction list" where
  "returnTail opc pushReturnValue =
     (if opc = ReturnVoid then (if pushReturnValue then [newInstruction PushI32 0] else [])
      else if pushReturnValue then [] else [newInstruction Pop 0])"

lemma return_not_local: "isReturnOpcode opc \<Longrightarrow> \<not> isLocalOpcode opc"
  by (auto simp: isReturnOpcode_def isLocalOpcode_def)

lemma appendInlinedLoop_body:
  "list_all movableInst body \<Longrightarrow> isReturnOpcode (op r) \<Longrightarrow>
     appendInlinedLoop base psh (body @ [r]) out = Inr out' \<Longrightarrow>
     out' = out @ map (moveInst base) body @ returnTail (op r) psh
     \<and> (\<forall>inst \<in> set body. isLocalOpcode (op inst) \<longrightarrow> imm inst \<le> - 1 - base)"
proof (induction body arbitrary: out)
  case Nil
  then show ?case
    using return_not_local [OF Nil.prems(2)] by (auto simp: returnTail_def isReturnOpcode_def split: if_splits)
next
  case (Cons inst body)
  have "\<not> isReturnOpcode (op inst)"
    using Cons.prems(1) by (auto simp: movableInst_def isControlFlowOpcode_def isReturnOpcode_def)
  then have r: "op inst \<noteq> ReturnVoid" "op inst \<noteq> ReturnI32" "op inst \<noteq> ReturnI64" "op inst \<noteq> ReturnF32" "op inst \<noteq> ReturnF64"
    by (auto simp: isReturnOpcode_def)
  then have step: "appendInlinedLoop base psh (body @ [r]) (out @ [moveInst base inst]) = Inr out'"
    and fits: "isLocalOpcode (op inst) \<longrightarrow> imm inst \<le> - 1 - base"
    using Cons.prems(3) by (auto simp: moveInst_def split: if_splits)
  show ?case using Cons.IH [OF _ Cons.prems(2) step] Cons.prems(1) fits by simp
qed

section \<open>The call and the inlined code\<close>

lemma call_step:
  assumes "frames s = f # fs" "runsNext m f [call]" "isCallOpcode (op call)" "length (frames s) < maxCallDepth"
    "unat (imm call) < length (mod_functions m)"
  shows "vmKernelStep host m s =
    Running (s\<lparr>frames := newFrame m (unat (imm call)) (op call = Call) # f\<lparr>frameIp := frameIp f + 1\<rparr> # fs\<rparr>)"
  using runsNext_Cons(1,2) [OF assms(2)] assms
  by (auto simp: vmKernelStep_def Let_def handleSharedVmControlFlowOpcode_def isCallOpcode_def)

lemma return_step:
  assumes "frames s = f # fs" "fs \<noteq> []" "runsNext m f [r]" "isReturnOpcode (op r)" "returnOperand (op r) (opStack s) = Some (v, rest)"
  shows "vmKernelStep host m s =
    Running (s\<lparr>opStack := (if returnValueToCaller f then v # rest else rest), frames := fs\<rparr>)"
  using runsNext_Cons(1,2) [OF assms(3)] assms(1,2,4,5)
  by (auto simp: vmKernelStep_def Let_def handleSharedVmControlFlowOpcode_def cfLeave_def isReturnOpcode_def
      returnOperand_def split: list.splits)

lemma returnTail_run:
  assumes "isReturnOpcode opc" "returnOperand opc stk = Some (v, rest)"
    and "psh \<Longrightarrow> opc \<noteq> ReturnVoid \<Longrightarrow> hd stk = v"
  shows "runBody host m (returnTail opc psh) stk locals h wd = Some (if psh then v # rest else rest, locals, h, wd)"
proof (cases "opc = ReturnVoid")
  case True
  then have "v = 0" "rest = stk" using assms(2) by (simp_all add: returnOperand_def)
  then show ?thesis
    using True by (simp add: returnTail_def kernelData_def kernelPushLocal_def isPushLocalOpcode_def newInstruction_def sext32_def)
next
  case False
  then obtain w where stk: "stk = w # rest" using assms(2) by (auto simp: returnOperand_def split: list.splits)
  show ?thesis
  proof (cases psh)
    case True
    then show ?thesis using False stk assms(3) by (simp add: returnTail_def)
  next
    case no: False
    then show ?thesis
      using False stk by (simp add: returnTail_def kernelData_def kernelStackString_def isPushLocalOpcode_def
          isMemoryOpcode_def isStackStringOpcode_def newInstruction_def)
  qed
qed

lemma movable_plain: "movableInst inst \<Longrightarrow> \<not> isControlFlowOpcode (op (moveInst base inst))"
  by (simp add: movableInst_def moveInst_def newInstruction_def)

lemma returnTail_plain: "inst \<in> set (returnTail opc psh) \<Longrightarrow> \<not> isControlFlowOpcode (op inst)"
  by (auto simp: returnTail_def newInstruction_def isControlFlowOpcode_def split: if_splits)

section \<open>Properties\<close>



section \<open>Where inlining changes the result\<close>

text \<open>
  The truncation of \<open>ReturnI32\<close> is not kept: the callee returns 0 for a value whose low 32 bits are
  zero, the inlined code leaves the value itself.
\<close>

definition wideSample :: IrModule where
  "wideSample = sampleModule\<lparr>mod_functions :=
     [sampleFunction ''main'' [sampleInst Call 1, sampleInst ReturnI64 0],
      sampleFunction ''wide'' [sampleInst PushI64 0x100000000, sampleInst ReturnI32 0]]\<rparr>"

definition wideInlined :: IrModule where
  "wideInlined = sampleModule\<lparr>mod_functions :=
     [sampleFunction ''main'' [sampleInst PushI64 0x100000000, sampleInst ReturnI64 0],
      sampleFunction ''wide'' [sampleInst PushI64 0x100000000, sampleInst ReturnI32 0]]\<rparr>"

lemma wide_inlined: "inlineIrModuleCalls wideSample = Inr wideInlined"
  by code_simp

lemma wide_sel [simp]:
  "mod_functions wideSample =
     [sampleFunction ''main'' [sampleInst Call 1, sampleInst ReturnI64 0],
      sampleFunction ''wide'' [sampleInst PushI64 0x100000000, sampleInst ReturnI32 0]]"
  "mod_functions wideInlined =
     [sampleFunction ''main'' [sampleInst PushI64 0x100000000, sampleInst ReturnI64 0],
      sampleFunction ''wide'' [sampleInst PushI64 0x100000000, sampleInst ReturnI32 0]]"
  "entry_function wideSample = 0" "entry_function wideInlined = 0"
  by (simp_all add: wideSample_def wideInlined_def sampleModule_def entry_function_def)

lemma wide_steps:
  fixes host :: "'w VmHost"
  shows
  "initialState wideSample wd = sampleState [] [sampleFrame 0 0 False] wd"
  "vmKernelStep host wideSample (sampleState [] [sampleFrame 0 0 False] wd)
     = Running (sampleState [] [sampleFrame 1 0 True, sampleFrame 0 1 False] wd)"
  "vmKernelStep host wideSample (sampleState [] [sampleFrame 1 0 True, sampleFrame 0 1 False] wd)
     = Running (sampleState [0x100000000] [sampleFrame 1 1 True, sampleFrame 0 1 False] wd)"
  "vmKernelStep host wideSample (sampleState [0x100000000] [sampleFrame 1 1 True, sampleFrame 0 1 False] wd)
     = Running (sampleState [0] [sampleFrame 0 1 False] wd)"
  "vmKernelStep host wideSample (sampleState [0] [sampleFrame 0 1 False] wd)
     = Exited 0 (sampleState [] [sampleFrame 0 1 False] wd)"
  "initialState wideInlined wd = sampleState [] [sampleFrame 0 0 False] wd"
  "vmKernelStep host wideInlined (sampleState [] [sampleFrame 0 0 False] wd)
     = Running (sampleState [0x100000000] [sampleFrame 0 1 False] wd)"
  "vmKernelStep host wideInlined (sampleState [0x100000000] [sampleFrame 0 1 False] wd)
     = Exited 0x100000000 (sampleState [] [sampleFrame 0 1 False] wd)"
  by (simp_all add: initialState_def sampleState_def sampleFrame_def step_defs sext32_def maxCallDepth_def
      computeVmKernelLocalCount_def isLocalOpcode_def)

lemma inlining_drops_truncation:
  "inlineIrModuleCalls wideSample = Inr wideInlined
   \<and> vmKernelLoop host wideSample (initialState wideSample wd) = Some (Exited 0 (sampleState [] [sampleFrame 0 1 False] wd))
   \<and> vmKernelLoop host wideInlined (initialState wideInlined wd)
       = Some (Exited 0x100000000 (sampleState [] [sampleFrame 0 1 False] wd))"
proof (intro conjI wide_inlined)
  show "vmKernelLoop host wideSample (initialState wideSample wd) = Some (Exited 0 (sampleState [] [sampleFrame 0 1 False] wd))"
    by (rule runSteps_loop [where n = "Suc (Suc (Suc (Suc 0)))"]) (simp add: wide_steps [unfolded One_nat_def])
  show "vmKernelLoop host wideInlined (initialState wideInlined wd)
      = Some (Exited 0x100000000 (sampleState [] [sampleFrame 0 1 False] wd))"
    by (rule runSteps_loop [where n = "Suc (Suc 0)"]) (simp add: wide_steps [unfolded One_nat_def])
qed

end
