(* ===== verification/VrLowering.thy ===== *)
theory VrLowering
  imports VmKernel
begin

text \<open>
  Lowering to block-wise virtual registers and lifting back
  (\<^verbatim>\<open>src/IrVirtualRegisterLowering.cpp\<close>). Each function is split into basic blocks, the depth of
  the operand stack at every reachable block is computed, and every stack slot becomes a register.
  The fields \<^verbatim>\<open>predecessors\<close> and \<^verbatim>\<open>exitDepth\<close> of the source, which nothing reads, are left out;
  an unset entry depth (\<^verbatim>\<open>INT64_MIN\<close>) is \<open>None\<close>.
\<close>

section \<open>Data\<close>

record IrVirtualRegisterInstruction =
  vr_instruction :: IrInstruction
  useRegisters :: "u32 list"
  defRegisters :: "u32 list"

record IrVirtualRegisterEdgeMove =
  sourceRegister :: u32
  destinationRegister :: u32

record IrVirtualRegisterEdge =
  successorBlockIndex :: nat
  stackMoves :: "IrVirtualRegisterEdgeMove list"

record IrVirtualRegisterBlock =
  startInstructionIndex :: nat
  endInstructionIndex :: nat
  blockReachable :: bool
  entryRegisters :: "u32 list"
  exitRegisters :: "u32 list"
  blockInstructions :: "IrVirtualRegisterInstruction list"
  successorEdges :: "IrVirtualRegisterEdge list"

record IrVirtualRegisterFunction =
  vf_name :: string
  vf_metadata :: IrExecutionMetadata
  vf_localDebugSlots :: "IrLocalDebugSlot list"
  vf_blocks :: "IrVirtualRegisterBlock list"
  nextVirtualRegister :: u32

record IrVirtualRegisterModule =
  vm_functions :: "IrVirtualRegisterFunction list"
  vm_entryIndex :: i32
  vm_stringTable :: "string list"
  vm_structLayouts :: "IrStructLayout list"
  vm_instructionSourceMap :: "IrInstructionSourceMapEntry list"

record StackEffect =
  pops :: nat
  pushes :: nat
  readsWithoutPop :: nat

record BlockBuildInfo =
  blockStart :: nat
  blockEnd :: nat
  successors :: "nat list"

section \<open>Stack effects\<close>

definition isTerminatorOpcode :: "IrOpcode \<Rightarrow> bool" where
  "isTerminatorOpcode opc \<longleftrightarrow> opc = Jump \<or> opc = JumpIfZero \<or> isReturnOpcode opc"

definition effect :: "nat \<Rightarrow> nat \<Rightarrow> nat \<Rightarrow> StackEffect" where
  "effect p q r = \<lparr>pops = p, pushes = q, readsWithoutPop = r\<rparr>"

definition stackEffectForOpcode :: "IrInstruction \<Rightarrow> IrModule \<Rightarrow> StackEffect result" where
  "stackEffectForOpcode inst m =
     (if op inst \<in> set [PushI32, PushI64, PushF32, PushF64, PushArgc, LoadLocal, AddressOfLocal,
           FileOpenRead, FileOpenWrite, FileOpenAppend] then Inr (effect 0 1 0)
      else if op inst \<in> set [FileOpenReadDynamic, FileOpenWriteDynamic, FileOpenAppendDynamic]
      then Inr (effect 1 1 0)
      else if op inst \<in> set [StoreLocal, Pop, HeapFree, PrintI32, PrintI64, PrintU64, PrintStringDynamic,
           PrintArgv, PrintArgvUnsafe, JumpIfZero, ReturnI32, ReturnI64, ReturnF32, ReturnF64]
      then Inr (effect 1 0 0)
      else if op inst \<in> set [LoadIndirect, HeapAlloc, HeapRealloc, NegI32, NegI64, NegF32, NegF64,
           ConvertI32ToF32, ConvertI32ToF64, ConvertI64ToF32, ConvertI64ToF64, ConvertU64ToF32,
           ConvertU64ToF64, ConvertF32ToI32, ConvertF32ToI64, ConvertF32ToU64, ConvertF64ToI32,
           ConvertF64ToI64, ConvertF64ToU64, ConvertF32ToF64, ConvertF64ToF32, FileClose, FileFlush,
           FileReadByte, FileWriteString, FileWriteNewline, LoadStringByte, LoadStringLength]
      then Inr (effect 1 1 0)
      else if op inst \<in> set [StoreIndirect, AddI32, SubI32, MulI32, DivI32, AddI64, SubI64, MulI64, DivI64,
           DivU64, AddF32, SubF32, MulF32, DivF32, AddF64, SubF64, MulF64, DivF64, CmpEqI32, CmpNeI32,
           CmpLtI32, CmpLeI32, CmpGtI32, CmpGeI32, CmpEqI64, CmpNeI64, CmpLtI64, CmpLeI64, CmpGtI64,
           CmpGeI64, CmpLtU64, CmpLeU64, CmpGtU64, CmpGeU64, CmpEqF32, CmpNeF32, CmpLtF32, CmpLeF32,
           CmpGtF32, CmpGeF32, CmpEqF64, CmpNeF64, CmpLtF64, CmpLeF64, CmpGtF64, CmpGeF64, FileWriteI32,
           FileWriteI64, FileWriteU64, FileWriteStringDynamic, FileWriteByte]
      then Inr (effect 2 1 0)
      else if op inst = Dup then Inr (effect 0 1 1)
      else if op inst \<in> set [Jump, ReturnVoid, PrintString] then Inr (effect 0 0 0)
      else if op inst = Call \<or> op inst = CallVoid then
        (let params = (if unat (imm inst) < length (mod_functions m)
                       then parameterCount (mod_functions m ! unat (imm inst)) else 0) in
         if params > 255
         then Inl ''virtual-register lowering does not support call targets with more than 255 parameters''
         else Inr (effect (unat params) (if op inst = Call then 1 else 0) 0))
      else Inl ''unsupported opcode in virtual-register lowering'')"

section \<open>Blocks\<close>

fun collectLeaders :: "nat \<Rightarrow> nat \<Rightarrow> IrInstruction list \<Rightarrow> nat list result" where
  "collectLeaders n index [] = Inr []"
| "collectLeaders n index (inst # rest) =
     (if isJumpOpcode (op inst) \<and> unat (imm inst) > n
      then Inl ''virtual-register lowering found invalid jump target''
      else
        rbind (collectLeaders n (index + 1) rest)
          (\<lambda>more. Inr ((if isJumpOpcode (op inst) \<and> unat (imm inst) < n then [unat (imm inst)] else [])
             @ (if isTerminatorOpcode (op inst) \<and> index + 1 < n then [index + 1] else []) @ more)))"

definition computeBlockLeaders :: "IrFunction \<Rightarrow> nat list result" where
  "computeBlockLeaders f =
     (if instructions f = [] then Inr []
      else rbind (collectLeaders (length (instructions f)) 0 (instructions f))
             (\<lambda>ls. Inr (remdups_adj (sort (0 # ls)))))"

definition findBlockIndexForInstruction :: "nat list \<Rightarrow> nat \<Rightarrow> nat" where
  "findBlockIndexForInstruction leaders i =
     (let upper = length (takeWhile (\<lambda>l. l \<le> i) leaders) in if upper = 0 then 0 else upper - 1)"

definition addSuccessorUnique :: "nat list \<Rightarrow> nat \<Rightarrow> nat list" where
  "addSuccessorUnique succs successor = (if successor \<in> set succs then succs else succs @ [successor])"

definition blockSuccessors :: "IrFunction \<Rightarrow> nat list \<Rightarrow> nat \<Rightarrow> nat \<Rightarrow> nat \<Rightarrow> nat list result" where
  "blockSuccessors f leaders k start fin =
     (let n = length (instructions f); fallThrough = k + 1 < length leaders in
      if start = fin then Inr (if fallThrough then addSuccessorUnique [] (k + 1) else [])
      else
        (let lastInst = instructions f ! (fin - 1) in
         if isJumpOpcode (op lastInst) then
           (if unat (imm lastInst) > n then Inl ''virtual-register lowering found invalid jump target''
            else
              (let s1 = (if unat (imm lastInst) < n
                         then addSuccessorUnique [] (findBlockIndexForInstruction leaders (unat (imm lastInst))) else [])
               in Inr (if op lastInst = JumpIfZero \<and> fallThrough then addSuccessorUnique s1 (k + 1) else s1)))
         else Inr (if \<not> isReturnOpcode (op lastInst) \<and> fallThrough then addSuccessorUnique [] (k + 1) else [])))"

text \<open>A loop that maps and stops at the first error.\<close>

fun mapResult :: "('a \<Rightarrow> 'b result) \<Rightarrow> 'a list \<Rightarrow> 'b list result" where
  "mapResult f [] = Inr []"
| "mapResult f (x # xs) = rbind (f x) (\<lambda>y. rbind (mapResult f xs) (\<lambda>ys. Inr (y # ys)))"

definition blockEndOf :: "IrFunction \<Rightarrow> nat list \<Rightarrow> nat \<Rightarrow> nat" where
  "blockEndOf f leaders k = (if k + 1 < length leaders then leaders ! (k + 1) else length (instructions f))"

definition buildBlockGraph :: "IrFunction \<Rightarrow> nat list \<Rightarrow> BlockBuildInfo list result" where
  "buildBlockGraph f leaders =
     mapResult (\<lambda>k.
        let start = leaders ! k; fin = blockEndOf f leaders k in
        rbind (blockSuccessors f leaders k start fin)
          (\<lambda>succs. Inr \<lparr>blockStart = start, blockEnd = fin, successors = succs\<rparr>))
       [0..<length leaders]"

section \<open>Stack depths\<close>

text \<open>The depth behind the instructions of a block, with the instruction indices for the messages.\<close>

fun depthAfter :: "IrModule \<Rightarrow> (nat \<times> IrInstruction) list \<Rightarrow> nat \<Rightarrow> nat result" where
  "depthAfter m [] depth = Inr depth"
| "depthAfter m ((index, inst) # rest) depth =
     rbind (stackEffectForOpcode inst m) (\<lambda>eff.
       if pops eff > depth
       then Inl (''virtual-register lowering found stack underflow at instruction '' @ dec_nat index)
       else if readsWithoutPop eff > 0 \<and> depth < readsWithoutPop eff
       then Inl (''virtual-register lowering found invalid dup at instruction '' @ dec_nat index)
       else depthAfter m rest (depth - pops eff + pushes eff))"

definition blockCode :: "IrFunction \<Rightarrow> BlockBuildInfo \<Rightarrow> (nat \<times> IrInstruction) list" where
  "blockCode f b = map (\<lambda>i. (i, instructions f ! i)) [blockStart b..<blockEnd b]"

text \<open>
  The successors of a popped block get its exit depth, or are compared with it; the worklist is
  popped at the end where it was pushed, here its head. Successors are block indices
  (\<open>buildBlockGraph_successors\<close> below), so the range guard only makes the loop total.
\<close>

fun visitSuccessors :: "nat \<Rightarrow> nat list \<Rightarrow> nat option list \<Rightarrow> nat list \<Rightarrow> (nat option list \<times> nat list) result" where
  "visitSuccessors depth [] depths worklist = Inr (depths, worklist)"
| "visitSuccessors depth (s # ss) depths worklist =
     (if s \<ge> length depths then visitSuccessors depth ss depths worklist
      else
        (case depths ! s of
           None \<Rightarrow> visitSuccessors depth ss (depths[s := Some depth]) (s # worklist)
         | Some d \<Rightarrow>
             if d \<noteq> depth then Inl ''virtual-register lowering found inconsistent stack depth at block boundary''
             else visitSuccessors depth ss depths worklist))"

definition unsetDepths :: "nat option list \<Rightarrow> nat" where
  "unsetDepths depths = length (filter (\<lambda>d. d = None) depths)"

lemma unsetDepths_update:
  "s < length depths \<Longrightarrow> depths ! s = None \<Longrightarrow> Suc (unsetDepths (depths[s := Some d])) = unsetDepths depths"
  unfolding unsetDepths_def
proof (induction depths arbitrary: s)
  case (Cons a depths)
  then show ?case by (cases s) auto
qed simp

lemma visitSuccessors_measure:
  "visitSuccessors depth ss depths worklist = Inr (depths', worklist') \<Longrightarrow>
     2 * unsetDepths depths' + length worklist' \<le> 2 * unsetDepths depths + length worklist"
proof (induction depth ss depths worklist rule: visitSuccessors.induct)
  case (2 depth s ss depths worklist)
  show ?case
  proof (cases "s < length depths \<and> depths ! s = None")
    case True
    then show ?thesis using 2 unsetDepths_update [of s depths depth] by fastforce
  next
    case False
    then show ?thesis using 2 by (auto split: option.splits if_splits)
  qed
qed simp

function propagateLoop ::
  "IrFunction \<Rightarrow> IrModule \<Rightarrow> BlockBuildInfo list \<Rightarrow> nat option list \<Rightarrow> nat list \<Rightarrow> nat option list result" where
  "propagateLoop f m blocks depths [] = Inr depths"
| "propagateLoop f m blocks depths (k # worklist) =
     (case depths ! k of
        None \<Rightarrow> propagateLoop f m blocks depths worklist
      | Some depth \<Rightarrow>
          (case depthAfter m (blockCode f (blocks ! k)) depth of
             Inl e \<Rightarrow> Inl e
           | Inr out \<Rightarrow>
               (case visitSuccessors out (successors (blocks ! k)) depths worklist of
                  Inl e \<Rightarrow> Inl e
                | Inr (depths', worklist') \<Rightarrow> propagateLoop f m blocks depths' worklist')))"
  by pat_completeness auto
termination
  by (relation "measure (\<lambda>(f, m, blocks, depths, worklist). 2 * unsetDepths depths + length worklist)")
    (auto dest: visitSuccessors_measure)

definition propagateReachableStackDepths ::
  "IrFunction \<Rightarrow> IrModule \<Rightarrow> BlockBuildInfo list \<Rightarrow> nat option list result" where
  "propagateReachableStackDepths f m blocks =
     (if blocks = [] then Inr []
      else propagateLoop f m blocks ((replicate (length blocks) None)[0 := Some 0]) [0])"

section \<open>Lowering\<close>

text \<open>Registers \<open>r\<close>, \<open>r + 1\<close>, \<open>...\<close>: what \<^verbatim>\<open>nextRegisterId++\<close> hands out.\<close>

definition freshRegisters :: "u32 \<Rightarrow> nat \<Rightarrow> u32 list" where
  "freshRegisters r n = map (\<lambda>i. r + of_nat i) [0..<n]"

text \<open>The entry registers of the blocks in order; \<open>[]\<close> for an unreachable block.\<close>

fun assignEntryRegisters :: "nat option list \<Rightarrow> u32 \<Rightarrow> u32 list list \<times> u32" where
  "assignEntryRegisters [] r = ([], r)"
| "assignEntryRegisters (d # ds) r =
     (let n = (case d of None \<Rightarrow> 0 | Some n \<Rightarrow> n); (rest, r') = assignEntryRegisters ds (r + of_nat n)
      in (freshRegisters r n # rest, r'))"

text \<open>
  One instruction of a reachable block. The symbolic stack has its top at the end, as the vector of
  the source; the popped registers are listed from the lowest to the top.
\<close>

definition lowerInstruction :: "IrModule \<Rightarrow> nat \<Rightarrow> IrInstruction \<Rightarrow> u32 list \<Rightarrow> u32
    \<Rightarrow> (IrVirtualRegisterInstruction \<times> u32 list \<times> u32) result" where
  "lowerInstruction m index inst stack r =
     rbind (stackEffectForOpcode inst m) (\<lambda>eff.
       let n = length stack in
       if n < pops eff
       then Inl (''virtual-register lowering found stack underflow at instruction '' @ dec_nat index)
       else if readsWithoutPop eff > 0 \<and> n < readsWithoutPop eff
       then Inl (''virtual-register lowering found invalid dup at instruction '' @ dec_nat index)
       else
         (let reads = map (\<lambda>i. stack ! (n - i - 1)) [0..<readsWithoutPop eff];
              popped = drop (n - pops eff) stack;
              defs = freshRegisters r (pushes eff)
          in Inr (\<lparr>vr_instruction = inst, useRegisters = reads @ popped, defRegisters = defs\<rparr>,
                  take (n - pops eff) stack @ defs, r + of_nat (pushes eff))))"

fun lowerBlockCode :: "IrModule \<Rightarrow> (nat \<times> IrInstruction) list \<Rightarrow> u32 list \<Rightarrow> u32
    \<Rightarrow> (IrVirtualRegisterInstruction list \<times> u32 list \<times> u32) result" where
  "lowerBlockCode m [] stack r = Inr ([], stack, r)"
| "lowerBlockCode m ((index, inst) # rest) stack r =
     rbind (lowerInstruction m index inst stack r) (\<lambda>(v, stack', r').
     rbind (lowerBlockCode m rest stack' r') (\<lambda>(vs, stack'', r'').
       Inr (v # vs, stack'', r'')))"

definition plainInstruction :: "IrInstruction \<Rightarrow> IrVirtualRegisterInstruction" where
  "plainInstruction inst = \<lparr>vr_instruction = inst, useRegisters = [], defRegisters = []\<rparr>"

definition lowerEdge :: "nat option list \<Rightarrow> u32 list list \<Rightarrow> u32 list \<Rightarrow> nat \<Rightarrow> IrVirtualRegisterEdge result" where
  "lowerEdge depths entries stack s =
     (if depths ! s = None then Inr \<lparr>successorBlockIndex = s, stackMoves = []\<rparr>
      else if length stack \<noteq> length (entries ! s)
      then Inl ''virtual-register lowering found inconsistent stack width at block boundary''
      else Inr \<lparr>successorBlockIndex = s,
                stackMoves = map (\<lambda>(a, b). \<lparr>sourceRegister = a, destinationRegister = b\<rparr>) (zip stack (entries ! s))\<rparr>)"

definition lowerBlock :: "IrFunction \<Rightarrow> IrModule \<Rightarrow> BlockBuildInfo list \<Rightarrow> nat option list \<Rightarrow> u32 list list
    \<Rightarrow> nat \<Rightarrow> u32 \<Rightarrow> (IrVirtualRegisterBlock \<times> u32) result" where
  "lowerBlock f m blocks depths entries k r =
     (let b = blocks ! k; entry = entries ! k;
          base = \<lparr>startInstructionIndex = blockStart b, endInstructionIndex = blockEnd b, blockReachable = (depths ! k \<noteq> None),
                  entryRegisters = entry, exitRegisters = entry, blockInstructions = [], successorEdges = []\<rparr>
      in if depths ! k = None
         then Inr (base\<lparr>blockInstructions := map (plainInstruction \<circ> snd) (blockCode f b)\<rparr>, r)
         else
           rbind (lowerBlockCode m (blockCode f b) entry r) (\<lambda>(code, stack, r').
           rbind (mapResult (lowerEdge depths entries stack) (successors b)) (\<lambda>edges.
             Inr (base\<lparr>exitRegisters := stack, blockInstructions := code, successorEdges := edges\<rparr>, r'))))"

fun lowerBlocks :: "IrFunction \<Rightarrow> IrModule \<Rightarrow> BlockBuildInfo list \<Rightarrow> nat option list \<Rightarrow> u32 list list
    \<Rightarrow> nat list \<Rightarrow> u32 \<Rightarrow> (IrVirtualRegisterBlock list \<times> u32) result" where
  "lowerBlocks f m blocks depths entries [] r = Inr ([], r)"
| "lowerBlocks f m blocks depths entries (k # ks) r =
     rbind (lowerBlock f m blocks depths entries k r) (\<lambda>(b, r').
     rbind (lowerBlocks f m blocks depths entries ks r') (\<lambda>(bs, r'').
       Inr (b # bs, r'')))"

definition lowerFunctionToVirtualRegisters :: "IrFunction \<Rightarrow> IrModule \<Rightarrow> IrVirtualRegisterFunction result" where
  "lowerFunctionToVirtualRegisters f m =
     (let out = \<lparr>vf_name = fn_name f, vf_metadata = metadata f, vf_localDebugSlots = localDebugSlots f,
                 vf_blocks = [], nextVirtualRegister = 0\<rparr>
      in if instructions f = [] then Inr out
         else
           rbind (computeBlockLeaders f) (\<lambda>leaders.
           rbind (buildBlockGraph f leaders) (\<lambda>blocks.
           rbind (propagateReachableStackDepths f m blocks) (\<lambda>depths.
             let (entries, r) = assignEntryRegisters depths 0 in
             rbind (lowerBlocks f m blocks depths entries [0..<length blocks] r) (\<lambda>(bs, r').
               Inr (out\<lparr>vf_blocks := bs, nextVirtualRegister := r'\<rparr>))))))"

definition inFunction :: "string \<Rightarrow> string \<Rightarrow> 'a result \<Rightarrow> 'a result" where
  "inFunction pass nm r = (case r of Inl e \<Rightarrow> Inl (pass @ '' failed in function '' @ nm @ '': '' @ e) | Inr x \<Rightarrow> Inr x)"

definition lowerIrModuleToBlockVirtualRegisters :: "IrModule \<Rightarrow> IrVirtualRegisterModule result" where
  "lowerIrModuleToBlockVirtualRegisters m =
     rbind (mapResult (\<lambda>f. inFunction ''virtual-register lowering'' (fn_name f) (lowerFunctionToVirtualRegisters f m))
              (mod_functions m))
       (\<lambda>fns. Inr \<lparr>vm_functions = fns, vm_entryIndex = entryIndex m, vm_stringTable = stringTable m,
                    vm_structLayouts = structLayouts m, vm_instructionSourceMap = instructionSourceMap m\<rparr>)"

section \<open>Lifting\<close>

definition liftFunction :: "IrVirtualRegisterFunction \<Rightarrow> IrFunction" where
  "liftFunction v =
     \<lparr>fn_name = vf_name v, metadata = vf_metadata v, parameterCount = 0, localDebugSlots = vf_localDebugSlots v,
      instructions = concat (map (\<lambda>b. map vr_instruction (blockInstructions b)) (vf_blocks v))\<rparr>"

definition liftBlockVirtualRegistersToIrModule :: "IrVirtualRegisterModule \<Rightarrow> IrModule" where
  "liftBlockVirtualRegistersToIrModule v =
     \<lparr>schemaVersion = IrSchemaVersion, mod_functions = map liftFunction (vm_functions v), entryIndex = vm_entryIndex v,
      stringTable = vm_stringTable v, structLayouts = vm_structLayouts v, instructionSourceMap = vm_instructionSourceMap v\<rparr>"

end
