(* ===== verification/VrFacts.thy ===== *)
theory VrFacts
  imports VrLowering IrSamples
begin

text \<open>
  Facts about the lowering to virtual registers: the blocks cut the code of a function into
  consecutive pieces, so lifting gives the code back, and registers are handed out in order.
\<close>

section \<open>Blocks\<close>

lemma mapResult_Inr: "mapResult f xs = Inr ys \<longleftrightarrow> list_all2 (\<lambda>x y. f x = Inr y) xs ys"
  by (induction xs arbitrary: ys) (auto simp: rbind_Inr_iff list_all2_Cons1)

lemma collectLeaders_bound: "collectLeaders n i code = Inr ls \<Longrightarrow> l \<in> set ls \<Longrightarrow> l < n"
  by (induction n i code arbitrary: ls rule: collectLeaders.induct) (auto simp: rbind_Inr_iff split: if_splits)

lemma collectLeaders_complete:
  "collectLeaders n i code = Inr ls \<Longrightarrow> j < length code \<Longrightarrow>
     (isTerminatorOpcode (op (code ! j)) \<longrightarrow> i + j + 1 < n \<longrightarrow> i + j + 1 \<in> set ls)
     \<and> (isJumpOpcode (op (code ! j)) \<longrightarrow> unat (imm (code ! j)) \<le> n \<and> (unat (imm (code ! j)) < n \<longrightarrow> unat (imm (code ! j)) \<in> set ls))"
proof (induction n i code arbitrary: ls j rule: collectLeaders.induct)
  case (2 n i inst rest)
  from "2.prems"(1) obtain later where no: "\<not> (isJumpOpcode (op inst) \<and> unat (imm inst) > n)"
    and later: "collectLeaders n (i + 1) rest = Inr later"
    and ls: "ls = (if isJumpOpcode (op inst) \<and> unat (imm inst) < n then [unat (imm inst)] else [])
             @ (if isTerminatorOpcode (op inst) \<and> i + 1 < n then [i + 1] else []) @ later"
    by (auto simp: rbind_Inr_iff split: if_splits)
  show ?case
  proof (cases j)
    case 0
    then show ?thesis using no ls by auto
  next
    case (Suc j')
    then show ?thesis using "2.IH" [OF no later, of j'] "2.prems"(2) ls by simp
  qed
qed simp

text \<open>
  Leaders: 0, the targets of the jumps and the instructions behind a terminator, in order.
\<close>

definition leadersOf :: "IrFunction \<Rightarrow> nat list \<Rightarrow> bool" where
  "leadersOf f leaders \<longleftrightarrow> leaders \<noteq> [] \<and> hd leaders = 0 \<and> sorted_wrt (<) leaders \<and> (\<forall>l \<in> set leaders. l < length (instructions f))
     \<and> (\<forall>j < length (instructions f).
          (isTerminatorOpcode (op (instructions f ! j)) \<longrightarrow> j + 1 < length (instructions f) \<longrightarrow> j + 1 \<in> set leaders)
          \<and> (isJumpOpcode (op (instructions f ! j)) \<longrightarrow> unat (imm (instructions f ! j)) \<le> length (instructions f)
               \<and> (unat (imm (instructions f ! j)) < length (instructions f) \<longrightarrow> unat (imm (instructions f ! j)) \<in> set leaders)))"

lemma sorted_remdups_adj_strict: "sorted (xs :: nat list) \<Longrightarrow> sorted_wrt (<) (remdups_adj xs)"
  by (induction xs rule: remdups_adj.induct) (auto simp: less_le)

lemma computeBlockLeaders_leadersOf:
  assumes "computeBlockLeaders f = Inr leaders" "instructions f \<noteq> []"
  shows "leadersOf f leaders"
proof -
  from assms obtain ls where ls: "collectLeaders (length (instructions f)) 0 (instructions f) = Inr ls"
    and leaders: "leaders = remdups_adj (insort 0 (sort ls))"
    by (auto simp: computeBlockLeaders_def rbind_Inr_iff)
  have "insort 0 (sort ls) = 0 # sort ls" by (cases "sort ls") auto
  then have l: "leaders = remdups_adj (0 # sort ls)" by (simp add: leaders)
  have sorted: "sorted_wrt (<) leaders" unfolding l by (rule sorted_remdups_adj_strict) simp
  have set: "set leaders = insert 0 (set ls)" and ne: "leaders \<noteq> []" and hd: "hd leaders = 0" by (simp_all add: l)
  have bound: "\<forall>l \<in> insert 0 (set ls). l < length (instructions f)" using collectLeaders_bound [OF ls] assms(2) by auto
  show ?thesis
    unfolding leadersOf_def set
    using ne hd sorted bound collectLeaders_complete [OF ls] by (metis add_0 insertI2)
qed

text \<open>Consecutive ranges that start at the leaders cover everything behind the first leader.\<close>

lemma ranges_concat:
  "sorted leaders \<Longrightarrow> leaders \<noteq> [] \<Longrightarrow> \<forall>l \<in> set leaders. l \<le> n \<Longrightarrow>
     concat (map (\<lambda>k. [leaders ! k..<if k + 1 < length leaders then leaders ! (k + 1) else n]) [0..<length leaders]) = [hd leaders..<n]"
proof (induction leaders)
  case (Cons l ls)
  let ?G = "\<lambda>xs k. [xs ! k..<if k + 1 < length xs then xs ! (k + 1) else n]"
  have "map (?G (l # ls)) [0..<length (l # ls)] = ?G (l # ls) 0 # map (\<lambda>k. ?G (l # ls) (Suc k)) [0..<length ls]"
    by (simp only: list.size(4) add_0_right add_Suc_right map_upt_Suc)
  moreover have "?G (l # ls) (Suc k) = ?G ls k" for k by (cases "Suc k < length ls") auto
  ultimately have split: "concat (map (?G (l # ls)) [0..<length (l # ls)]) = ?G (l # ls) 0 @ concat (map (?G ls) [0..<length ls])"
    by (simp only: concat.simps)
  show ?case
  proof (cases "ls = []")
    case True
    then show ?thesis by simp
  next
    case False
    then obtain l' ls' where ls: "ls = l' # ls'" by (cases ls) auto
    then have "l \<le> l'" "l' \<le> n" using Cons.prems by auto
    then have "[l..<l'] @ [l'..<n] = [l..<n]" using upt_add_eq_append [of l l' "n - l'"] by simp
    moreover have "concat (map (?G ls) [0..<length ls]) = [l'..<n]" using Cons.IH Cons.prems ls by simp
    moreover have "?G (l # ls) 0 = [l..<l']" using ls by simp
    ultimately show ?thesis using split by (simp only: list.sel)
  qed
qed simp

definition graphOf :: "IrFunction \<Rightarrow> nat list \<Rightarrow> BlockBuildInfo list \<Rightarrow> bool" where
  "graphOf f leaders blocks \<longleftrightarrow> length blocks = length leaders
     \<and> (\<forall>k < length blocks. blockStart (blocks ! k) = leaders ! k \<and> blockEnd (blocks ! k) = blockEndOf f leaders k
          \<and> blockSuccessors f leaders k (leaders ! k) (blockEndOf f leaders k) = Inr (successors (blocks ! k))
          \<and> (\<forall>s \<in> set (successors (blocks ! k)). s < length blocks))"

lemma findBlockIndex_range: "leaders \<noteq> [] \<Longrightarrow> findBlockIndexForInstruction leaders i < length leaders"
  using length_takeWhile_le [of "\<lambda>l. l \<le> i" leaders]
  by (auto simp: findBlockIndexForInstruction_def Let_def simp flip: length_greater_0_conv)

lemma blockSuccessors_range:
  "blockSuccessors f leaders k start fin = Inr succs \<Longrightarrow> leaders \<noteq> [] \<Longrightarrow> s \<in> set succs \<Longrightarrow> s < length leaders"
  using findBlockIndex_range [of leaders]
  by (auto simp: blockSuccessors_def Let_def addSuccessorUnique_def split: if_splits)

lemma buildBlockGraph_successors:
  assumes "buildBlockGraph f leaders = Inr blocks"
  shows "graphOf f leaders blocks"
proof -
  let ?g = "\<lambda>k b. rbind (blockSuccessors f leaders k (leaders ! k) (blockEndOf f leaders k))
    (\<lambda>succs. Inr \<lparr>blockStart = leaders ! k, blockEnd = blockEndOf f leaders k, successors = succs\<rparr>) = Inr b"
  have all: "list_all2 ?g [0..<length leaders] blocks" using assms by (simp add: buildBlockGraph_def mapResult_Inr Let_def)
  then have len: "length blocks = length leaders" by (simp add: list_all2_lengthD [symmetric])
  have "blockStart (blocks ! k) = leaders ! k \<and> blockEnd (blocks ! k) = blockEndOf f leaders k
          \<and> blockSuccessors f leaders k (leaders ! k) (blockEndOf f leaders k) = Inr (successors (blocks ! k))
          \<and> (\<forall>s \<in> set (successors (blocks ! k)). s < length blocks)" if k: "k < length blocks" for k
  proof -
    have "?g k (blocks ! k)" using list_all2_nthD2 [OF all k] k len by simp
    then obtain succs where succs: "blockSuccessors f leaders k (leaders ! k) (blockEndOf f leaders k) = Inr succs"
      and b: "blocks ! k = \<lparr>blockStart = leaders ! k, blockEnd = blockEndOf f leaders k, successors = succs\<rparr>"
      by (auto simp: rbind_Inr_iff)
    moreover have "leaders \<noteq> []" using k len by auto
    ultimately show ?thesis using blockSuccessors_range [OF succs] len by simp
  qed
  then show ?thesis using len by (simp add: graphOf_def)
qed

text \<open>The pieces of code of the blocks, one behind the other, are the code of the function.\<close>

lemma blocks_cover:
  assumes "leadersOf f leaders" "graphOf f leaders blocks"
  shows "concat (map (\<lambda>k. map snd (blockCode f (blocks ! k))) [0..<length blocks]) = instructions f"
proof -
  let ?n = "length (instructions f)"
  have len: "length blocks = length leaders" using assms(2) by (simp add: graphOf_def)
  have "concat (map (\<lambda>k. map snd (blockCode f (blocks ! k))) [0..<length blocks])
      = concat (map (\<lambda>k. map (\<lambda>i. instructions f ! i) [leaders ! k..<blockEndOf f leaders k]) [0..<length leaders])"
    using assms(2) len by (auto simp: graphOf_def blockCode_def intro!: arg_cong [of _ _ concat])
  also have "\<dots> = map (\<lambda>i. instructions f ! i)
      (concat (map (\<lambda>k. [leaders ! k..<if k + 1 < length leaders then leaders ! (k + 1) else ?n]) [0..<length leaders]))"
    by (simp add: map_concat blockEndOf_def comp_def)
  also have "\<dots> = map (\<lambda>i. instructions f ! i) [0..<?n]"
    using assms(1) ranges_concat [of leaders ?n] by (simp add: leadersOf_def strict_sorted_iff order.strict_implies_order)
  also have "\<dots> = instructions f" by (rule map_nth)
  finally show ?thesis .
qed

section \<open>Lifting what was lowered\<close>

lemma lowerInstruction_instruction:
  "lowerInstruction m i inst stack r = Inr (v, stack', r') \<Longrightarrow> vr_instruction v = inst"
  by (auto simp: lowerInstruction_def rbind_Inr_iff Let_def split: if_splits)

lemma lowerBlockCode_instructions:
  "lowerBlockCode m code stack r = Inr (vs, stack', r') \<Longrightarrow> map vr_instruction vs = map snd code"
  by (induction m code stack r arbitrary: vs stack' r' rule: lowerBlockCode.induct)
    (auto simp: rbind_Inr_iff split_beta dest: lowerInstruction_instruction)

lemma lowerBlock_instructions:
  "lowerBlock f m blocks depths entries k r = Inr (b, r') \<Longrightarrow>
     map vr_instruction (blockInstructions b) = map snd (blockCode f (blocks ! k))"
  by (auto simp: lowerBlock_def Let_def rbind_Inr_iff plainInstruction_def split: if_splits prod.splits
      dest: lowerBlockCode_instructions)

lemma lowerBlocks_instructions:
  "lowerBlocks f m blocks depths entries ks r = Inr (bs, r') \<Longrightarrow>
     map (\<lambda>b. map vr_instruction (blockInstructions b)) bs = map (\<lambda>k. map snd (blockCode f (blocks ! k))) ks"
proof (induction ks arbitrary: r bs)
  case (Cons k ks)
  then show ?case by (auto simp: rbind_Inr_iff split_beta dest: lowerBlock_instructions)
qed simp

text \<open>What a successful lowering of a function with code consists of.\<close>

lemma lowerFunctionE:
  assumes "lowerFunctionToVirtualRegisters f m = Inr v" "instructions f \<noteq> []"
  obtains leaders blocks depths entries r where
    "leadersOf f leaders" "graphOf f leaders blocks" "blocks \<noteq> []" "propagateReachableStackDepths f m blocks = Inr depths"
    "assignEntryRegisters depths 0 = (entries, r)"
    "lowerBlocks f m blocks depths entries [0..<length blocks] r = Inr (vf_blocks v, nextVirtualRegister v)"
    "vf_name v = fn_name f" "vf_metadata v = metadata f" "vf_localDebugSlots v = localDebugSlots f"
proof -
  from assms obtain leaders blocks depths where l: "computeBlockLeaders f = Inr leaders"
    and b: "buildBlockGraph f leaders = Inr blocks" and d: "propagateReachableStackDepths f m blocks = Inr depths"
    by (auto simp: lowerFunctionToVirtualRegisters_def Let_def rbind_Inr_iff)
  obtain entries r where e: "assignEntryRegisters depths 0 = (entries, r)" by fastforce
  have "leadersOf f leaders" using computeBlockLeaders_leadersOf [OF l assms(2)] .
  moreover have "graphOf f leaders blocks" using buildBlockGraph_successors [OF b] .
  moreover from this calculation have "blocks \<noteq> []" by (auto simp: leadersOf_def graphOf_def)
  moreover have "lowerBlocks f m blocks depths entries [0..<length blocks] r = Inr (vf_blocks v, nextVirtualRegister v)
      \<and> vf_name v = fn_name f \<and> vf_metadata v = metadata f \<and> vf_localDebugSlots v = localDebugSlots f"
    using assms l b d e by (auto simp: lowerFunctionToVirtualRegisters_def Let_def rbind_Inr_iff)
  ultimately show ?thesis using that [of leaders blocks depths entries r] d e by blast
qed

lemma lower_lift_function:
  assumes "lowerFunctionToVirtualRegisters f m = Inr v"
  shows "liftFunction v = f\<lparr>parameterCount := 0\<rparr>"
proof (cases "instructions f = []")
  case True
  then show ?thesis
    using assms by (cases f) (auto simp: lowerFunctionToVirtualRegisters_def liftFunction_def)
next
  case False
  from assms False show ?thesis
  proof (rule lowerFunctionE)
    fix leaders blocks depths entries r
    assume "leadersOf f leaders" "graphOf f leaders blocks"
      and "lowerBlocks f m blocks depths entries [0..<length blocks] r = Inr (vf_blocks v, nextVirtualRegister v)"
      and "vf_name v = fn_name f" "vf_metadata v = metadata f" "vf_localDebugSlots v = localDebugSlots f"
    then show ?thesis using blocks_cover by (simp add: liftFunction_def lowerBlocks_instructions)
  qed
qed

text \<open>
  C31: Lifting undoes lowering. Whenever a module can be lowered to block-wise virtual registers,
  lifting the result gives the module back, except that the parameter counts of its functions are
  lost and the schema version is the current one.
\<close>

theorem lower_lift_roundtrip:
  assumes "lowerIrModuleToBlockVirtualRegisters m = Inr v"
  shows "liftBlockVirtualRegistersToIrModule v =
    m\<lparr>schemaVersion := IrSchemaVersion, mod_functions := map (\<lambda>f. f\<lparr>parameterCount := 0\<rparr>) (mod_functions m)\<rparr>"
proof -
  from assms have "list_all2 (\<lambda>f w. lowerFunctionToVirtualRegisters f m = Inr w) (mod_functions m) (vm_functions v)"
    by (auto simp: lowerIrModuleToBlockVirtualRegisters_def rbind_Inr_iff mapResult_Inr inFunction_def
        elim!: list_all2_mono split: sum.splits)
  then have "map liftFunction (vm_functions v) = map (\<lambda>f. f\<lparr>parameterCount := 0\<rparr>) (mod_functions m)"
    by (induction rule: list_all2_induct) (auto simp: lower_lift_function)
  then show ?thesis
    using assms by (auto simp: liftBlockVirtualRegistersToIrModule_def lowerIrModuleToBlockVirtualRegisters_def rbind_Inr_iff)
qed

section \<open>Reachable blocks\<close>

lemma visitSuccessors_spec:
  "visitSuccessors d ss depths wl = Inr (depths', wl') \<Longrightarrow> \<forall>s \<in> set ss. s < length depths \<Longrightarrow>
     length depths' = length depths \<and> set wl' = set wl \<union> {s \<in> set ss. depths ! s = None}
     \<and> (\<forall>s < length depths. depths' ! s = (if depths ! s = None \<and> s \<in> set ss then Some d else depths ! s))
     \<and> (\<forall>s \<in> set ss. depths' ! s = Some d)"
proof (induction d ss depths wl rule: visitSuccessors.induct)
  case (2 d s ss depths wl)
  have s: "s < length depths" using "2.prems"(2) by simp
  show ?case
  proof (cases "depths ! s")
    case None
    then have "visitSuccessors d ss (depths[s := Some d]) (s # wl) = Inr (depths', wl')" using "2.prems"(1) s by simp
    note ih = "2.IH"(2) [OF _ None this]
    show ?thesis using ih "2.prems"(2) s None by (auto simp: nth_list_update)
  next
    case (Some e)
    then have "e = d" "visitSuccessors d ss depths wl = Inr (depths', wl')" using "2.prems"(1) s by (auto split: if_splits)
    then show ?thesis using "2.IH"(3) [OF _ Some] "2.prems"(2) s Some by auto
  qed
qed simp

text \<open>
  A block that has a depth and is not waiting leaves with a depth its successors have.
\<close>

definition depthsPropagated :: "IrFunction \<Rightarrow> IrModule \<Rightarrow> BlockBuildInfo list \<Rightarrow> nat option list \<Rightarrow> nat list \<Rightarrow> bool" where
  "depthsPropagated f m blocks depths wl \<longleftrightarrow>
     (\<forall>k < length blocks. \<forall>d. depths ! k = Some d \<longrightarrow> k \<notin> set wl \<longrightarrow>
        (\<exists>out. depthAfter m (blockCode f (blocks ! k)) d = Inr out \<and> (\<forall>s \<in> set (successors (blocks ! k)). depths ! s = Some out)))"

lemma depthsPropagatedD:
  "depthsPropagated f m blocks D [] \<Longrightarrow> k < length blocks \<Longrightarrow> D ! k = Some d \<Longrightarrow>
     \<exists>out. depthAfter m (blockCode f (blocks ! k)) d = Inr out \<and> (\<forall>s \<in> set (successors (blocks ! k)). D ! s = Some out)"
  by (simp add: depthsPropagated_def)

definition blockEdge :: "BlockBuildInfo list \<Rightarrow> nat \<Rightarrow> nat \<Rightarrow> bool" where
  "blockEdge blocks k s \<longleftrightarrow> k < length blocks \<and> s \<in> set (successors (blocks ! k))"

lemma propagateLoop_spec:
  assumes "propagateLoop f m blocks depths wl = Inr D" "length depths = length blocks"
    and "\<forall>k < length blocks. \<forall>s \<in> set (successors (blocks ! k)). s < length blocks"
    and "\<forall>k \<in> set wl. k < length blocks \<and> depths ! k \<noteq> None" "depthsPropagated f m blocks depths wl"
    and "\<forall>k < length blocks. depths ! k \<noteq> None \<longrightarrow> (blockEdge blocks)\<^sup>*\<^sup>* 0 k"
  shows "length D = length blocks \<and> depthsPropagated f m blocks D [] \<and> (\<forall>k < length blocks. depths ! k \<noteq> None \<longrightarrow> D ! k = depths ! k)
    \<and> (\<forall>k < length blocks. D ! k \<noteq> None \<longrightarrow> (blockEdge blocks)\<^sup>*\<^sup>* 0 k)"
  using assms
proof (induction f m blocks depths wl rule: propagateLoop.induct)
  case (2 f m blocks depths k wl)
  from "2.prems"(4) obtain d where k: "k < length blocks" and d: "depths ! k = Some d" by auto
  from "2.prems"(1) d obtain out depths' wl' where out: "depthAfter m (blockCode f (blocks ! k)) d = Inr out"
    and visit: "visitSuccessors out (successors (blocks ! k)) depths wl = Inr (depths', wl')"
    and rest: "propagateLoop f m blocks depths' wl' = Inr D"
    by (auto split: sum.splits)
  have range: "\<forall>s \<in> set (successors (blocks ! k)). s < length depths" using "2.prems"(2,3) k by simp
  note v = visitSuccessors_spec [OF visit range]
  have kept: "depths' ! j = depths ! j" if "j < length blocks" "depths ! j \<noteq> None" for j
    using v that "2.prems"(2) by auto
  have "depthsPropagated f m blocks depths' wl'"
    unfolding depthsPropagated_def
  proof (intro allI impI)
    fix j e assume j: "j < length blocks" "depths' ! j = Some e" "j \<notin> set wl'"
    show "\<exists>out. depthAfter m (blockCode f (blocks ! j)) e = Inr out \<and> (\<forall>s \<in> set (successors (blocks ! j)). depths' ! s = Some out)"
    proof (cases "j = k")
      case True
      then show ?thesis using out d v j kept [OF k] by auto
    next
      case False
      have old: "depths ! j = Some e" "j \<notin> set wl" using v j "2.prems"(2) by (auto split: if_splits)
      then obtain o' where "depthAfter m (blockCode f (blocks ! j)) e = Inr o'" "\<forall>s \<in> set (successors (blocks ! j)). depths ! s = Some o'"
        using "2.prems"(5) j(1) False unfolding depthsPropagated_def by (metis set_ConsD)
      then show ?thesis using kept "2.prems"(3) j(1) by fastforce
    qed
  qed
  note propagated = this
  have waiting: "\<forall>j \<in> set wl'. j < length blocks \<and> depths' ! j \<noteq> None"
    using v "2.prems"(2,4) range kept by fastforce
  have reach: "\<forall>j < length blocks. depths' ! j \<noteq> None \<longrightarrow> (blockEdge blocks)\<^sup>*\<^sup>* 0 j"
  proof (intro allI impI)
    fix j assume j: "j < length blocks" "depths' ! j \<noteq> None"
    show "(blockEdge blocks)\<^sup>*\<^sup>* 0 j"
    proof (cases "depths ! j = None")
      case True
      then have "blockEdge blocks k j" using v j "2.prems"(2) k by (auto simp: blockEdge_def split: if_splits)
      moreover have "(blockEdge blocks)\<^sup>*\<^sup>* 0 k" using "2.prems"(6) k d by simp
      ultimately show ?thesis by simp
    next
      case False
      then show ?thesis using "2.prems"(6) j(1) by simp
    qed
  qed
  have "length depths' = length blocks" using v "2.prems"(2) by simp
  note ih = "2.IH"(2) [OF d out visit refl rest this "2.prems"(3) waiting propagated reach]
  then show ?case using kept by auto
qed (auto simp: depthsPropagated_def)

lemma propagateReachable_spec:
  assumes "propagateReachableStackDepths f m blocks = Inr D" "graphOf f leaders blocks" "blocks \<noteq> []"
  shows "length D = length blocks" "depthsPropagated f m blocks D []" "D ! 0 = Some 0"
    "k < length blocks \<Longrightarrow> D ! k \<noteq> None \<longleftrightarrow> (blockEdge blocks)\<^sup>*\<^sup>* 0 k"
proof -
  let ?d = "(replicate (length blocks) None)[0 := Some (0::nat)]"
  have loop: "propagateLoop f m blocks ?d [0] = Inr D" using assms(1,3) by (simp add: propagateReachableStackDepths_def)
  have range: "\<forall>k < length blocks. \<forall>s \<in> set (successors (blocks ! k)). s < length blocks"
    using assms(2) unfolding graphOf_def by blast
  have d: "?d ! j = (if j = 0 then Some 0 else None)" if "j < length blocks" for j
    using that by (cases "j = 0") (auto simp: nth_list_update)
  note spec = propagateLoop_spec [OF loop _ range]
  have all: "length D = length blocks \<and> depthsPropagated f m blocks D [] \<and> (\<forall>k < length blocks. ?d ! k \<noteq> None \<longrightarrow> D ! k = ?d ! k)
    \<and> (\<forall>k < length blocks. D ! k \<noteq> None \<longrightarrow> (blockEdge blocks)\<^sup>*\<^sup>* 0 k)"
    by (rule spec) (use assms(3) d in \<open>auto simp: depthsPropagated_def split: if_splits\<close>)
  then show "length D = length blocks" and propagated: "depthsPropagated f m blocks D []" and zero: "D ! 0 = Some 0"
    using assms(3) d by auto
  have "(blockEdge blocks)\<^sup>*\<^sup>* 0 j \<Longrightarrow> D ! j \<noteq> None" for j
  proof (induction rule: rtranclp_induct)
    case (step j i)
    then obtain d where "D ! j = Some d" by blast
    then obtain out where "\<forall>s \<in> set (successors (blocks ! j)). D ! s = Some out"
      using propagated step.hyps(2) unfolding depthsPropagated_def blockEdge_def by force
    then show ?case using step.hyps(2) unfolding blockEdge_def by auto
  qed (simp add: zero)
  then show "k < length blocks \<Longrightarrow> D ! k \<noteq> None \<longleftrightarrow> (blockEdge blocks)\<^sup>*\<^sup>* 0 k" using all by blast
qed

section \<open>Registers\<close>

lemma length_freshRegisters [simp]: "length (freshRegisters r n) = n"
  by (simp add: freshRegisters_def)

lemma freshRegisters_0 [simp]: "freshRegisters r 0 = []"
  by (simp add: freshRegisters_def)

lemma freshRegisters_none [simp]: "\<exists>n. freshRegisters r n = [] \<and> of_nat n = (0 :: u32)" "\<exists>n. [] = freshRegisters r n \<and> of_nat n = (0 :: u32)"
  by (rule exI [of _ 0]; simp)+

lemma freshRegisters_add: "freshRegisters r (a + b) = freshRegisters r a @ freshRegisters (r + of_nat a) b"
  by (rule nth_equalityI) (auto simp: freshRegisters_def nth_append algebra_simps simp flip: of_nat_add)

lemma assignEntryRegisters_spec:
  "assignEntryRegisters ds r = (es, r') \<Longrightarrow>
     (\<exists>n. concat es = freshRegisters r n \<and> r' = r + of_nat n) \<and> map length es = map (case_option 0 id) ds"
proof (induction ds arbitrary: r es r')
  case (Cons d ds)
  obtain rest r1 where rest: "assignEntryRegisters ds (r + of_nat (case_option 0 id d)) = (rest, r1)" by fastforce
  then have es: "es = freshRegisters r (case_option 0 id d) # rest" "r1 = r'"
    using Cons.prems by (auto simp: Let_def split: option.splits)
  obtain n where "concat rest = freshRegisters (r + of_nat (case_option 0 id d)) n" "r1 = r + of_nat (case_option 0 id d) + of_nat n"
    using Cons.IH [OF rest] by blast
  then have "concat es = freshRegisters r (case_option 0 id d + n)" "r' = r + of_nat (case_option 0 id d + n)"
    using es by (simp_all add: freshRegisters_add add.assoc)
  then show ?case using Cons.IH [OF rest] es by auto
qed simp

text \<open>Every register an instruction reads is one of \<open>A\<close> or was written before.\<close>

fun usesDefined :: "u32 set \<Rightarrow> IrVirtualRegisterInstruction list \<Rightarrow> bool" where
  "usesDefined A [] = True"
| "usesDefined A (v # vs) = (set (useRegisters v) \<subseteq> A \<and> usesDefined (A \<union> set (defRegisters v)) vs)"

definition blockDefs :: "IrVirtualRegisterInstruction list \<Rightarrow> u32 list" where
  "blockDefs vs = concat (map defRegisters vs)"

lemma blockDefs_simps [simp]: "blockDefs [] = []" "blockDefs (v # vs) = defRegisters v @ blockDefs vs"
  by (simp_all add: blockDefs_def)

lemma lowerInstruction_registers:
  assumes "lowerInstruction m i inst stack r = Inr (v, stack', r')"
  shows "\<exists>n. defRegisters v = freshRegisters r n \<and> r' = r + of_nat n"
    "set (useRegisters v) \<subseteq> set stack" "set stack' \<subseteq> set stack \<union> set (defRegisters v)"
proof -
  from assms obtain eff where eff: "stackEffectForOpcode inst m = Inr eff" "pops eff \<le> length stack" "readsWithoutPop eff \<le> length stack"
    and v: "v = \<lparr>vr_instruction = inst, useRegisters = map (\<lambda>i. stack ! (length stack - i - 1)) [0..<readsWithoutPop eff]
      @ drop (length stack - pops eff) stack, defRegisters = freshRegisters r (pushes eff)\<rparr>"
    and s: "stack' = take (length stack - pops eff) stack @ freshRegisters r (pushes eff)" "r' = r + of_nat (pushes eff)"
    by (auto simp: lowerInstruction_def rbind_Inr_iff Let_def split: if_splits)
  show "\<exists>n. defRegisters v = freshRegisters r n \<and> r' = r + of_nat n" "set stack' \<subseteq> set stack \<union> set (defRegisters v)"
    using v s by (auto dest: in_set_takeD)
  show "set (useRegisters v) \<subseteq> set stack"
    using v eff(3) by (auto dest: in_set_dropD)
qed

lemma lowerBlockCode_registers:
  "lowerBlockCode m code stack r = Inr (vs, stack', r') \<Longrightarrow>
     (\<exists>n. blockDefs vs = freshRegisters r n \<and> r' = r + of_nat n)
     \<and> set stack' \<subseteq> set stack \<union> set (blockDefs vs) \<and> (set stack \<subseteq> A \<longrightarrow> usesDefined A vs)"
proof (induction m code stack r arbitrary: vs stack' r' A rule: lowerBlockCode.induct)
  case (2 m i inst rest stack r)
  from "2.prems" obtain v s1 r1 ws where one: "lowerInstruction m i inst stack r = Inr (v, s1, r1)"
    and more: "lowerBlockCode m rest s1 r1 = Inr (ws, stack', r')" and vs: "vs = v # ws"
    by (auto simp: rbind_Inr_iff split_beta)
  note regs = lowerInstruction_registers [OF one]
  obtain a where a: "defRegisters v = freshRegisters r a" "r1 = r + of_nat a" using regs(1) by blast
  obtain b where b: "blockDefs ws = freshRegisters r1 b" "r' = r1 + of_nat b" using "2.IH" [OF more] by blast
  have rest: "set stack' \<subseteq> set s1 \<union> set (blockDefs ws)" and uses: "set s1 \<subseteq> B \<Longrightarrow> usesDefined B ws" for B
    using "2.IH" [OF more, of B] by simp_all
  have "blockDefs vs = freshRegisters r (a + b)" "r' = r + of_nat (a + b)"
    using a b by (simp_all add: vs freshRegisters_add add.assoc)
  moreover have "set stack' \<subseteq> set stack \<union> set (blockDefs vs)" 
    using rest regs(3) by (simp add: vs) blast
  moreover have "usesDefined A vs" if "set stack \<subseteq> A"
  proof -
    have "set s1 \<subseteq> A \<union> set (defRegisters v)" "set (useRegisters v) \<subseteq> A" using that regs(2,3) by blast+
    then show ?thesis using uses by (simp add: vs)
  qed
  ultimately show ?case by (intro conjI exI [of _ "a + b"] impI)
qed simp

lemma lowerBlockCode_depth:
  "lowerBlockCode m code stack r = Inr (vs, stack', r') \<Longrightarrow> depthAfter m code (length stack) = Inr (length stack')"
proof (induction m code stack r arbitrary: vs stack' r' rule: lowerBlockCode.induct)
  case (2 m i inst rest stack r)
  from "2.prems" obtain v s1 r1 ws where one: "lowerInstruction m i inst stack r = Inr (v, s1, r1)"
    and more: "lowerBlockCode m rest s1 r1 = Inr (ws, stack', r')"
    by (auto simp: rbind_Inr_iff split_beta)
  from one have "depthAfter m ((i, inst) # rest) (length stack) = depthAfter m rest (length s1)"
    by (auto simp: lowerInstruction_def rbind_Inr_iff Let_def split: if_splits)
  then show ?case using "2.IH" [OF more] by simp
qed simp

text \<open>What the lowering makes of block \<open>k\<close>; \<open>D\<close> are the depths, \<open>entries\<close> the entry registers.\<close>

lemma lowerBlock_reachable:
  assumes "lowerBlock f m blocks D entries k r = Inr (b, r')" "D ! k \<noteq> None"
  shows "blockReachable b" "entryRegisters b = entries ! k" "startInstructionIndex b = blockStart (blocks ! k)"
    "endInstructionIndex b = blockEnd (blocks ! k)"
    "lowerBlockCode m (blockCode f (blocks ! k)) (entries ! k) r = Inr (blockInstructions b, exitRegisters b, r')"
    "mapResult (lowerEdge D entries (exitRegisters b)) (successors (blocks ! k)) = Inr (successorEdges b)"
proof -
  from assms obtain code stack edges where "lowerBlockCode m (blockCode f (blocks ! k)) (entries ! k) r = Inr (code, stack, r')"
    and "mapResult (lowerEdge D entries stack) (successors (blocks ! k)) = Inr edges"
    and "b = \<lparr>startInstructionIndex = blockStart (blocks ! k), endInstructionIndex = blockEnd (blocks ! k), blockReachable = True,
           entryRegisters = entries ! k, exitRegisters = stack, blockInstructions = code, successorEdges = edges\<rparr>"
    unfolding lowerBlock_def Let_def rbind_Inr_iff split_beta by (simp split: if_split_asm add: rbind_Inr_iff split_beta) force
  then show "blockReachable b" "entryRegisters b = entries ! k" "startInstructionIndex b = blockStart (blocks ! k)"
    "endInstructionIndex b = blockEnd (blocks ! k)"
    "lowerBlockCode m (blockCode f (blocks ! k)) (entries ! k) r = Inr (blockInstructions b, exitRegisters b, r')"
    "mapResult (lowerEdge D entries (exitRegisters b)) (successors (blocks ! k)) = Inr (successorEdges b)"
    by simp_all
qed

lemma lowerBlock_unreachable:
  assumes "lowerBlock f m blocks D entries k r = Inr (b, r')" "D ! k = None"
  shows "\<not> blockReachable b" "entryRegisters b = entries ! k" "blockDefs (blockInstructions b) = []" "successorEdges b = []" "r' = r"
  using assms by (auto simp: lowerBlock_def Let_def blockDefs_def plainInstruction_def)

lemma lowerBlocks_all:
  "lowerBlocks f m blocks D entries ks r = Inr (bs, r') \<Longrightarrow>
     list_all2 (\<lambda>k b. \<exists>r0 r1. lowerBlock f m blocks D entries k r0 = Inr (b, r1)) ks bs"
  by (induction ks arbitrary: r bs) (auto simp: rbind_Inr_iff split_beta)

lemma lowerBlocks_registers:
  "lowerBlocks f m blocks D entries ks r = Inr (bs, r') \<Longrightarrow>
     \<exists>n. concat (map (blockDefs \<circ> blockInstructions) bs) = freshRegisters r n \<and> r' = r + of_nat n"
proof (induction ks arbitrary: r bs)
  case (Cons k ks)
  then obtain b r1 cs where b: "lowerBlock f m blocks D entries k r = Inr (b, r1)"
    and cs: "lowerBlocks f m blocks D entries ks r1 = Inr (cs, r')" and bs: "bs = b # cs"
    by (auto simp: rbind_Inr_iff split_beta)
  obtain a where "blockDefs (blockInstructions b) = freshRegisters r a" "r1 = r + of_nat a"
    using lowerBlock_unreachable(3,5) [OF b] lowerBlockCode_registers [OF lowerBlock_reachable(5) [OF b]]
    by (cases "D ! k = None") (auto intro: that [of 0])
  moreover obtain c where "concat (map (blockDefs \<circ> blockInstructions) cs) = freshRegisters r1 c" "r' = r1 + of_nat c"
    using Cons.IH [OF cs] by blast
  ultimately show ?case by (intro exI [of _ "a + c"]) (simp add: bs comp_def freshRegisters_add add.assoc)
qed simp

text \<open>The registers a function was given, in the order the counter handed them out.\<close>

definition handedOut :: "IrVirtualRegisterFunction \<Rightarrow> u32 list" where
  "handedOut v = concat (map entryRegisters (vf_blocks v)) @ concat (map (blockDefs \<circ> blockInstructions) (vf_blocks v))"

lemma handedOut_fresh:
  assumes "lowerFunctionToVirtualRegisters f m = Inr v"
  shows "handedOut v = freshRegisters 0 (length (handedOut v)) \<and> nextVirtualRegister v = of_nat (length (handedOut v))"
proof (cases "instructions f = []")
  case True
  then show ?thesis using assms by (auto simp: lowerFunctionToVirtualRegisters_def handedOut_def)
next
  case False
  from assms False show ?thesis
  proof (rule lowerFunctionE)
    fix leaders blocks D entries r
    assume g: "graphOf f leaders blocks" and ne: "blocks \<noteq> []" and D: "propagateReachableStackDepths f m blocks = Inr D"
      and e: "assignEntryRegisters D 0 = (entries, r)"
      and bs: "lowerBlocks f m blocks D entries [0..<length blocks] r = Inr (vf_blocks v, nextVirtualRegister v)"
    have all: "list_all2 (\<lambda>k b. entryRegisters b = entries ! k) [0..<length blocks] (vf_blocks v)"
      using lowerBlocks_all [OF bs] by (rule list_all2_mono) (metis lowerBlock_reachable(2) lowerBlock_unreachable(2))
    have "length entries = length blocks"
      using assignEntryRegisters_spec [OF e] propagateReachable_spec(1) [OF D g ne] map_eq_imp_length_eq by metis
    then have "map entryRegisters (vf_blocks v) = entries"
      using all by (intro nth_equalityI) (auto simp: list_all2_conv_all_nth)
    moreover obtain a where "concat entries = freshRegisters 0 a" "r = 0 + of_nat a" using assignEntryRegisters_spec [OF e] by blast
    moreover obtain c where "concat (map (blockDefs \<circ> blockInstructions) (vf_blocks v)) = freshRegisters r c"
        "nextVirtualRegister v = r + of_nat c" using lowerBlocks_registers [OF bs] by blast
    ultimately have "handedOut v = freshRegisters 0 (a + c)" "nextVirtualRegister v = of_nat (a + c)"
      by (simp_all add: handedOut_def freshRegisters_add)
    then show ?thesis by (metis length_freshRegisters)
  qed
qed

lemma unat_register: "n < 2 ^ 32 \<Longrightarrow> unat (of_nat n :: u32) = n"
  by (simp add: unat_of_nat)

lemma freshRegisters_distinct: "n \<le> 2 ^ 32 \<Longrightarrow> distinct (freshRegisters 0 n)"
  by (auto simp: freshRegisters_def distinct_map unat_register intro!: inj_on_inverseI [of _ unat])

lemma freshRegisters_range:
  assumes "n < 2 ^ 32"
  shows "r \<in> set (freshRegisters 0 n) \<longleftrightarrow> r < of_nat n"
proof -
  have "r \<in> set (freshRegisters 0 n) \<longleftrightarrow> (\<exists>i < n. r = of_nat i)" by (auto simp: freshRegisters_def)
  also have "\<dots> \<longleftrightarrow> unat r < n"
  proof
    assume "\<exists>i < n. r = of_nat i"
    then obtain i where "i < n" "r = of_nat i" by blast
    then show "unat r < n" using assms unat_register [of i] by simp
  next
    assume "unat r < n"
    moreover have "r = of_nat (unat r)" by (simp only: of_nat_unat ucast_id)
    ultimately show "\<exists>i < n. r = of_nat i" by blast
  qed
  also have "\<dots> \<longleftrightarrow> r < of_nat n" using assms unat_register [of n] by (simp only: word_less_nat_alt)
  finally show ?thesis .
qed

section \<open>Single assignment\<close>

text \<open>The facts a lowered function offers, with its blocks, depths and entry registers.\<close>

definition loweredFrom :: "IrFunction \<Rightarrow> IrModule \<Rightarrow> IrVirtualRegisterFunction \<Rightarrow> BlockBuildInfo list \<Rightarrow> nat option list
    \<Rightarrow> u32 list list \<Rightarrow> bool" where
  "loweredFrom f m v blocks D entries \<longleftrightarrow>
     blocks \<noteq> [] \<and> length (vf_blocks v) = length blocks \<and> length entries = length blocks \<and> depthsPropagated f m blocks D [] \<and> D ! 0 = Some 0
     \<and> (\<forall>k < length blocks. length (entries ! k) = case_option 0 id (D ! k))
     \<and> (\<forall>k < length blocks. D ! k \<noteq> None \<longleftrightarrow> (blockEdge blocks)\<^sup>*\<^sup>* 0 k)
     \<and> (\<forall>k < length blocks. \<forall>s \<in> set (successors (blocks ! k)). s < length blocks)
     \<and> (\<forall>k < length blocks. \<exists>r r'. lowerBlock f m blocks D entries k r = Inr (vf_blocks v ! k, r'))"

lemma loweredFrom_exists:
  assumes "lowerFunctionToVirtualRegisters f m = Inr v" "instructions f \<noteq> []"
  obtains leaders blocks D entries where "leadersOf f leaders" "graphOf f leaders blocks" "loweredFrom f m v blocks D entries"
  using assms
proof (rule lowerFunctionE)
  fix leaders blocks D entries r
  assume l: "leadersOf f leaders" and g: "graphOf f leaders blocks" and ne: "blocks \<noteq> []"
    and D: "propagateReachableStackDepths f m blocks = Inr D" and e: "assignEntryRegisters D 0 = (entries, r)"
    and bs: "lowerBlocks f m blocks D entries [0..<length blocks] r = Inr (vf_blocks v, nextVirtualRegister v)"
  note spec = propagateReachable_spec [OF D g ne]
  have widths: "map length entries = map (case_option 0 id) D" using assignEntryRegisters_spec [OF e] by blast
  then have len: "length entries = length blocks" using spec(1) map_eq_imp_length_eq by metis
  moreover have "\<forall>k < length blocks. length (entries ! k) = case_option 0 id (D ! k)"
    using widths len spec(1) by (metis nth_map)
  moreover have "length (vf_blocks v) = length blocks"
    "\<forall>k < length blocks. \<exists>r r'. lowerBlock f m blocks D entries k r = Inr (vf_blocks v ! k, r')"
    using lowerBlocks_all [OF bs] by (auto simp: list_all2_conv_all_nth)
  ultimately have "loweredFrom f m v blocks D entries"
    using ne spec g unfolding loweredFrom_def graphOf_def by blast
  then show ?thesis using that l g by blast
qed

lemma lowerEdge_indices:
  assumes "mapResult (lowerEdge D entries stack) succs = Inr edges"
  shows "map successorBlockIndex edges = succs"
    "e \<in> set edges \<Longrightarrow> lowerEdge D entries stack (successorBlockIndex e) = Inr e"
proof -
  have "list_all2 (\<lambda>s e. successorBlockIndex e = s \<and> lowerEdge D entries stack s = Inr e) succs edges"
    using assms unfolding mapResult_Inr by (rule list_all2_mono) (auto simp: lowerEdge_def split: if_splits)
  then show "map successorBlockIndex edges = succs" "e \<in> set edges \<Longrightarrow> lowerEdge D entries stack (successorBlockIndex e) = Inr e"
    by (induction rule: list_all2_induct) auto
qed

text \<open>A reachable block of a lowered function; its successors are reachable, with as many entry registers as it has exit registers.\<close>

lemma loweredFrom_block:
  assumes low: "loweredFrom f m v blocks D entries" and k: "k < length (vf_blocks v)"
  shows "blockReachable (vf_blocks v ! k) \<longleftrightarrow> D ! k \<noteq> None" "entryRegisters (vf_blocks v ! k) = entries ! k"
    "blockReachable (vf_blocks v ! k) \<Longrightarrow> usesDefined (set (entryRegisters (vf_blocks v ! k))) (blockInstructions (vf_blocks v ! k))"
    "blockReachable (vf_blocks v ! k) \<Longrightarrow> map successorBlockIndex (successorEdges (vf_blocks v ! k)) = successors (blocks ! k)"
    "\<not> blockReachable (vf_blocks v ! k) \<Longrightarrow> successorEdges (vf_blocks v ! k) = []"
proof -
  obtain r r' where b: "lowerBlock f m blocks D entries k r = Inr (vf_blocks v ! k, r')"
    using low k by (auto simp: loweredFrom_def)
  note no = lowerBlock_unreachable [OF b] and yes = lowerBlock_reachable [OF b]
  show reach: "blockReachable (vf_blocks v ! k) \<longleftrightarrow> D ! k \<noteq> None" using no(1) yes(1) by blast
  show "entryRegisters (vf_blocks v ! k) = entries ! k" using no(2) yes(2) by blast
  show "\<not> blockReachable (vf_blocks v ! k) \<Longrightarrow> successorEdges (vf_blocks v ! k) = []" using no(4) reach by blast
  assume "blockReachable (vf_blocks v ! k)"
  then have D: "D ! k \<noteq> None" using reach by simp
  show "usesDefined (set (entryRegisters (vf_blocks v ! k))) (blockInstructions (vf_blocks v ! k))"
    using lowerBlockCode_registers [OF yes(5) [OF D], of "set (entries ! k)"] yes(2) [OF D] by simp
  show "map successorBlockIndex (successorEdges (vf_blocks v ! k)) = successors (blocks ! k)"
    using lowerEdge_indices(1) [OF yes(6) [OF D]] .
qed

lemma loweredFrom_edge:
  assumes low: "loweredFrom f m v blocks D entries" and k: "k < length (vf_blocks v)" and e: "e \<in> set (successorEdges (vf_blocks v ! k))"
  shows "successorBlockIndex e < length (vf_blocks v)" "blockReachable (vf_blocks v ! successorBlockIndex e)"
    "map sourceRegister (stackMoves e) = exitRegisters (vf_blocks v ! k)"
    "map destinationRegister (stackMoves e) = entryRegisters (vf_blocks v ! successorBlockIndex e)"
proof -
  let ?s = "successorBlockIndex e"
  obtain r r' where b: "lowerBlock f m blocks D entries k r = Inr (vf_blocks v ! k, r')"
    using low k by (auto simp: loweredFrom_def)
  have reach: "blockReachable (vf_blocks v ! k)" using loweredFrom_block(5) [OF low k] e by (metis empty_iff empty_set)
  then have D: "D ! k \<noteq> None" using loweredFrom_block(1) [OF low k] by simp
  have s: "?s \<in> set (successors (blocks ! k))"
    using loweredFrom_block(4) [OF low k reach] e by (metis image_eqI list.set_map)
  then show lt: "?s < length (vf_blocks v)" using low k by (auto simp: loweredFrom_def)
  obtain d where "D ! k = Some d" using D by blast
  then obtain out where out: "D ! ?s = Some out"
    using depthsPropagatedD [of f m blocks D k d] low k s by (auto simp: loweredFrom_def)
  then show "blockReachable (vf_blocks v ! ?s)" using loweredFrom_block(1) [OF low lt] by simp
  have edge: "lowerEdge D entries (exitRegisters (vf_blocks v ! k)) ?s = Inr e"
    using lowerEdge_indices(2) [OF lowerBlock_reachable(6) [OF b D] e] .
  then have len: "length (exitRegisters (vf_blocks v ! k)) = length (entries ! ?s)"
    and e: "e = \<lparr>successorBlockIndex = ?s,
      stackMoves = map (\<lambda>(a, b). \<lparr>sourceRegister = a, destinationRegister = b\<rparr>) (zip (exitRegisters (vf_blocks v ! k)) (entries ! ?s))\<rparr>"
    using out by (auto simp: lowerEdge_def split: if_splits)
  have moves: "stackMoves e = map (\<lambda>(a, b). \<lparr>sourceRegister = a, destinationRegister = b\<rparr>) (zip (exitRegisters (vf_blocks v ! k)) (entries ! ?s))"
    by (subst e) simp
  show "map sourceRegister (stackMoves e) = exitRegisters (vf_blocks v ! k)"
    using len by (intro nth_equalityI) (auto simp: moves)
  show "map destinationRegister (stackMoves e) = entryRegisters (vf_blocks v ! ?s)"
    using len loweredFrom_block(2) [OF low lt] by (intro nth_equalityI) (auto simp: moves)
qed

text \<open>The control-flow edges of the lowered function.\<close>

definition vrEdge :: "IrVirtualRegisterFunction \<Rightarrow> nat \<Rightarrow> nat \<Rightarrow> bool" where
  "vrEdge v k s \<longleftrightarrow> k < length (vf_blocks v) \<and> (\<exists>e \<in> set (successorEdges (vf_blocks v ! k)). successorBlockIndex e = s)"

lemma loweredFrom_reachable:
  assumes low: "loweredFrom f m v blocks D entries" and k: "k < length (vf_blocks v)"
  shows "blockReachable (vf_blocks v ! k) \<longleftrightarrow> (vrEdge v)\<^sup>*\<^sup>* 0 k"
proof
  assume "blockReachable (vf_blocks v ! k)"
  then have "(blockEdge blocks)\<^sup>*\<^sup>* 0 k" using loweredFrom_block(1) [OF low k] low k by (auto simp: loweredFrom_def)
  then have "(vrEdge v)\<^sup>*\<^sup>* 0 k \<and> (k < length blocks \<longrightarrow> D ! k \<noteq> None)"
  proof (induction rule: rtranclp_induct)
    case base
    then show ?case using low by (simp add: loweredFrom_def)
  next
    case (step i j)
    then have i: "i < length (vf_blocks v)" and j: "j \<in> set (successors (blocks ! i))" and D: "D ! i \<noteq> None"
      using low by (auto simp: blockEdge_def loweredFrom_def)
    have "blockReachable (vf_blocks v ! i)" using loweredFrom_block(1) [OF low i] D by simp
    from loweredFrom_block(4) [OF low i this] j have "j \<in> successorBlockIndex ` set (successorEdges (vf_blocks v ! i))"
      by (metis list.set_map)
    then have "vrEdge v i j" using i by (auto simp: vrEdge_def)
    moreover have "j < length blocks \<longrightarrow> D ! j \<noteq> None"
      using step.hyps low unfolding loweredFrom_def by (meson rtranclp.rtrancl_into_rtrancl)
    ultimately show ?case using step.IH by auto
  qed
  then show "(vrEdge v)\<^sup>*\<^sup>* 0 k" by simp
next
  assume "(vrEdge v)\<^sup>*\<^sup>* 0 k"
  then show "blockReachable (vf_blocks v ! k)"
  proof (induction rule: rtranclp_induct)
    case base
    then show ?case using low loweredFrom_block(1) [OF low, of 0] by (simp add: loweredFrom_def)
  next
    case (step i j)
    then show ?case using loweredFrom_edge(2) [OF low] by (auto simp: vrEdge_def)
  qed
qed

text \<open>
  C32: The lowered code of a function is in single-assignment form. As long as the register counter
  does not wrap, every register is handed out once, to an entry slot of a block or as the result of
  one instruction, and the registers are exactly those below \<open>nextVirtualRegister\<close>. The blocks marked
  reachable are those a path of edges from block 0 leads to; in such a block every register is
  written before it is read, and each of its edges leads to a reachable block and moves its exit
  registers, in order, to the entry registers of that block.
\<close>

theorem lowered_single_assignment:
  assumes "lowerFunctionToVirtualRegisters f m = Inr v" "length (handedOut v) < 2 ^ 32"
  shows "distinct (handedOut v) \<and> set (handedOut v) = {r. r < nextVirtualRegister v}
    \<and> (\<forall>k < length (vf_blocks v).
         (blockReachable (vf_blocks v ! k) \<longleftrightarrow> (vrEdge v)\<^sup>*\<^sup>* 0 k)
         \<and> (blockReachable (vf_blocks v ! k) \<longrightarrow> usesDefined (set (entryRegisters (vf_blocks v ! k))) (blockInstructions (vf_blocks v ! k)))
         \<and> (\<forall>e \<in> set (successorEdges (vf_blocks v ! k)).
              successorBlockIndex e < length (vf_blocks v) \<and> blockReachable (vf_blocks v ! successorBlockIndex e)
              \<and> map sourceRegister (stackMoves e) = exitRegisters (vf_blocks v ! k)
              \<and> map destinationRegister (stackMoves e) = entryRegisters (vf_blocks v ! successorBlockIndex e)))"
    (is "_ \<and> _ \<and> ?blocks")
proof -
  note fresh = handedOut_fresh [OF assms(1)]
  have "distinct (handedOut v)"
    using fresh freshRegisters_distinct [of "length (handedOut v)"] assms(2) by (metis less_imp_le)
  moreover have "r \<in> set (handedOut v) \<longleftrightarrow> r < nextVirtualRegister v" for r
    using fresh freshRegisters_range [OF assms(2), of r] by metis
  moreover have ?blocks
  proof (cases "instructions f = []")
    case True
    then show ?thesis using assms(1) by (auto simp: lowerFunctionToVirtualRegisters_def)
  next
    case False
    obtain leaders blocks D entries where low: "loweredFrom f m v blocks D entries"
      using loweredFrom_exists [OF assms(1) False] by blast
    show ?thesis using loweredFrom_reachable [OF low] loweredFrom_block(3) [OF low] loweredFrom_edge [OF low] by blast
  qed
  ultimately show ?thesis by blast
qed

text \<open>A loop that counts local 0 down with a value left on the stack, and code nothing reaches.\<close>

definition countdown :: IrFunction where
  "countdown = sampleFunction ''countdown''
     [sampleInst PushI32 3, sampleInst StoreLocal 0, sampleInst PushI32 7,
      sampleInst LoadLocal 0, sampleInst JumpIfZero 10,
      sampleInst LoadLocal 0, sampleInst PushI32 1, sampleInst SubI32 0, sampleInst StoreLocal 0, sampleInst Jump 3,
      sampleInst ReturnI32 0, sampleInst Dup 0]"

definition countdownModule :: IrModule where
  "countdownModule = sampleModule\<lparr>mod_functions := [countdown]\<rparr>"

definition countdownLowered :: IrVirtualRegisterFunction where
  "countdownLowered = projr (lowerFunctionToVirtualRegisters countdown countdownModule)"

lemma countdown_lowers:
  "lowerFunctionToVirtualRegisters countdown countdownModule = Inr countdownLowered"
  "length (handedOut countdownLowered) = 9"
  by code_simp+

theorem lowered_single_assignment_witness:
  "distinct (handedOut countdownLowered) \<and> nextVirtualRegister countdownLowered = 9"
proof
  show "distinct (handedOut countdownLowered)"
    using lowered_single_assignment [OF countdown_lowers(1)] countdown_lowers(2) by simp
  show "nextVirtualRegister countdownLowered = 9"
    using handedOut_fresh [OF countdown_lowers(1)] countdown_lowers(2) by simp
qed

definition countdownModuleLowered :: IrVirtualRegisterModule where
  "countdownModuleLowered = projr (lowerIrModuleToBlockVirtualRegisters countdownModule)"

lemma countdownModule_lowers: "lowerIrModuleToBlockVirtualRegisters countdownModule = Inr countdownModuleLowered"
  by code_simp

theorem lower_lift_roundtrip_witness:
  "map instructions (mod_functions (liftBlockVirtualRegistersToIrModule countdownModuleLowered)) = [instructions countdown]"
  using lower_lift_roundtrip [OF countdownModule_lowers] by (simp add: countdownModule_def)

end
