(* ===== verification/VrEffects.thy ===== *)
theory VrEffects
  imports VrFacts VmCode
begin

text \<open>
  The stack effects the virtual-register lowering works with, against the execution kernel: an
  instruction run on the operands its effect names does what it does on the whole stack, and the
  rest of the stack stays below its result.
\<close>

section \<open>Numeric opcodes\<close>

fun pureOnTop :: "u64 list \<Rightarrow> PureOpcodeOutcome \<Rightarrow> PureOpcodeOutcome" where
  "pureOnTop rest (PureContinue stk) = PureContinue (stk @ rest)"
| "pureOnTop rest (PureFault e stk) = PureFault e (stk @ rest)"
| "pureOnTop rest PureUndefined = PureUndefined"
| "pureOnTop rest NotHandled = NotHandled"

lemma pureOnTop_NotHandled [simp]: "pureOnTop rest out = NotHandled \<longleftrightarrow> out = NotHandled"
  by (cases out) auto

text \<open>\<open>g\<close> reads no more of the stack than the operands of \<open>opc\<close>.\<close>

definition pureFramed :: "IrOpcode \<Rightarrow> (u64 list \<Rightarrow> PureOpcodeOutcome) \<Rightarrow> bool" where
  "pureFramed opc g \<longleftrightarrow> (\<forall>stk rest. pureArity opc \<le> length stk \<longrightarrow> g (stk @ rest) = pureOnTop rest (g stk))"

lemma pureFramed_if:
  "(c \<Longrightarrow> pureFramed opc g) \<Longrightarrow> (\<not> c \<Longrightarrow> pureFramed opc h) \<Longrightarrow> pureFramed opc (\<lambda>stk. if c then g stk else h stk)"
  by (cases c) simp_all

lemma pureFramed_none: "pureFramed opc (\<lambda>stk. NotHandled)"
  by (simp add: pureFramed_def)

lemma pureFramed_pop2:
  assumes "pureArity opc = 2" "\<And>l r rest more. k l r (rest @ more) = pureOnTop more (k l r rest)"
  shows "pureFramed opc (\<lambda>stk. pop2 msg k stk)"
proof -
  have "pop2 msg k (stk @ rest) = pureOnTop rest (pop2 msg k stk)" if len: "2 \<le> length stk" for stk rest
  proof -
    from len obtain r l more where "stk = r # l # more" by (cases stk rule: remdups_adj.cases) auto
    then show ?thesis using assms(2) by simp
  qed
  then show ?thesis using assms(1) by (simp add: pureFramed_def)
qed

lemma pureFramed_pop1:
  assumes "pureArity opc = 1" "\<And>v rest more. k v (rest @ more) = pureOnTop more (k v rest)"
  shows "pureFramed opc (\<lambda>stk. pop1 msg k stk)"
proof -
  have "pop1 msg k (stk @ rest) = pureOnTop rest (pop1 msg k stk)" if len: "Suc 0 \<le> length stk" for stk rest
    using len assms(2) by (cases stk) auto
  then show ?thesis using assms(1) by (simp add: pureFramed_def)
qed

lemma castToRange_onTop: "castToRange lo hi t enc (rest @ below) = pureOnTop below (castToRange lo hi t enc rest)"
  by (simp add: castToRange_def split: option.split)

lemmas pureFramed_rules = pureFramed_if pureFramed_pop2 pureFramed_pop1 pureFramed_none

lemma execIntArith_framed: "pureFramed opc (execIntArith opc)"
  unfolding execIntArith_def by (intro pureFramed_rules) auto

lemma execFloatArith_framed: "pureFramed opc (execFloatArith fpu opc)"
  unfolding execFloatArith_def Let_def by (intro pureFramed_rules) auto

lemma execIntCompare_framed: "pureFramed opc (execIntCompare opc)"
  unfolding execIntCompare_def Let_def intCompareOps_def [symmetric]
  by (intro pureFramed_rules) (simp_all add: pureArity_compare)

lemma execFloatCompare_framed: "pureFramed opc (execFloatCompare opc)"
proof -
  have "opc \<in> floatCompareOps \<Longrightarrow> pureArity opc = 2" by (rule pureArity_compare)
  moreover have "opc \<in> floatCompareOps"
    if "opc \<in> set [CmpEqF32, CmpNeF32, CmpLtF32, CmpLeF32, CmpGtF32, CmpGeF32] \<or> opc \<in> set [CmpEqF64, CmpNeF64, CmpLtF64, CmpLeF64, CmpGtF64, CmpGeF64]"
    using that unfolding floatCompareOps_def set_simps insert_iff empty_iff by blast
  ultimately show ?thesis
    unfolding execFloatCompare_def Let_def by (intro pureFramed_rules) (simp_all del: set_simps)
qed

lemma execConvert_framed: "pureFramed opc (execConvert fpu opc)"
  unfolding execConvert_def Let_def by (intro pureFramed_rules) (auto simp: castToRange_onTop)

lemma orElse_framed: "pureFramed opc g \<Longrightarrow> pureFramed opc h \<Longrightarrow> pureFramed opc (\<lambda>stk. orElse (g stk) (h stk))"
  by (simp add: pureFramed_def orElse_def)

lemma executePure_framed: "pureFramed (op inst) (executePureNumericOpcode fpu inst)"
proof -
  have "pureFramed (op inst) (\<lambda>stk. executePureNumericOpcode fpu inst stk)"
    unfolding executePureNumericOpcode_def
    by (intro orElse_framed execIntArith_framed execFloatArith_framed execIntCompare_framed execFloatCompare_framed execConvert_framed)
  then show ?thesis by simp
qed

section \<open>Effects per opcode group\<close>

lemma effect_sel [simp]: "pops (effect p q r) = p" "pushes (effect p q r) = q" "readsWithoutPop (effect p q r) = r"
  by (simp_all add: effect_def)

lemma stackEffect_pushLocal:
  assumes "isPushLocalOpcode (op inst)"
  shows "stackEffectForOpcode inst m = Inr (if op inst = StoreLocal then effect 1 0 0 else effect 0 1 0)"
  using assms unfolding isPushLocalOpcode_def set_simps
  by (elim insertE emptyE) (simp_all add: stackEffectForOpcode_def)

lemma stackEffect_memory:
  assumes "isMemoryOpcode (op inst)"
  shows "stackEffectForOpcode inst m = Inr (if op inst = StoreIndirect then effect 2 1 0
    else if op inst = HeapFree then effect 1 0 0 else effect 1 1 0)"
  using assms unfolding isMemoryOpcode_def set_simps
  by (elim insertE emptyE) (simp_all add: stackEffectForOpcode_def)

lemma stackEffect_stackString:
  assumes "isStackStringOpcode (op inst)"
  shows "stackEffectForOpcode inst m = Inr (if op inst = Dup then effect 0 1 1 else if op inst = Pop then effect 1 0 0 else effect 1 1 0)"
  using assms unfolding isStackStringOpcode_def set_simps
  by (elim insertE emptyE) (simp_all add: stackEffectForOpcode_def)

lemma stackEffect_pure:
  assumes "isPureNumericOpcode (op inst)"
  shows "stackEffectForOpcode inst m = Inr (effect (pureArity (op inst)) 1 0)"
  using assms unfolding isPureNumericOpcode_def set_simps
  by (elim insertE emptyE) (simp_all add: stackEffectForOpcode_def pureArity_def convertOps_def)

lemma stackEffect_print:
  assumes "isVmKernelPrintOpcode (op inst)"
  shows "stackEffectForOpcode inst m = Inr (if op inst = PrintString then effect 0 0 0 else effect 1 0 0)"
  using assms unfolding isVmKernelPrintOpcode_def set_simps
  by (elim insertE emptyE) (simp_all add: stackEffectForOpcode_def)

text \<open>The file opcodes that write a value take a handle and the value.\<close>

definition isFilePairOpcode :: "IrOpcode \<Rightarrow> bool" where
  "isFilePairOpcode opc \<longleftrightarrow> opc \<in> set [FileWriteI32, FileWriteI64, FileWriteU64, FileWriteStringDynamic, FileWriteByte]"

lemma stackEffect_file:
  assumes "isVmKernelFileOpcode (op inst)"
  shows "stackEffectForOpcode inst m = Inr (effect (if isFileOpenStatic (op inst) then 0 else if isFilePairOpcode (op inst) then 2 else 1) 1 0)"
  using assms unfolding isVmKernelFileOpcode_def set_simps
  by (elim insertE emptyE) (simp_all add: stackEffectForOpcode_def isFileOpenStatic_def isFilePairOpcode_def)

section \<open>Running an instruction on its operands\<close>

fun onTop :: "u64 list \<Rightarrow> 'w DataOutcome \<Rightarrow> 'w DataOutcome" where
  "onTop rest (DataNext stk locals h wd) = DataNext (stk @ rest) locals h wd"
| "onTop rest (DataFault e stk) = DataFault e (stk @ rest)"
| "onTop rest DataUndefined = DataUndefined"
| "onTop rest DataUnknown = DataUnknown"

lemma kernelPushLocal_onTop:
  assumes "op inst = StoreLocal \<Longrightarrow> stk \<noteq> []"
  shows "kernelPushLocal host inst (stk @ rest) locals h wd = onTop rest (kernelPushLocal host inst stk locals h wd)"
  using assms by (cases stk; cases "op inst = StoreLocal") (simp_all add: kernelPushLocal_def)

lemma kernelMemory_onTop:
  assumes "if op inst = StoreIndirect \<or> op inst = HeapRealloc then 2 \<le> length stk else stk \<noteq> []"
  shows "kernelMemory host inst (stk @ rest) locals h wd = onTop rest (kernelMemory host inst stk locals h wd)"
proof -
  obtain v more where stk: "stk = v # more" using assms by (cases stk) (auto split: if_splits)
  show ?thesis
    using assms by (cases more) (simp_all add: stk kernelMemory_def split: sum.split prod.split if_split_asm)
qed

lemma kernelStackString_onTop:
  assumes "stk \<noteq> []"
  shows "kernelStackString m inst (stk @ rest) locals h wd = onTop rest (kernelStackString m inst stk locals h wd)"
  using assms by (cases stk) (simp_all add: kernelStackString_def Let_def)

lemma kernelPure_onTop:
  assumes "isPureNumericOpcode (op inst)" "pureArity (op inst) \<le> length stk"
  shows "kernelDefault host m inst (stk @ rest) locals h wd = onTop rest (kernelDefault host m inst stk locals h wd)"
  using assms executePure_framed [of inst "hostFpu host"]
  by (cases "executePureNumericOpcode (hostFpu host) inst stk") (simp_all add: pureFramed_def kernelDefault_def handleVmNumericOpcode_def)

fun onTop2 :: "u64 list \<Rightarrow> (string \<times> u64 list) + (u64 list \<times> 'b) \<Rightarrow> (string \<times> u64 list) + (u64 list \<times> 'b)" where
  "onTop2 rest (Inl (e, stk)) = Inl (e, stk @ rest)"
| "onTop2 rest (Inr (stk, b)) = Inr (stk @ rest, b)"

lemma handlePrintOpcode_onTop:
  assumes "op inst \<noteq> PrintString \<Longrightarrow> stk \<noteq> []"
  shows "handlePrintOpcode m inst (stk @ rest) args wd = onTop2 rest (handlePrintOpcode m inst stk args wd)"
  using assms by (cases stk; cases "op inst = PrintString") (simp_all add: handlePrintOpcode_def popStackValue_def resolveStringIndex_def Let_def split: option.split)

lemma openPath_onTop: "openPath sys opc path (stk @ rest) locals wd = (case openPath sys opc path stk locals wd of (s, b) \<Rightarrow> (s @ rest, b))"
  by (simp add: openPath_def split: prod.split)

lemma writeText_onTop: "writeText sys handle txt (stk @ rest) locals wd = (case writeText sys handle txt stk locals wd of (s, b) \<Rightarrow> (s @ rest, b))"
  by (simp add: writeText_def split: prod.split)

lemma handleFileManage_onTop:
  assumes "\<not> isFileOpenStatic (op inst) \<Longrightarrow> stk \<noteq> []"
  shows "handleFileManage sys m inst (stk @ rest) locals wd = onTop2 rest (handleFileManage sys m inst stk locals wd)"
  using assms
  by (cases stk; cases "isFileOpenStatic (op inst)") (simp_all add: handleFileManage_def popStackValue_def resolveStringIndex_def openPath_def Let_def split: prod.split)

lemma handleFileWrite_onTop:
  assumes "if isFilePairOpcode (op inst) then 2 \<le> length stk else stk \<noteq> []"
  shows "handleFileWrite sys m inst (stk @ rest) locals wd = onTop2 rest (handleFileWrite sys m inst stk locals wd)"
proof -
  obtain v more where stk: "stk = v # more" using assms by (cases stk) (auto split: if_splits)
  show ?thesis
    using assms
    by (cases more) (simp_all add: stk handleFileWrite_def popStackValue_def popStackPair_def resolveStringIndex_def writeText_def Let_def
        isFilePairOpcode_def split: prod.split if_split_asm)
qed

text \<open>The opcodes that have a stack effect and are not control flow fall in the kernel's groups.\<close>

definition dataOpcode :: "IrOpcode \<Rightarrow> bool" where
  "dataOpcode opc \<longleftrightarrow> isPushLocalOpcode opc \<or> isMemoryOpcode opc \<or> isStackStringOpcode opc \<or> isPureNumericOpcode opc
     \<or> isVmKernelPrintOpcode opc \<or> isVmKernelFileOpcode opc"

lemmas group_defs = isPushLocalOpcode_def isMemoryOpcode_def isStackStringOpcode_def isPureNumericOpcode_def
  isVmKernelPrintOpcode_def isVmKernelFileOpcode_def

lemma stackEffect_dataOpcode:
  assumes "stackEffectForOpcode inst m = Inr eff" "\<not> isControlFlowOpcode (op inst)"
  shows "dataOpcode (op inst)"
proof (rule ccontr)
  assume "\<not> dataOpcode (op inst)"
  then have "stackEffectForOpcode inst m = Inl ''unsupported opcode in virtual-register lowering''"
    using assms(2) unfolding dataOpcode_def group_defs isControlFlowOpcode_def stackEffectForOpcode_def by simp
  then show False using assms(1) by simp
qed

text \<open>The groups do not overlap, in the order \<open>kernelData\<close> tries them.\<close>

lemma groups_disjoint:
  "isMemoryOpcode opc \<Longrightarrow> \<not> isPushLocalOpcode opc"
  "isStackStringOpcode opc \<Longrightarrow> \<not> isPushLocalOpcode opc \<and> \<not> isMemoryOpcode opc"
  "isPureNumericOpcode opc \<Longrightarrow> \<not> isPushLocalOpcode opc \<and> \<not> isMemoryOpcode opc \<and> \<not> isStackStringOpcode opc"
  "isVmKernelPrintOpcode opc \<Longrightarrow> \<not> isPushLocalOpcode opc \<and> \<not> isMemoryOpcode opc \<and> \<not> isStackStringOpcode opc \<and> \<not> isPureNumericOpcode opc"
  "isVmKernelFileOpcode opc \<Longrightarrow> \<not> isPushLocalOpcode opc \<and> \<not> isMemoryOpcode opc \<and> \<not> isStackStringOpcode opc
     \<and> \<not> isPureNumericOpcode opc \<and> \<not> isVmKernelPrintOpcode opc"
  unfolding group_defs set_simps by (elim insertE emptyE; simp)+

lemma isFileManage_or_write:
  "isVmKernelFileOpcode opc \<Longrightarrow> isFileManageOpcode opc \<and> \<not> isFilePairOpcode opc \<or> \<not> isFileManageOpcode opc \<and> isFileWriteOpcode opc \<and> \<not> isFileOpenStatic opc"
  unfolding isVmKernelFileOpcode_def set_simps
  by (elim insertE emptyE; simp add: isFileManageOpcode_def isFilePairOpcode_def isFileWriteOpcode_def isFileOpenStatic_def isFileOpenDynamic_def)

lemma handleFileOpcode_onTop:
  assumes "isVmKernelFileOpcode (op inst)" "(if isFileOpenStatic (op inst) then 0 else if isFilePairOpcode (op inst) then 2 else 1) \<le> length stk"
  shows "handleFileOpcode sys m inst (stk @ rest) locals wd = onTop2 rest (handleFileOpcode sys m inst stk locals wd)"
  using isFileManage_or_write [OF assms(1)]
proof
  assume f: "isFileManageOpcode (op inst) \<and> \<not> isFilePairOpcode (op inst)"
  then have "\<not> isFileOpenStatic (op inst) \<Longrightarrow> stk \<noteq> []" using assms(2) by auto
  from handleFileManage_onTop [OF this] show ?thesis using f by (simp add: handleFileOpcode_def)
next
  assume f: "\<not> isFileManageOpcode (op inst) \<and> isFileWriteOpcode (op inst) \<and> \<not> isFileOpenStatic (op inst)"
  then have "if isFilePairOpcode (op inst) then 2 \<le> length stk else stk \<noteq> []" using assms(2) by (auto split: if_splits)
  then show ?thesis using f handleFileWrite_onTop by (simp add: handleFileOpcode_def)
qed

lemma kernelPrint_onTop:
  assumes "isVmKernelPrintOpcode (op inst)" "op inst \<noteq> PrintString \<Longrightarrow> stk \<noteq> []"
  shows "kernelDefault host m inst (stk @ rest) locals h wd = onTop rest (kernelDefault host m inst stk locals h wd)"
  using groups_disjoint(4) [OF assms(1)] assms(1) handlePrintOpcode_onTop [of inst stk m rest "hostArgs host" wd] assms(2)
  by (cases "handlePrintOpcode m inst stk (hostArgs host) wd") (auto simp: kernelDefault_def)

lemma kernelFile_onTop:
  assumes "isVmKernelFileOpcode (op inst)" "(if isFileOpenStatic (op inst) then 0 else if isFilePairOpcode (op inst) then 2 else 1) \<le> length stk"
  shows "kernelDefault host m inst (stk @ rest) locals h wd = onTop rest (kernelDefault host m inst stk locals h wd)"
  using groups_disjoint(5) [OF assms(1)] assms(1) handleFileOpcode_onTop [OF assms, of "hostSys host" m rest locals wd]
  by (cases "handleFileOpcode (hostSys host) m inst stk locals wd") (auto simp: kernelDefault_def)

lemma kernelData_onTop:
  assumes "stackEffectForOpcode inst m = Inr eff" "\<not> isControlFlowOpcode (op inst)" "op inst \<noteq> HeapRealloc"
    and "max (pops eff) (readsWithoutPop eff) \<le> length stk"
  shows "kernelData host m inst (stk @ rest) locals h wd = onTop rest (kernelData host m inst stk locals h wd)"
proof -
  consider "isPushLocalOpcode (op inst)" | "isMemoryOpcode (op inst)" | "isStackStringOpcode (op inst)"
    | "isPureNumericOpcode (op inst)" | "isVmKernelPrintOpcode (op inst)" | "isVmKernelFileOpcode (op inst)"
    using stackEffect_dataOpcode [OF assms(1,2)] unfolding dataOpcode_def by blast
  then show ?thesis
  proof cases
    case 1
    then have "op inst = StoreLocal \<Longrightarrow> stk \<noteq> []" using stackEffect_pushLocal [OF 1, of m] assms(1,4) by auto
    from kernelPushLocal_onTop [OF this] show ?thesis using 1 by (simp add: kernelData_def)
  next
    case 2
    then have "if op inst = StoreIndirect \<or> op inst = HeapRealloc then 2 \<le> length stk else stk \<noteq> []"
      using stackEffect_memory [OF 2, of m] assms(1,3,4) by (auto split: if_splits)
    then show ?thesis using 2 groups_disjoint(1) [OF 2] kernelMemory_onTop by (simp add: kernelData_def)
  next
    case 3
    then have "stk \<noteq> []" using stackEffect_stackString [OF 3, of m] assms(1,4) by (auto split: if_splits)
    then show ?thesis using 3 groups_disjoint(2) [OF 3] kernelStackString_onTop by (simp add: kernelData_def)
  next
    case 4
    then have "pureArity (op inst) \<le> length stk" using stackEffect_pure [OF 4, of m] assms(1,4) by auto
    then show ?thesis using 4 groups_disjoint(3) [OF 4] kernelPure_onTop by (simp add: kernelData_def)
  next
    case 5
    then have "op inst \<noteq> PrintString \<Longrightarrow> stk \<noteq> []" using stackEffect_print [OF 5, of m] assms(1,4) by (auto split: if_splits)
    from kernelPrint_onTop [OF 5 this] show ?thesis using 5 groups_disjoint(4) [OF 5] by (simp add: kernelData_def)
  next
    case 6
    then have "(if isFileOpenStatic (op inst) then 0 else if isFilePairOpcode (op inst) then 2 else 1) \<le> length stk"
      using stackEffect_file [OF 6, of m] assms(1,4) by auto
    then show ?thesis using 6 groups_disjoint(5) [OF 6] kernelFile_onTop by (simp add: kernelData_def)
  qed
qed

text \<open>What an instruction leaves when it is run on its operands alone: the pushed values, and the operands it does not pop.\<close>

definition leaves :: "StackEffect \<Rightarrow> u64 list \<Rightarrow> u64 list \<Rightarrow> bool" where
  "leaves eff ops stk \<longleftrightarrow> (\<exists>new. length new = pushes eff \<and> stk = new @ drop (pops eff) ops)"

lemma leaves_simps [simp]:
  "leaves (effect p 0 r) ops stk \<longleftrightarrow> stk = drop p ops"
  "leaves (effect p (Suc 0) r) ops stk \<longleftrightarrow> (\<exists>v. stk = v # drop p ops)"
  by (auto simp: leaves_def length_Suc_conv)

lemma kernelPushLocal_leaves:
  assumes "kernelPushLocal host inst ops locals h wd = DataNext stk locals' h' wd'"
  shows "leaves (if op inst = StoreLocal then effect 1 0 0 else effect 0 1 0) ops stk"
  using assms by (auto simp: kernelPushLocal_def split: if_splits list.splits)

lemma kernelMemory_leaves:
  assumes "op inst \<noteq> HeapRealloc" "kernelMemory host inst ops locals h wd = DataNext stk locals' h' wd'"
  shows "leaves (if op inst = StoreIndirect then effect 2 1 0 else if op inst = HeapFree then effect 1 0 0 else effect 1 1 0) ops stk"
  using assms by (auto simp: kernelMemory_def split: if_splits list.splits sum.splits prod.splits)

lemma kernelStackString_leaves:
  assumes "kernelStackString m inst ops locals h wd = DataNext stk locals' h' wd'"
  shows "leaves (if op inst = Dup then effect 0 1 1 else if op inst = Pop then effect 1 0 0 else effect 1 1 0) ops stk"
  using assms by (auto simp: kernelStackString_def Let_def split: if_splits list.splits)

lemma kernelPure_leaves:
  assumes "isPureNumericOpcode (op inst)" "kernelDefault host m inst ops locals h wd = DataNext stk locals' h' wd'"
  shows "leaves (effect (pureArity (op inst)) 1 0) ops stk"
  using assms pureEffect_executePure [of inst ops "hostFpu host"]
  by (auto simp: kernelDefault_def handleVmNumericOpcode_def pureEffect_def split: PureOpcodeOutcome.splits)

lemma handlePrintOpcode_leaves:
  assumes "handlePrintOpcode m inst ops args wd = Inr (stk, wd')"
  shows "leaves (if op inst = PrintString then effect 0 0 0 else effect 1 0 0) ops stk"
  using assms
  by (auto simp: handlePrintOpcode_def popStackValue_def Let_def rbind_Inr_iff split: if_splits list.splits option.splits)

lemma openPath_leaves: "openPath sys opc path stk locals wd = (stk', locals', wd') \<Longrightarrow> \<exists>v. stk' = v # stk"
  by (auto simp: openPath_def split: prod.splits)

lemma writeText_leaves: "writeText sys handle txt stk locals wd = (stk', locals', wd') \<Longrightarrow> \<exists>v. stk' = v # stk"
  by (auto simp: writeText_def split: prod.splits)

lemma handleFileManage_leaves:
  assumes "handleFileManage sys m inst ops locals wd = Inr (stk, locals', wd')"
  shows "leaves (effect (if isFileOpenStatic (op inst) then 0 else 1) 1 0) ops stk"
  using assms
  by (auto simp: handleFileManage_def popStackValue_def Let_def rbind_Inr_iff split: if_splits list.splits prod.splits dest!: openPath_leaves)

lemma handleFileWrite_leaves:
  assumes "isFileWriteOpcode (op inst)" "handleFileWrite sys m inst ops locals wd = Inr (stk, locals', wd')"
  shows "leaves (effect (if isFilePairOpcode (op inst) then 2 else 1) 1 0) ops stk"
  using assms
  by (auto simp: handleFileWrite_def popStackValue_def popStackPair_def Let_def rbind_Inr_iff isFilePairOpcode_def isFileWriteOpcode_def
      split: if_splits list.splits dest!: writeText_leaves)

lemma kernelPrint_leaves:
  assumes "isVmKernelPrintOpcode (op inst)" "kernelDefault host m inst ops locals h wd = DataNext stk locals' h' wd'"
  shows "leaves (if op inst = PrintString then effect 0 0 0 else effect 1 0 0) ops stk"
  using assms groups_disjoint(4) [OF assms(1)] handlePrintOpcode_leaves [of m inst ops "hostArgs host" wd]
  by (auto simp: kernelDefault_def split: sum.splits prod.splits)

lemma kernelFile_leaves:
  assumes "isVmKernelFileOpcode (op inst)" "kernelDefault host m inst ops locals h wd = DataNext stk locals' h' wd'"
  shows "leaves (effect (if isFileOpenStatic (op inst) then 0 else if isFilePairOpcode (op inst) then 2 else 1) 1 0) ops stk"
proof -
  obtain l w where f: "handleFileOpcode (hostSys host) m inst ops locals wd = Inr (stk, l, w)"
    using assms groups_disjoint(5) [OF assms(1)] by (auto simp: kernelDefault_def split: sum.splits prod.splits)
  show ?thesis
    using isFileManage_or_write [OF assms(1)]
  proof
    assume "isFileManageOpcode (op inst) \<and> \<not> isFilePairOpcode (op inst)"
    then show ?thesis using f handleFileManage_leaves [of "hostSys host" m inst ops locals wd stk] by (auto simp: handleFileOpcode_def)
  next
    assume "\<not> isFileManageOpcode (op inst) \<and> isFileWriteOpcode (op inst) \<and> \<not> isFileOpenStatic (op inst)"
    then show ?thesis using f handleFileWrite_leaves [of inst "hostSys host" m ops locals wd stk] by (auto simp: handleFileOpcode_def)
  qed
qed

lemma kernelData_leaves:
  assumes "stackEffectForOpcode inst m = Inr eff" "\<not> isControlFlowOpcode (op inst)" "op inst \<noteq> HeapRealloc"
    and "kernelData host m inst ops locals h wd = DataNext stk locals' h' wd'"
  shows "leaves eff ops stk"
proof -
  consider "isPushLocalOpcode (op inst)" | "isMemoryOpcode (op inst)" | "isStackStringOpcode (op inst)"
    | "isPureNumericOpcode (op inst)" | "isVmKernelPrintOpcode (op inst)" | "isVmKernelFileOpcode (op inst)"
    using stackEffect_dataOpcode [OF assms(1,2)] unfolding dataOpcode_def by blast
  then show ?thesis
  proof cases
    case 1
    then have run: "kernelPushLocal host inst ops locals h wd = DataNext stk locals' h' wd'"
      using assms(4) by (simp add: kernelData_def)
    show ?thesis using kernelPushLocal_leaves [OF run] stackEffect_pushLocal [OF 1, of m] assms(1) by simp
  next
    case 2
    then have run: "kernelMemory host inst ops locals h wd = DataNext stk locals' h' wd'"
      using assms(4) groups_disjoint(1) [OF 2] by (simp add: kernelData_def)
    show ?thesis using kernelMemory_leaves [OF assms(3) run] stackEffect_memory [OF 2, of m] assms(1) by simp
  next
    case 3
    then have run: "kernelStackString m inst ops locals h wd = DataNext stk locals' h' wd'"
      using assms(4) groups_disjoint(2) [OF 3] by (simp add: kernelData_def)
    show ?thesis using kernelStackString_leaves [OF run] stackEffect_stackString [OF 3, of m] assms(1) by simp
  next
    case 4
    then have run: "kernelDefault host m inst ops locals h wd = DataNext stk locals' h' wd'"
      using assms(4) groups_disjoint(3) [OF 4] by (simp add: kernelData_def)
    show ?thesis using kernelPure_leaves [OF 4 run] stackEffect_pure [OF 4, of m] assms(1) by simp
  next
    case 5
    then have run: "kernelDefault host m inst ops locals h wd = DataNext stk locals' h' wd'"
      using assms(4) groups_disjoint(4) [OF 5] by (simp add: kernelData_def)
    show ?thesis using kernelPrint_leaves [OF 5 run] stackEffect_print [OF 5, of m] assms(1) by simp
  next
    case 6
    then have run: "kernelDefault host m inst ops locals h wd = DataNext stk locals' h' wd'"
      using assms(4) groups_disjoint(5) [OF 6] by (simp add: kernelData_def)
    show ?thesis using kernelFile_leaves [OF 6 run] stackEffect_file [OF 6, of m] assms(1) by simp
  qed
qed



text \<open>
  \<open>HeapRealloc\<close> takes an address and a count, but its effect names one operand: with one operand
  the kernel reports an underflow.
\<close>

lemma heapRealloc_effect_differs:
  "stackEffectForOpcode (sampleInst HeapRealloc 0) m = Inr (effect 1 1 0)"
  "kernelData host m (sampleInst HeapRealloc 0) [v] locals h wd = DataFault ''IR stack underflow on heap realloc'' [v]"
  by (simp_all add: stackEffectForOpcode_def kernelData_def isPushLocalOpcode_def isMemoryOpcode_def kernelMemory_def)

end
