(* ===== verification/VrRuns.thy ===== *)
theory VrRuns
  imports VrEffects
begin

text \<open>
  What lowered code computes. A machine with one register per virtual register runs the blocks of a
  lowered function: an instruction reads its use registers and writes its definition registers, an
  edge moves registers in parallel. The machine and the execution kernel on the stack code agree.
  Code with calls is left out: the lowering starts every function on an empty stack, while the
  kernel leaves the arguments of a call on the stack the caller and the callee share.
\<close>

section \<open>The register machine\<close>

record 'w VrState =
  vrBlock :: nat
  vrIndex :: nat
  vrRegs :: "u32 \<Rightarrow> u64"
  vrLocals :: "u64 list"
  vrHeap :: VmHeap
  vrWorld :: "'w VmWorld"

datatype 'w VrStepResult =
  VrRunning "'w VrState"
  | VrExited u64 VmHeap "'w VmWorld"
  | VrFaulted string VmHeap "'w VmWorld"
  | VrUndefined

definition setRegisters :: "u32 list \<Rightarrow> u64 list \<Rightarrow> (u32 \<Rightarrow> u64) \<Rightarrow> u32 \<Rightarrow> u64" where
  "setRegisters defs vals regs = (\<lambda>r. case map_of (zip defs vals) r of None \<Rightarrow> regs r | Some v \<Rightarrow> v)"

definition applyMoves :: "IrVirtualRegisterEdgeMove list \<Rightarrow> (u32 \<Rightarrow> u64) \<Rightarrow> u32 \<Rightarrow> u64" where
  "applyMoves moves regs = setRegisters (map destinationRegister moves) (map (regs \<circ> sourceRegister) moves) regs"

text \<open>The edge of a block to the block that starts at instruction \<open>t\<close>.\<close>

definition edgeTo :: "IrVirtualRegisterFunction \<Rightarrow> IrVirtualRegisterBlock \<Rightarrow> nat \<Rightarrow> IrVirtualRegisterEdge option" where
  "edgeTo v b t = find (\<lambda>e. startInstructionIndex (vf_blocks v ! successorBlockIndex e) = t) (successorEdges b)"

definition vrGoto :: "IrVirtualRegisterFunction \<Rightarrow> 'w VrState \<Rightarrow> nat \<Rightarrow> 'w VrState" where
  "vrGoto v st t =
     (let b = vf_blocks v ! vrBlock st in
      if t = startInstructionIndex b + vrIndex st + 1 \<and> vrIndex st + 1 < length (blockInstructions b)
      then st\<lparr>vrIndex := vrIndex st + 1\<rparr>
      else
        (case edgeTo v b t of
           Some e \<Rightarrow> st\<lparr>vrBlock := successorBlockIndex e, vrIndex := 0, vrRegs := applyMoves (stackMoves e) (vrRegs st)\<rparr>
         | None \<Rightarrow> st\<lparr>vrBlock := length (vf_blocks v), vrIndex := 0\<rparr>))"

definition vrStep :: "'w VmHost \<Rightarrow> IrModule \<Rightarrow> IrVirtualRegisterFunction \<Rightarrow> 'w VrState \<Rightarrow> 'w VrStepResult" where
  "vrStep host m v st =
     (if vrBlock st \<ge> length (vf_blocks v) then VrFaulted ''missing return in IR'' (vrHeap st) (vrWorld st)
      else
        (let b = vf_blocks v ! vrBlock st; vi = blockInstructions b ! vrIndex st; inst = vr_instruction vi;
             ops = rev (map (vrRegs st) (useRegisters vi)); following = startInstructionIndex b + vrIndex st + 1
         in if isJumpOpcode (op inst)
            then VrRunning (vrGoto v st (if op inst = Jump \<or> hd ops = 0 then unat (imm inst) else following))
            else if isReturnOpcode (op inst)
            then (case returnOperand (op inst) ops of None \<Rightarrow> VrUndefined | Some (val, _) \<Rightarrow> VrExited val (vrHeap st) (vrWorld st))
            else
              (case kernelData host m inst ops (vrLocals st) (vrHeap st) (vrWorld st) of
                 DataNext stk locals h wd \<Rightarrow>
                   VrRunning (vrGoto v (st\<lparr>vrRegs := setRegisters (defRegisters vi) (rev (take (length (defRegisters vi)) stk)) (vrRegs st),
                     vrLocals := locals, vrHeap := h, vrWorld := wd\<rparr>) following)
               | DataFault e stk \<Rightarrow> VrFaulted e (vrHeap st) (vrWorld st)
               | DataUndefined \<Rightarrow> VrUndefined
               | DataUnknown \<Rightarrow> VrFaulted ''unknown IR opcode'' (vrHeap st) (vrWorld st))))"

partial_function (option) vrLoop :: "'w VmHost \<Rightarrow> IrModule \<Rightarrow> IrVirtualRegisterFunction \<Rightarrow> 'w VrState \<Rightarrow> 'w VrStepResult option" where
  "vrLoop host m v st = (case vrStep host m v st of VrRunning st' \<Rightarrow> vrLoop host m v st' | out \<Rightarrow> Some out)"

definition vrStart :: "IrFunction \<Rightarrow> 'w VmWorld \<Rightarrow> 'w VrState" where
  "vrStart f wd = \<lparr>vrBlock = 0, vrIndex = 0, vrRegs = (\<lambda>r. 0), vrLocals = replicate (computeVmKernelLocalCount f) 0,
     vrHeap = emptyHeap, vrWorld = wd\<rparr>"

section \<open>Registers and the stack\<close>

lemma map_setRegisters_other: "set rs \<inter> set defs = {} \<Longrightarrow> map (setRegisters defs vals regs) rs = map regs rs"
  by (induction rs) (auto simp: setRegisters_def map_of_eq_None_iff dest: set_zip_leftD split: option.splits dest!: map_of_SomeD)

lemma map_setRegisters:
  assumes "distinct defs" "length defs = length vals"
  shows "map (setRegisters defs vals regs) defs = vals"
  using assms by (intro nth_equalityI) (simp_all add: setRegisters_def map_of_zip_nth)

lemma map_applyMoves:
  assumes "distinct (map destinationRegister moves)"
  shows "map (applyMoves moves regs) (map destinationRegister moves) = map regs (map sourceRegister moves)"
  using map_setRegisters [OF assms, of "map (regs \<circ> sourceRegister) moves"] by (simp add: applyMoves_def)

text \<open>
  The operands of a lowered instruction are the top of the stack it is lowered on.
\<close>

lemma stackEffect_reads:
  assumes "stackEffectForOpcode inst m = Inr eff"
  shows "readsWithoutPop eff = 0 \<or> readsWithoutPop eff = 1 \<and> pops eff = 0"
  using assms by (auto simp: stackEffectForOpcode_def Let_def split: if_split_asm)

lemma lowerInstruction_operands:
  assumes low: "lowerInstruction m i inst stack r = Inr (vi, stack', r')" and eff: "stackEffectForOpcode inst m = Inr eff"
  obtains below where "rev (map regs stack) = rev (map regs (useRegisters vi)) @ below"
    "length (useRegisters vi) = max (pops eff) (readsWithoutPop eff)"
    "drop (pops eff) (rev (map regs (useRegisters vi))) @ below = rev (map regs (take (length stack - pops eff) stack))"
    "stack' = take (length stack - pops eff) stack @ defRegisters vi" "length (defRegisters vi) = pushes eff" "vr_instruction vi = inst"
proof -
  let ?n = "length stack" and ?p = "pops eff"
  from low eff have p: "?p \<le> ?n" and r: "readsWithoutPop eff \<le> ?n"
    and vi: "vi = \<lparr>vr_instruction = inst, useRegisters = map (\<lambda>i. stack ! (?n - i - 1)) [0..<readsWithoutPop eff]
      @ drop (?n - ?p) stack, defRegisters = freshRegisters r (pushes eff)\<rparr>"
    and s: "stack' = take (?n - ?p) stack @ freshRegisters r (pushes eff)"
    by (auto simp: lowerInstruction_def Let_def split: if_splits)
  show ?thesis
  proof (cases "readsWithoutPop eff = 0")
    case True
    have "rev (map regs stack) = rev (map regs (drop (?n - ?p) stack)) @ rev (map regs (take (?n - ?p) stack))"
      by (metis append_take_drop_id map_append rev_append)
    then show ?thesis using that [of "rev (map regs (take (?n - ?p) stack))"] True vi s p by simp
  next
    case False
    then have one: "readsWithoutPop eff = 1" "?p = 0" using stackEffect_reads [OF eff] by auto
    then obtain front top where st: "stack = front @ [top]" using r by (cases stack rule: rev_cases) auto
    then have "useRegisters vi = [top]" using vi one by simp
    then show ?thesis using that [of "rev (map regs front)"] one st s vi by simp
  qed
qed

section \<open>Where control goes\<close>

lemma findBlockIndex_leader:
  assumes "sorted_wrt (<) leaders" "l \<in> set leaders"
  shows "leaders ! findBlockIndexForInstruction leaders l = l"
proof -
  obtain xs ys where l: "leaders = xs @ l # ys" using assms(2) by (meson split_list)
  then have "\<forall>x \<in> set xs. x \<le> l" "\<forall>y \<in> set ys. l < y" using assms(1) by (auto simp: sorted_wrt_append)
  then have "takeWhile (\<lambda>x. x \<le> l) leaders = xs @ [l]"
    using l by (cases ys) (auto simp: takeWhile_append)
  then show ?thesis using l by (simp add: findBlockIndexForInstruction_def Let_def)
qed

text \<open>No leader lies strictly inside a block.\<close>

lemma no_leader_inside:
  assumes "leadersOf f leaders" "k < length leaders" "leaders ! k < j" "j < blockEndOf f leaders k"
  shows "j \<notin> set leaders"
proof
  assume "j \<in> set leaders"
  then obtain i where i: "i < length leaders" "leaders ! i = j" by (auto simp: in_set_conv_nth)
  have s: "sorted_wrt (<) leaders" using assms(1) by (simp add: leadersOf_def)
  have "k < i"
    using sorted_wrt_nth_less [OF s, of i k] i assms(2,3) by (metis linorder_neqE_nat order.asym)
  then have "k + 1 < length leaders" using i(1) by simp
  moreover have "leaders ! (k + 1) \<le> leaders ! i"
    using sorted_wrt_nth_less [OF s, of "k + 1" i] i(1) \<open>k < i\<close> by (cases "i = k + 1") auto
  ultimately show False using assms(4) i(2) by (simp add: blockEndOf_def)
qed

lemma blockEndOf_bounds:
  assumes "leadersOf f leaders" "k < length leaders"
  shows "leaders ! k < blockEndOf f leaders k" "blockEndOf f leaders k \<le> length (instructions f)"
  using assms sorted_wrt_nth_less [of "(<)" leaders k "k + 1"] by (auto simp: leadersOf_def blockEndOf_def less_imp_le)

text \<open>The instructions of a lowered block.\<close>

lemma loweredFrom_code:
  assumes "leadersOf f leaders" "graphOf f leaders blocks" "loweredFrom f m v blocks D entries" "k < length (vf_blocks v)" "D ! k \<noteq> None"
  shows "startInstructionIndex (vf_blocks v ! k) = leaders ! k" "endInstructionIndex (vf_blocks v ! k) = blockEndOf f leaders k"
    "length (blockInstructions (vf_blocks v ! k)) = blockEndOf f leaders k - leaders ! k"
    "i < length (blockInstructions (vf_blocks v ! k)) \<Longrightarrow>
       vr_instruction (blockInstructions (vf_blocks v ! k) ! i) = instructions f ! (leaders ! k + i)"
proof -
  obtain r r' where b: "lowerBlock f m blocks D entries k r = Inr (vf_blocks v ! k, r')" and k: "k < length blocks"
    using assms(3,4) by (auto simp: loweredFrom_def)
  have se: "blockStart (blocks ! k) = leaders ! k" "blockEnd (blocks ! k) = blockEndOf f leaders k"
    using assms(2) k by (auto simp: graphOf_def)
  show "startInstructionIndex (vf_blocks v ! k) = leaders ! k" "endInstructionIndex (vf_blocks v ! k) = blockEndOf f leaders k"
    using lowerBlock_reachable(3,4) [OF b assms(5)] se by simp_all
  have code: "map vr_instruction (blockInstructions (vf_blocks v ! k)) = map (\<lambda>i. instructions f ! i) [leaders ! k..<blockEndOf f leaders k]"
    using lowerBlock_instructions [OF b] se by (simp add: blockCode_def comp_def)
  then show len: "length (blockInstructions (vf_blocks v ! k)) = blockEndOf f leaders k - leaders ! k"
    by (metis length_map length_upt)
  show "vr_instruction (blockInstructions (vf_blocks v ! k) ! i) = instructions f ! (leaders ! k + i)"
    if "i < length (blockInstructions (vf_blocks v ! k))"
    using arg_cong [OF code, of "\<lambda>xs. xs ! i"] that len by simp
qed

text \<open>The instruction pointers instruction \<open>p\<close> can continue at.\<close>

definition continuesAt :: "IrFunction \<Rightarrow> nat \<Rightarrow> nat \<Rightarrow> bool" where
  "continuesAt f p t \<longleftrightarrow>
     isJumpOpcode (op (instructions f ! p)) \<and> t = unat (imm (instructions f ! p))
     \<or> op (instructions f ! p) \<noteq> Jump \<and> \<not> isReturnOpcode (op (instructions f ! p)) \<and> t = p + 1"

lemma blockSuccessors_jump:
  "blockSuccessors f leaders k start fin = Inr succs \<Longrightarrow> start < fin \<Longrightarrow> isJumpOpcode (op (instructions f ! (fin - 1))) \<Longrightarrow>
     unat (imm (instructions f ! (fin - 1))) < length (instructions f) \<Longrightarrow>
     findBlockIndexForInstruction leaders (unat (imm (instructions f ! (fin - 1)))) \<in> set succs"
  by (auto simp: blockSuccessors_def Let_def addSuccessorUnique_def split: if_splits)

lemma blockSuccessors_following:
  "blockSuccessors f leaders k start fin = Inr succs \<Longrightarrow> start < fin \<Longrightarrow> op (instructions f ! (fin - 1)) \<noteq> Jump \<Longrightarrow>
     \<not> isReturnOpcode (op (instructions f ! (fin - 1))) \<Longrightarrow> k + 1 < length leaders \<Longrightarrow> k + 1 \<in> set succs"
  by (auto simp: blockSuccessors_def Let_def addSuccessorUnique_def isJumpOpcode_def split: if_splits)

lemma successor_exists:
  assumes l: "leadersOf f leaders" and g: "graphOf f leaders blocks" and k: "k < length blocks"
    and t: "continuesAt f (blockEndOf f leaders k - 1) t" "t < length (instructions f)"
  shows "\<exists>s \<in> set (successors (blocks ! k)). leaders ! s = t"
proof -
  let ?p = "blockEndOf f leaders k - 1" and ?e = "blockEndOf f leaders k"
  let ?inst = "instructions f ! ?p"
  have kl: "k < length leaders" using g k by (simp add: graphOf_def)
  have e: "leaders ! k < ?e" "?e \<le> length (instructions f)" using blockEndOf_bounds [OF l kl] by auto
  have succs: "blockSuccessors f leaders k (leaders ! k) ?e = Inr (successors (blocks ! k))"
    using g k by (simp add: graphOf_def)
  show ?thesis
  proof (cases "isJumpOpcode (op ?inst) \<and> t = unat (imm ?inst)")
    case True
    moreover have "?p < length (instructions f)" using e by linarith
    ultimately have "t \<in> set leaders" using l t(2) unfolding leadersOf_def by blast
    then have "leaders ! findBlockIndexForInstruction leaders t = t" using l findBlockIndex_leader by (simp add: leadersOf_def)
    moreover have "findBlockIndexForInstruction leaders t \<in> set (successors (blocks ! k))"
      using blockSuccessors_jump [OF succs e(1)] True t(2) by simp
    ultimately show ?thesis by blast
  next
    case False
    then have seq: "op ?inst \<noteq> Jump" "\<not> isReturnOpcode (op ?inst)" "t = ?e" using t(1) e(1) by (auto simp: continuesAt_def)
    then have next1: "k + 1 < length leaders" "leaders ! (k + 1) = t"
      using t(2) by (auto simp: blockEndOf_def split: if_splits)
    moreover have "k + 1 \<in> set (successors (blocks ! k))"
      using blockSuccessors_following [OF succs e(1) seq(1,2) next1(1)] .
    ultimately show ?thesis by blast
  qed
qed

section \<open>The simulation\<close>

definition simulated :: "IrFunction \<Rightarrow> IrModule \<Rightarrow> IrVirtualRegisterFunction \<Rightarrow> nat list \<Rightarrow> BlockBuildInfo list
    \<Rightarrow> nat option list \<Rightarrow> u32 list list \<Rightarrow> bool" where
  "simulated f m v leaders blocks D entries \<longleftrightarrow>
     leadersOf f leaders \<and> graphOf f leaders blocks \<and> loweredFrom f m v blocks D entries \<and> distinct (handedOut v)
     \<and> (\<forall>inst \<in> set (instructions f). \<not> isCallOpcode (op inst) \<and> op inst \<noteq> HeapRealloc)"

lemma block_registers_distinct:
  assumes "distinct (handedOut v)" "k < length (vf_blocks v)"
  shows "distinct (entryRegisters (vf_blocks v ! k) @ blockDefs (blockInstructions (vf_blocks v ! k)))"
proof -
  have b: "vf_blocks v ! k \<in> set (vf_blocks v)" using assms(2) by simp
  have d: "distinct (concat (map entryRegisters (vf_blocks v)))" "distinct (concat (map (blockDefs \<circ> blockInstructions) (vf_blocks v)))"
    "set (concat (map entryRegisters (vf_blocks v))) \<inter> set (concat (map (blockDefs \<circ> blockInstructions) (vf_blocks v))) = {}"
    using assms(1) by (simp_all add: handedOut_def)
  have "distinct (entryRegisters (vf_blocks v ! k))" "distinct (blockDefs (blockInstructions (vf_blocks v ! k)))"
    using d(1,2) b by (auto simp: distinct_concat_iff)
  then show ?thesis using d(3) b by auto
qed

text \<open>
  The state of the register machine at instruction \<open>i\<close> of block \<open>k\<close> against the stack: the registers of
  the symbolic stack \<open>stack\<close> the lowering has there hold the values, and later results are written to
  other registers.
\<close>

definition atInstruction :: "IrFunction \<Rightarrow> IrModule \<Rightarrow> IrVirtualRegisterFunction \<Rightarrow> BlockBuildInfo list \<Rightarrow> nat \<Rightarrow> nat
    \<Rightarrow> u32 list \<Rightarrow> bool" where
  "atInstruction f m v blocks k i stack \<longleftrightarrow>
     (\<exists>r r'. lowerBlockCode m (drop i (blockCode f (blocks ! k))) stack r
           = Inr (drop i (blockInstructions (vf_blocks v ! k)), exitRegisters (vf_blocks v ! k), r'))
     \<and> distinct (stack @ blockDefs (drop i (blockInstructions (vf_blocks v ! k))))"

definition vrRel :: "IrFunction \<Rightarrow> IrModule \<Rightarrow> IrVirtualRegisterFunction \<Rightarrow> BlockBuildInfo list \<Rightarrow> nat option list \<Rightarrow> nat
    \<Rightarrow> 'w VrState \<Rightarrow> 'w VmState \<Rightarrow> bool" where
  "vrRel f m v blocks D fi st s \<longleftrightarrow>
     (\<exists>fr. frames s = [fr] \<and> functionIndex fr = fi \<and> frameLocals fr = vrLocals st \<and> vmHeap s = vrHeap st \<and> world s = vrWorld st
       \<and> (vrBlock st \<ge> length (vf_blocks v) \<and> frameIp fr = length (instructions f)
          \<or> vrBlock st < length (vf_blocks v) \<and> D ! vrBlock st \<noteq> None
            \<and> vrIndex st < length (blockInstructions (vf_blocks v ! vrBlock st))
            \<and> frameIp fr = startInstructionIndex (vf_blocks v ! vrBlock st) + vrIndex st
            \<and> (\<exists>stack. atInstruction f m v blocks (vrBlock st) (vrIndex st) stack \<and> opStack s = rev (map (vrRegs st) stack))))"

lemma lowerBlockCode_end: "lowerBlockCode m code stack r = Inr ([], stack', r') \<Longrightarrow> stack' = stack"
  by (cases code) (auto simp: rbind_Inr_iff split_beta)

text \<open>At the start of a reachable block the symbolic stack is its entry registers.\<close>

lemma atInstruction_entry:
  assumes "simulated f m v leaders blocks D entries" "k < length (vf_blocks v)" "D ! k \<noteq> None"
  shows "atInstruction f m v blocks k 0 (entryRegisters (vf_blocks v ! k))" "0 < length (blockInstructions (vf_blocks v ! k))"
proof -
  note sim = assms(1) [unfolded simulated_def]
  obtain r r' where b: "lowerBlock f m blocks D entries k r = Inr (vf_blocks v ! k, r')"
    using sim assms(2) by (auto simp: loweredFrom_def)
  show "atInstruction f m v blocks k 0 (entryRegisters (vf_blocks v ! k))"
    using lowerBlock_reachable(2,5) [OF b assms(3)] block_registers_distinct [of v k] sim assms(2) by (auto simp: atInstruction_def)
  have "k < length leaders" using sim assms(2) by (auto simp: loweredFrom_def graphOf_def)
  then show "0 < length (blockInstructions (vf_blocks v ! k))"
    using loweredFrom_code(3) [of f leaders blocks m v D entries k] blockEndOf_bounds(1) [of f leaders k] sim assms(2,3) by simp
qed

text \<open>Going on after instruction \<open>i\<close>: the next instruction of the block, the edge to the block at \<open>t\<close>, or the end of the code.\<close>

lemma vrGoto_rel:
  assumes sim: "simulated f m v leaders blocks D entries"
    and k: "vrBlock st < length (vf_blocks v)" "D ! vrBlock st \<noteq> None" "vrIndex st < length (blockInstructions (vf_blocks v ! vrBlock st))"
    and after: "atInstruction f m v blocks (vrBlock st) (Suc (vrIndex st)) stack"
    and t: "continuesAt f (startInstructionIndex (vf_blocks v ! vrBlock st) + vrIndex st) t" "t \<le> length (instructions f)"
    and s: "frames s = [fr]" "functionIndex fr = fi" "frameLocals fr = vrLocals st" "vmHeap s = vrHeap st" "world s = vrWorld st"
      "frameIp fr = t" "opStack s = rev (map (vrRegs st) stack)"
  shows "vrRel f m v blocks D fi (vrGoto v st t) s"
proof -
  let ?k = "vrBlock st" and ?i = "vrIndex st"
  let ?b = "vf_blocks v ! vrBlock st"
  have l: "leadersOf f leaders" and g: "graphOf f leaders blocks" and low: "loweredFrom f m v blocks D entries"
    and dist: "distinct (handedOut v)" using sim by (simp_all add: simulated_def)
  note code = loweredFrom_code [OF l g low k(1,2)]
  have kb: "?k < length blocks" "?k < length leaders" using low g k(1) by (auto simp: loweredFrom_def graphOf_def)
  note e = blockEndOf_bounds [OF l kb(2)]
  show ?thesis
  proof (cases "?i + 1 < length (blockInstructions ?b)")
    case True
    let ?p = "leaders ! ?k + ?i"
    have "?p < length (instructions f)" using True code(3) e by linarith
    moreover have "?p + 1 \<notin> set leaders" using no_leader_inside [OF l kb(2), of "?p + 1"] True code(3) by simp
    moreover have "?p + 1 < length (instructions f)" using True code(3) e by linarith
    ultimately have "\<not> isTerminatorOpcode (op (instructions f ! ?p))" using l by (auto simp: leadersOf_def)
    then have "t = startInstructionIndex ?b + ?i + 1"
      using t(1) code(1) by (auto simp: continuesAt_def isTerminatorOpcode_def isJumpOpcode_def)
    then have "vrGoto v st t = st\<lparr>vrIndex := ?i + 1\<rparr>" using True by (simp add: vrGoto_def Let_def)
    then show ?thesis
      unfolding vrRel_def using s after k True \<open>t = _\<close> by auto
  next
    case False
    then have last: "startInstructionIndex ?b + ?i = blockEndOf f leaders ?k - 1" using k(3) code(1,3) by linarith
    have exit: "stack = exitRegisters ?b" using after False by (auto simp: atInstruction_def dest: lowerBlockCode_end)
    show ?thesis
    proof (cases "edgeTo v ?b t")
      case None
      have "t = length (instructions f)"
      proof (rule ccontr)
        assume "t \<noteq> length (instructions f)"
        then have "t < length (instructions f)" using t(2) by simp
        then obtain sx where sx: "sx \<in> set (successors (blocks ! ?k))" "leaders ! sx = t"
          using successor_exists [OF l g kb(1)] t(1) last by auto
        have reach: "blockReachable ?b" using loweredFrom_block(1) [OF low k(1)] k(2) by simp
        from loweredFrom_block(4) [OF low k(1) this] sx(1) have "sx \<in> successorBlockIndex ` set (successorEdges ?b)"
          by (metis list.set_map)
        then obtain edge where edge: "edge \<in> set (successorEdges ?b)" "successorBlockIndex edge = sx" by blast
        note to = loweredFrom_edge [OF low k(1) edge(1)]
        have "D ! sx \<noteq> None" using to(2) loweredFrom_block(1) [OF low to(1)] edge(2) by simp
        then have "startInstructionIndex (vf_blocks v ! sx) = t"
          using loweredFrom_code(1) [OF l g low, of sx] to(1) edge(2) sx(2) by simp
        then show False using None edge by (auto simp: edgeTo_def find_None_iff)
      qed
      moreover have "vrGoto v st t = st\<lparr>vrBlock := length (vf_blocks v), vrIndex := 0\<rparr>"
        using False None by (simp add: vrGoto_def Let_def)
      ultimately show ?thesis unfolding vrRel_def using s by auto
    next
      case (Some edge)
      then have edge: "edge \<in> set (successorEdges ?b)" "startInstructionIndex (vf_blocks v ! successorBlockIndex edge) = t"
        by (auto simp: edgeTo_def find_Some_iff)
      let ?s = "successorBlockIndex edge"
      note to = loweredFrom_edge [OF low k(1) edge(1)]
      have D: "D ! ?s \<noteq> None" using to(2) loweredFrom_block(1) [OF low to(1)] by simp
      have "vrGoto v st t = st\<lparr>vrBlock := ?s, vrIndex := 0, vrRegs := applyMoves (stackMoves edge) (vrRegs st)\<rparr>"
        using False Some by (simp add: vrGoto_def Let_def)
      moreover have "distinct (map destinationRegister (stackMoves edge))"
        using block_registers_distinct [OF dist to(1)] to(4) by simp
      then have "map (applyMoves (stackMoves edge) (vrRegs st)) (entryRegisters (vf_blocks v ! ?s)) = map (vrRegs st) (exitRegisters ?b)"
        using map_applyMoves to(3,4) by metis
      ultimately show ?thesis
        unfolding vrRel_def using s atInstruction_entry [OF sim to(1) D] to(1) D edge(2) exit by auto
    qed
  qed
qed

text \<open>One instruction: the symbolic stack before it and behind it.\<close>

lemma atInstruction_step:
  assumes "atInstruction f m v blocks k i stack" "i < length (blockInstructions (vf_blocks v ! k))"
  obtains inst stack' r r1 j where "lowerInstruction m j inst stack r = Inr (blockInstructions (vf_blocks v ! k) ! i, stack', r1)"
    "atInstruction f m v blocks k (Suc i) stack'" "vr_instruction (blockInstructions (vf_blocks v ! k) ! i) = inst"
    "distinct (stack @ defRegisters (blockInstructions (vf_blocks v ! k) ! i))"
proof -
  let ?vs = "blockInstructions (vf_blocks v ! k)" and ?code = "blockCode f (blocks ! k)"
  have vs: "drop i ?vs = ?vs ! i # drop (Suc i) ?vs" using assms(2) by (simp add: Cons_nth_drop_Suc)
  from assms(1) obtain r r' where low: "lowerBlockCode m (drop i ?code) stack r = Inr (drop i ?vs, exitRegisters (vf_blocks v ! k), r')"
    and dist: "distinct (stack @ blockDefs (drop i ?vs))" by (auto simp: atInstruction_def)
  obtain j inst rest where code: "drop i ?code = (j, inst) # rest"
    using low vs by (cases "drop i ?code") auto
  then have rest: "rest = drop (Suc i) ?code" by (metis drop_Suc list.sel(3) tl_drop)
  from low code vs obtain stack' r1 where one: "lowerInstruction m j inst stack r = Inr (?vs ! i, stack', r1)"
    and more': "lowerBlockCode m rest stack' r1 = Inr (drop (Suc i) ?vs, exitRegisters (vf_blocks v ! k), r')"
    by (auto simp: rbind_Inr_iff split_beta)
  have "set stack' \<subseteq> set stack \<union> set (defRegisters (?vs ! i))" using lowerInstruction_registers(3) [OF one] .
  moreover have "distinct stack'"
  proof -
    obtain eff where "stackEffectForOpcode inst m = Inr eff" using one by (auto simp: lowerInstruction_def rbind_Inr_iff)
    from lowerInstruction_operands [OF one this, of "\<lambda>r. 0"] have "stack' = take (length stack - pops eff) stack @ defRegisters (?vs ! i)" by metis
    then show ?thesis using dist vs by (auto dest: in_set_takeD)
  qed
  ultimately have "distinct (stack' @ blockDefs (drop (Suc i) ?vs))" using dist vs by auto
  then have "atInstruction f m v blocks k (Suc i) stack'" using more' rest by (auto simp: atInstruction_def)
  moreover have "distinct (stack @ defRegisters (?vs ! i))" using dist vs by auto
  ultimately show ?thesis using that [OF one] lowerInstruction_instruction [OF one] by blast
qed

text \<open>The outcome of a kernel step or run that is over, as the register machine reports it.\<close>

fun vrOutcome :: "'w VmStepResult \<Rightarrow> 'w VrStepResult" where
  "vrOutcome (Exited val s) = VrExited val (vmHeap s) (world s)"
| "vrOutcome (Faulted e s) = VrFaulted e (vmHeap s) (world s)"
| "vrOutcome _ = VrUndefined"

definition vrMatches :: "('w VrState \<Rightarrow> 'w VmState \<Rightarrow> bool) \<Rightarrow> 'w VrStepResult \<Rightarrow> 'w VmStepResult \<Rightarrow> bool" where
  "vrMatches R vr out \<longleftrightarrow> (case out of Running s' \<Rightarrow> (\<exists>st'. vr = VrRunning st' \<and> R st' s') | _ \<Rightarrow> vr = vrOutcome out)"

lemma vrMatches_simps [simp]:
  "vrMatches R vr (Running s') \<longleftrightarrow> (\<exists>st'. vr = VrRunning st' \<and> R st' s')"
  "vrMatches R vr (Exited val s') \<longleftrightarrow> vr = VrExited val (vmHeap s') (world s')"
  "vrMatches R vr (Faulted e s') \<longleftrightarrow> vr = VrFaulted e (vmHeap s') (world s')"
  "vrMatches R vr Undefined \<longleftrightarrow> vr = VrUndefined"
  by (simp_all add: vrMatches_def)

text \<open>
  The register machine and the kernel in front of the same instruction: \<open>vi\<close> is the lowered one, \<open>p\<close> its
  position, \<open>kept\<close> are the registers below its operands.
\<close>

definition inFrontOf :: "IrFunction \<Rightarrow> IrModule \<Rightarrow> IrVirtualRegisterFunction \<Rightarrow> BlockBuildInfo list \<Rightarrow> nat option list \<Rightarrow> nat
    \<Rightarrow> 'w VrState \<Rightarrow> 'w VmState \<Rightarrow> VmKernelFrame \<Rightarrow> IrVirtualRegisterInstruction \<Rightarrow> nat \<Rightarrow> StackEffect \<Rightarrow> u64 list \<Rightarrow> u32 list \<Rightarrow> bool" where
  "inFrontOf f m v blocks D fi st s fr vi p eff below kept \<longleftrightarrow>
     frames s = [fr] \<and> functionIndex fr = fi \<and> frameLocals fr = vrLocals st \<and> vmHeap s = vrHeap st \<and> world s = vrWorld st
     \<and> vrBlock st < length (vf_blocks v) \<and> D ! vrBlock st \<noteq> None \<and> vrIndex st < length (blockInstructions (vf_blocks v ! vrBlock st))
     \<and> blockInstructions (vf_blocks v ! vrBlock st) ! vrIndex st = vi \<and> startInstructionIndex (vf_blocks v ! vrBlock st) + vrIndex st = p
     \<and> frameIp fr = p \<and> p < length (instructions f) \<and> vr_instruction vi = instructions f ! p
     \<and> stackEffectForOpcode (instructions f ! p) m = Inr eff
     \<and> opStack s = rev (map (vrRegs st) (useRegisters vi)) @ below
     \<and> length (useRegisters vi) = max (pops eff) (readsWithoutPop eff)
     \<and> drop (pops eff) (rev (map (vrRegs st) (useRegisters vi))) @ below = rev (map (vrRegs st) kept)
     \<and> distinct (kept @ defRegisters vi) \<and> length (defRegisters vi) = pushes eff
     \<and> atInstruction f m v blocks (vrBlock st) (Suc (vrIndex st)) (kept @ defRegisters vi)"

lemma vrRel_inFrontOf:
  assumes sim: "simulated f m v leaders blocks D entries" and rel: "vrRel f m v blocks D fi st s" and k: "vrBlock st < length (vf_blocks v)"
  obtains fr vi p eff below kept where "inFrontOf f m v blocks D fi st s fr vi p eff below kept"
proof -
  let ?k = "vrBlock st" and ?i = "vrIndex st"
  let ?vi = "blockInstructions (vf_blocks v ! ?k) ! ?i"
  from rel k obtain fr stack where fr: "frames s = [fr]" "functionIndex fr = fi" "frameLocals fr = vrLocals st" "vmHeap s = vrHeap st"
      "world s = vrWorld st" and D: "D ! ?k \<noteq> None" and i: "?i < length (blockInstructions (vf_blocks v ! ?k))"
    and ip: "frameIp fr = startInstructionIndex (vf_blocks v ! ?k) + ?i"
    and at: "atInstruction f m v blocks ?k ?i stack" and stk: "opStack s = rev (map (vrRegs st) stack)"
    unfolding vrRel_def by (auto simp del: not_None_eq)
  note low = sim [unfolded simulated_def]
  have kl: "?k < length leaders" using low k by (auto simp: loweredFrom_def graphOf_def)
  note code = loweredFrom_code [of f leaders blocks m v D entries ?k]
  have p: "startInstructionIndex (vf_blocks v ! ?k) + ?i < length (instructions f)"
    using code(1,3) blockEndOf_bounds [of f leaders ?k] low k kl D i by simp
  obtain inst stack' r r1 j where one: "lowerInstruction m j inst stack r = Inr (?vi, stack', r1)"
    and after: "atInstruction f m v blocks ?k (Suc ?i) stack'" and inst: "vr_instruction ?vi = inst"
    and dist: "distinct (stack @ defRegisters ?vi)"
    using atInstruction_step [OF at i] by metis
  have inst': "inst = instructions f ! (startInstructionIndex (vf_blocks v ! ?k) + ?i)" using code(1,4) low k D i inst by simp
  obtain eff where eff: "stackEffectForOpcode inst m = Inr eff" using one by (auto simp: lowerInstruction_def rbind_Inr_iff)
  obtain below where ops: "rev (map (vrRegs st) stack) = rev (map (vrRegs st) (useRegisters ?vi)) @ below"
    "length (useRegisters ?vi) = max (pops eff) (readsWithoutPop eff)"
    "drop (pops eff) (rev (map (vrRegs st) (useRegisters ?vi))) @ below = rev (map (vrRegs st) (take (length stack - pops eff) stack))"
    "stack' = take (length stack - pops eff) stack @ defRegisters ?vi" "length (defRegisters ?vi) = pushes eff"
    using lowerInstruction_operands [OF one eff, of "vrRegs st"] by metis
  have "distinct (take (length stack - pops eff) stack @ defRegisters ?vi)" using dist by (auto dest: in_set_takeD)
  then have "inFrontOf f m v blocks D fi st s fr ?vi (startInstructionIndex (vf_blocks v ! ?k) + ?i) eff below (take (length stack - pops eff) stack)"
    unfolding inFrontOf_def using fr k D i ip p inst inst' eff ops stk after by simp
  then show ?thesis by (rule that)
qed

lemma inFrontOf_at:
  assumes "inFrontOf f m v blocks D fi st s fr vi p eff below kept"
  shows "blockInstructions (vf_blocks v ! vrBlock st) ! vrIndex st = vi"
    "startInstructionIndex (vf_blocks v ! vrBlock st) + vrIndex st = p" "vr_instruction vi = instructions f ! p"
  using assms by (simp_all add: inFrontOf_def)

lemma inFrontOf_operands:
  assumes "inFrontOf f m v blocks D fi st s fr vi p eff below kept"
  shows "stackEffectForOpcode (instructions f ! p) m = Inr eff" "length (useRegisters vi) = max (pops eff) (readsWithoutPop eff)"
    "length (defRegisters vi) = pushes eff" "opStack s = rev (map (vrRegs st) (useRegisters vi)) @ below"
    "drop (pops eff) (rev (map (vrRegs st) (useRegisters vi))) @ below = rev (map (vrRegs st) kept)"
  using assms by (simp_all add: inFrontOf_def)

text \<open>Going on from there, with results in the definition registers.\<close>

lemma inFrontOf_goto:
  assumes sim: "simulated f m v leaders blocks D entries" and at: "inFrontOf f m v blocks D fi st s fr vi p eff below kept"
    and t: "continuesAt f p t" "t \<le> length (instructions f)"
    and st': "vrBlock st' = vrBlock st" "vrIndex st' = vrIndex st"
    and s': "frames s' = [fr']" "functionIndex fr' = fi" "frameLocals fr' = vrLocals st'" "vmHeap s' = vrHeap st'" "world s' = vrWorld st'"
      "frameIp fr' = t" "opStack s' = rev (map (vrRegs st') (kept @ defRegisters vi))"
  shows "vrRel f m v blocks D fi (vrGoto v st' t) s'"
  by (rule vrGoto_rel [OF sim, of st' "kept @ defRegisters vi" t s' fr'])
    (use at t st' s' in \<open>simp_all add: inFrontOf_def del: not_None_eq\<close>)

lemma vrStep_data:
  assumes sim: "simulated f m v leaders blocks D entries" and at: "inFrontOf f m v blocks D fi st s fr vi p eff below kept"
    and f: "mod_functions m ! fi = f" and data: "\<not> isControlFlowOpcode (op (instructions f ! p))"
  shows "vrMatches (vrRel f m v blocks D fi) (vrStep host m v st) (vmKernelStep host m s)"
proof -
  let ?inst = "instructions f ! p" and ?ops = "rev (map (vrRegs st) (useRegisters vi))" and ?b = "vf_blocks v ! vrBlock st"
  note A = at [unfolded inFrontOf_def]
  have p: "p < length (instructions f)" using A by simp
  have ok: "op ?inst \<noteq> HeapRealloc" using sim nth_mem [OF p] by (simp add: simulated_def)
  have eff: "stackEffectForOpcode ?inst m = Inr eff" using A by simp
  have frame: "kernelData host m ?inst (opStack s) l h w = onTop below (kernelData host m ?inst ?ops l h w)" for l h w
    using kernelData_onTop [OF eff data ok, of ?ops host below l h w] A by simp
  have kernel: "vmKernelStep host m s = applyData s fr [] (onTop below (kernelData host m ?inst ?ops (vrLocals st) (vrHeap st) (vrWorld st)))"
    using A f control_flow_handled_iff [THEN iffD2, OF data] frame by (simp add: vmKernelStep_def Let_def)
  have nojump: "\<not> isJumpOpcode (op ?inst)" "\<not> isReturnOpcode (op ?inst)"
    using data by (auto simp: isControlFlowOpcode_def isJumpOpcode_def isReturnOpcode_def)
  have machine: "vrStep host m v st = (case kernelData host m ?inst ?ops (vrLocals st) (vrHeap st) (vrWorld st) of
       DataNext stk locals h wd \<Rightarrow>
         VrRunning (vrGoto v (st\<lparr>vrRegs := setRegisters (defRegisters vi) (rev (take (length (defRegisters vi)) stk)) (vrRegs st),
           vrLocals := locals, vrHeap := h, vrWorld := wd\<rparr>) (p + 1))
     | DataFault e stk \<Rightarrow> VrFaulted e (vrHeap st) (vrWorld st)
     | DataUndefined \<Rightarrow> VrUndefined
     | DataUnknown \<Rightarrow> VrFaulted ''unknown IR opcode'' (vrHeap st) (vrWorld st))"
    using A nojump unfolding vrStep_def Let_def inFrontOf_at [OF at] by simp
  show ?thesis
  proof (cases "kernelData host m ?inst ?ops (vrLocals st) (vrHeap st) (vrWorld st)")
    case (DataNext stk l h w)
    obtain new where new: "length new = pushes eff" "stk = new @ drop (pops eff) ?ops"
      using kernelData_leaves [OF eff data ok DataNext] by (auto simp: leaves_def)
    have defs: "length (defRegisters vi) = length new" "distinct (defRegisters vi)" "set kept \<inter> set (defRegisters vi) = {}" using A new by auto
    let ?regs = "setRegisters (defRegisters vi) (rev new) (vrRegs st)"
    have regs: "rev (map ?regs (kept @ defRegisters vi)) = stk @ below"
      using map_setRegisters [of "defRegisters vi" "rev new" "vrRegs st"] map_setRegisters_other [of kept "defRegisters vi" "rev new" "vrRegs st"]
        defs new A by simp
    have taken: "take (length (defRegisters vi)) stk = new" using defs(1) new(2) by simp
    have goto: "continuesAt f p (p + 1)" "p + 1 \<le> length (instructions f)"
      using nojump p by (auto simp: continuesAt_def isJumpOpcode_def)
    show ?thesis
      unfolding machine kernel DataNext
      using inFrontOf_goto [OF sim at goto, of "st\<lparr>vrRegs := ?regs, vrLocals := l, vrHeap := h, vrWorld := w\<rparr>"
          "\<lparr>opStack = stk @ below, frames = [fr\<lparr>frameLocals := l, frameIp := frameIp fr + 1\<rparr>], vmHeap = h, world = w\<rparr>"
          "fr\<lparr>frameLocals := l, frameIp := frameIp fr + 1\<rparr>"] A regs taken
      by (simp add: applyData_def)
  qed (use A in \<open>simp_all add: machine kernel applyData_def\<close>)
qed

lemma vrStep_jump:
  assumes sim: "simulated f m v leaders blocks D entries" and at: "inFrontOf f m v blocks D fi st s fr vi p eff below kept"
    and f: "mod_functions m ! fi = f" and jump: "isJumpOpcode (op (instructions f ! p))"
  shows "vrMatches (vrRel f m v blocks D fi) (vrStep host m v st) (vmKernelStep host m s)"
proof -
  let ?inst = "instructions f ! p" and ?ops = "rev (map (vrRegs st) (useRegisters vi))"
  let ?t = "if op ?inst = Jump \<or> hd ?ops = 0 then unat (imm ?inst) else p + 1"
  note A = at [unfolded inFrontOf_def]
  have p: "p < length (instructions f)" using A by simp
  have imm: "unat (imm ?inst) \<le> length (instructions f)"
    using sim p jump unfolding simulated_def leadersOf_def by blast
  note B = inFrontOf_operands [OF at]
  have eff: "eff = (if op ?inst = Jump then effect 0 0 0 else effect 1 0 0)"
    using B(1) jump by (auto simp: isJumpOpcode_def stackEffectForOpcode_def)
  have ops: "op ?inst = Jump \<and> ?ops = [] \<or> op ?inst \<noteq> Jump \<and> (\<exists>c. ?ops = [c])"
    using B(2) eff by (cases "op ?inst = Jump") (auto simp: length_Suc_conv)
  have kept: "below = rev (map (vrRegs st) kept)" using B(5) eff ops by auto
  have nodefs: "defRegisters vi = []" using B(3) eff by (auto split: if_splits)
  have machine: "vrStep host m v st = VrRunning (vrGoto v st ?t)"
    using A jump unfolding vrStep_def Let_def inFrontOf_at [OF at] by simp
  have cf: "handleSharedVmControlFlowOpcode ?inst (?ops @ below) (length (instructions f)) fc frc mcd ret p = CfContinue below ?t"
    for fc frc mcd ret
    using ops jump imm by (auto simp: handleSharedVmControlFlowOpcode_def isJumpOpcode_def)
  have kernel: "vmKernelStep host m s = Running (s\<lparr>opStack := below, frames := [fr\<lparr>frameIp := ?t\<rparr>]\<rparr>)"
    using A f cf by (simp add: vmKernelStep_def Let_def)
  have t: "continuesAt f p ?t" "?t \<le> length (instructions f)" using jump imm p by (auto simp: continuesAt_def isJumpOpcode_def isReturnOpcode_def)
  have "vrRel f m v blocks D fi (vrGoto v st ?t) (s\<lparr>opStack := below, frames := [fr\<lparr>frameIp := ?t\<rparr>]\<rparr>)"
    by (rule inFrontOf_goto [OF sim at t refl refl, where fr' = "fr\<lparr>frameIp := ?t\<rparr>"]) (use A kept nodefs in simp_all)
  then show ?thesis unfolding machine kernel by simp
qed

lemma vrStep_return:
  assumes sim: "simulated f m v leaders blocks D entries" and at: "inFrontOf f m v blocks D fi st s fr vi p eff below kept"
    and f: "mod_functions m ! fi = f" and ret: "isReturnOpcode (op (instructions f ! p))"
  shows "vrMatches (vrRel f m v blocks D fi) (vrStep host m v st) (vmKernelStep host m s)"
proof -
  let ?inst = "instructions f ! p" and ?ops = "rev (map (vrRegs st) (useRegisters vi))"
  note A = at [unfolded inFrontOf_def]
  have nojump: "\<not> isJumpOpcode (op ?inst)" using ret by (auto simp: isJumpOpcode_def isReturnOpcode_def)
  note B = inFrontOf_operands [OF at]
  have eff: "eff = (if op ?inst = ReturnVoid then effect 0 0 0 else effect 1 0 0)"
    using B(1) ret by (auto simp: isReturnOpcode_def stackEffectForOpcode_def)
  have ops: "op ?inst = ReturnVoid \<and> ?ops = [] \<or> op ?inst \<noteq> ReturnVoid \<and> (\<exists>c. ?ops = [c])"
    using B(2) eff by (cases "op ?inst = ReturnVoid") (auto simp: length_Suc_conv)
  obtain val where val: "returnOperand (op ?inst) ?ops = Some (val, [])" "returnOperand (op ?inst) (opStack s) = Some (val, below)"
    using ops B(4) by (auto simp: returnOperand_def)
  have machine: "vrStep host m v st = VrExited val (vrHeap st) (vrWorld st)"
    using A nojump ret val(1) unfolding vrStep_def Let_def inFrontOf_at [OF at] by simp
  have exit: "handleSharedVmControlFlowOpcode ?inst (opStack s) ic fc (Suc 0) mcd r ip = CfExit val r below" for ic fc mcd r ip
    using CfExit_iff [of ?inst "opStack s" ic fc "Suc 0" mcd r ip val r below] ret val(2) by simp
  have "vmKernelStep host m s = Exited val (s\<lparr>opStack := below\<rparr>)"
    using A f exit by (simp add: vmKernelStep_def Let_def)
  then show ?thesis using machine A by simp
qed

text \<open>The register machine and the kernel keep step.\<close>

lemma vrStep_matches:
  assumes sim: "simulated f m v leaders blocks D entries" and rel: "vrRel f m v blocks D fi st s" and f: "mod_functions m ! fi = f"
  shows "vrMatches (vrRel f m v blocks D fi) (vrStep host m v st) (vmKernelStep host m s)"
proof (cases "vrBlock st < length (vf_blocks v)")
  case False
  then obtain fr where "frames s = [fr]" "functionIndex fr = fi" "frameIp fr = length (instructions f)" "vmHeap s = vrHeap st" "world s = vrWorld st"
    using rel by (auto simp: vrRel_def)
  then show ?thesis using False f by (simp add: vrStep_def vmKernelStep_def Let_def)
next
  case True
  obtain fr vi p eff below kept where at: "inFrontOf f m v blocks D fi st s fr vi p eff below kept"
    using vrRel_inFrontOf [OF sim rel True] .
  then have "p < length (instructions f)" by (simp add: inFrontOf_def)
  then have "\<not> isCallOpcode (op (instructions f ! p))" using sim nth_mem by (auto simp: simulated_def)
  then consider "isJumpOpcode (op (instructions f ! p))" | "isReturnOpcode (op (instructions f ! p))"
    | "\<not> isControlFlowOpcode (op (instructions f ! p))"
    by (auto simp: isControlFlowOpcode_def isJumpOpcode_def isReturnOpcode_def isCallOpcode_def)
  then show ?thesis
    by cases (use vrStep_jump [OF sim at f] vrStep_return [OF sim at f] vrStep_data [OF sim at f] in blast)+
qed

section \<open>Whole runs\<close>

lemma vmKernelLoop_unfold:
  "vmKernelLoop host m s = (case vmKernelStep host m s of Running s' \<Rightarrow> vmKernelLoop host m s' | out \<Rightarrow> Some out)"
  by (rule vmKernelLoop.simps)

lemma kernel_to_registers:
  assumes sim: "simulated f m v leaders blocks D entries" and f: "mod_functions m ! fi = f"
    and run: "vmKernelLoop host m s = Some out" and rel: "vrRel f m v blocks D fi st s"
  shows "vrLoop host m v st = Some (vrOutcome out)"
proof -
  obtain n where "runSteps n host m s = Some out" using loop_runSteps [OF run] by blast
  then show ?thesis
    using rel
  proof (induction n arbitrary: s st)
    case (Suc n)
    note step = vrStep_matches [OF sim Suc.prems(2) f, of host]
    show ?case
    proof (cases "vmKernelStep host m s")
      case (Running s')
      then obtain st' where "vrStep host m v st = VrRunning st'" "vrRel f m v blocks D fi st' s'" using step by auto
      moreover have "runSteps n host m s' = Some out" using Suc.prems(1) Running by simp
      ultimately show ?thesis using Suc.IH by (subst vrLoop.simps) simp
    next
      case (Exited val s')
      then have "out = Exited val s'" using Suc.prems(1) by simp
      then show ?thesis using step Exited by (simp add: vrLoop.simps [of host m v st])
    next
      case (Faulted e s')
      then have "out = Faulted e s'" using Suc.prems(1) by simp
      then show ?thesis using step Faulted by (simp add: vrLoop.simps [of host m v st])
    next
      case Undefined
      then have "out = Undefined" using Suc.prems(1) by simp
      then show ?thesis using step Undefined by (simp add: vrLoop.simps [of host m v st])
    qed
  qed simp
qed

lemma registers_to_kernel:
  assumes sim: "simulated f m v leaders blocks D entries" and f: "mod_functions m ! fi = f"
    and run: "vrLoop host m v st = Some res" and rel: "vrRel f m v blocks D fi st s"
  shows "\<exists>out. vmKernelLoop host m s = Some out"
proof -
  have "\<forall>s f blocks leaders D entries fi. simulated f m v leaders blocks D entries \<longrightarrow> mod_functions m ! fi = f \<longrightarrow>
      vrRel f m v blocks D fi st s \<longrightarrow> (\<exists>out. vmKernelLoop host m s = Some out)"
  proof (rule vrLoop.raw_induct [where P = "\<lambda>host m v st res. \<forall>s f blocks leaders D entries fi.
        simulated f m v leaders blocks D entries \<longrightarrow> mod_functions m ! fi = f \<longrightarrow> vrRel f m v blocks D fi st s \<longrightarrow>
        (\<exists>out. vmKernelLoop host m s = Some out)", OF _ run], intro allI impI)
    fix loop host m v st res s f blocks leaders D entries fi
    assume IH: "\<And>host m v st res. loop host m v st = Some res \<Longrightarrow> \<forall>s f blocks leaders D entries fi.
        simulated f m v leaders blocks D entries \<longrightarrow> mod_functions m ! fi = f \<longrightarrow> vrRel f m v blocks D fi st s \<longrightarrow>
        (\<exists>out. vmKernelLoop host m s = Some out)"
      and eq: "(case vrStep host m v st of VrRunning st' \<Rightarrow> loop host m v st' | out \<Rightarrow> Some out) = Some res"
      and sim: "simulated f m v leaders blocks D entries" and f: "mod_functions m ! fi = f" and rel: "vrRel f m v blocks D fi st s"
    note step = vrStep_matches [OF sim rel f, of host]
    show "\<exists>out. vmKernelLoop host m s = Some out"
    proof (cases "vmKernelStep host m s")
      case (Running s')
      then obtain st' where st': "vrStep host m v st = VrRunning st'" "vrRel f m v blocks D fi st' s'" using step by auto
      then have "loop host m v st' = Some res" using eq by simp
      from IH [OF this] sim f st'(2) have "\<exists>out. vmKernelLoop host m s' = Some out" by blast
      then show ?thesis using Running by (simp add: vmKernelLoop_unfold [of host m s])
    qed (simp_all add: vmKernelLoop_unfold [of host m s])
  qed
  then show ?thesis using sim f rel by blast
qed



end
