(* ===== verification/VrLiveness.thy ===== *)
theory VrLiveness
  imports VrLowering "HOL-Library.Product_Lexorder"
begin

text \<open>
  Liveness of virtual registers (\<^verbatim>\<open>src/IrVirtualRegisterLiveness.cpp\<close>): the data-flow iteration over
  the blocks of a function and the live intervals. A set of registers is a sorted list without
  duplicates, as in the source; \<^verbatim>\<open>std::set_union\<close> and \<^verbatim>\<open>std::set_difference\<close> are the merges the
  standard defines, and \<^verbatim>\<open>std::binary_search\<close> on a sorted list is membership.
\<close>

section \<open>Data\<close>

record IrVirtualRegisterLiveRange =
  startPosition :: u32
  endPosition :: u32

record IrVirtualRegisterInterval =
  iv_virtualRegister :: u32
  ranges :: "IrVirtualRegisterLiveRange list"

record IrVirtualRegisterBlockLiveness =
  liveInRegisters :: "u32 list"
  liveOutRegisters :: "u32 list"

record IrVirtualRegisterFunctionLiveness =
  fl_functionName :: string
  fl_blocks :: "IrVirtualRegisterBlockLiveness list"
  intervals :: "IrVirtualRegisterInterval list"

record IrVirtualRegisterModuleLiveness =
  ml_functions :: "IrVirtualRegisterFunctionLiveness list"

section \<open>Sorted register lists\<close>

definition sortUnique :: "u32 list \<Rightarrow> u32 list" where
  "sortUnique registers = remdups_adj (sort registers)"

fun sortedUnion :: "u32 list \<Rightarrow> u32 list \<Rightarrow> u32 list" where
  "sortedUnion [] ys = ys"
| "sortedUnion (x # xs) [] = x # xs"
| "sortedUnion (x # xs) (y # ys) =
     (if x < y then x # sortedUnion xs (y # ys)
      else if y < x then y # sortedUnion (x # xs) ys
      else x # sortedUnion xs ys)"

fun sortedDifference :: "u32 list \<Rightarrow> u32 list \<Rightarrow> u32 list" where
  "sortedDifference [] ys = []"
| "sortedDifference (x # xs) [] = x # xs"
| "sortedDifference (x # xs) (y # ys) =
     (if x < y then x # sortedDifference xs (y # ys)
      else if y < x then sortedDifference (x # xs) ys
      else sortedDifference xs ys)"

definition mapThroughEdge :: "IrVirtualRegisterEdge \<Rightarrow> u32 \<Rightarrow> u32" where
  "mapThroughEdge edge reg =
     (case find (\<lambda>mv. destinationRegister mv = reg) (stackMoves edge) of None \<Rightarrow> reg | Some mv \<Rightarrow> sourceRegister mv)"

definition mapSuccessorLiveInThroughEdge :: "u32 list \<Rightarrow> IrVirtualRegisterEdge \<Rightarrow> u32 list" where
  "mapSuccessorLiveInThroughEdge successorLiveIn edge = sortUnique (map (mapThroughEdge edge) successorLiveIn)"

section \<open>Uses before definitions\<close>

fun scanUses :: "u32 \<Rightarrow> u32 list \<Rightarrow> u32 list \<Rightarrow> u32 list \<Rightarrow> u32 list result" where
  "scanUses lim defined [] uses = Inr uses"
| "scanUses lim defined (reg # regs) uses =
     (if reg \<ge> lim then Inl ''liveness pass found out-of-range use register''
      else scanUses lim defined regs (if reg \<in> set defined then uses else uses @ [reg]))"

fun scanDefs :: "u32 \<Rightarrow> u32 list \<Rightarrow> u32 list \<Rightarrow> u32 list result" where
  "scanDefs lim [] defined = Inr defined"
| "scanDefs lim (reg # regs) defined =
     (if reg \<ge> lim then Inl ''liveness pass found out-of-range def register''
      else scanDefs lim regs (defined @ [reg]))"

fun scanBlock :: "u32 \<Rightarrow> IrVirtualRegisterInstruction list \<Rightarrow> u32 list \<Rightarrow> u32 list \<Rightarrow> (u32 list \<times> u32 list) result" where
  "scanBlock lim [] uses defined = Inr (uses, defined)"
| "scanBlock lim (vi # vis) uses defined =
     rbind (scanUses lim defined (useRegisters vi) uses) (\<lambda>uses'.
     rbind (scanDefs lim (defRegisters vi) defined) (\<lambda>defined'.
       scanBlock lim vis uses' (sortUnique defined')))"

text \<open>The registers a block uses before it defines them, and those it defines.\<close>

definition blockUseDef :: "u32 \<Rightarrow> IrVirtualRegisterBlock \<Rightarrow> (u32 list \<times> u32 list) result" where
  "blockUseDef lim b =
     (if \<not> blockReachable b then Inr ([], [])
      else rbind (scanBlock lim (blockInstructions b) [] []) (\<lambda>(uses, defined). Inr (sortUnique uses, defined)))"

definition buildBlockUseDef :: "IrVirtualRegisterFunction \<Rightarrow> (u32 list \<times> u32 list) list result" where
  "buildBlockUseDef v = mapResult (blockUseDef (nextVirtualRegister v)) (vf_blocks v)"

section \<open>The iteration\<close>

fun liveOutOf :: "IrVirtualRegisterBlockLiveness list \<Rightarrow> IrVirtualRegisterEdge list \<Rightarrow> u32 list \<Rightarrow> u32 list result" where
  "liveOutOf lv [] out = Inr out"
| "liveOutOf lv (edge # edges) out =
     (if successorBlockIndex edge \<ge> length lv then Inl ''liveness pass found out-of-range successor block index''
      else liveOutOf lv edges
             (sortedUnion out (mapSuccessorLiveInThroughEdge (liveInRegisters (lv ! successorBlockIndex edge)) edge)))"

definition livenessUpdate :: "IrVirtualRegisterFunction \<Rightarrow> (u32 list \<times> u32 list) list \<Rightarrow> nat
    \<Rightarrow> IrVirtualRegisterBlockLiveness list \<Rightarrow> (IrVirtualRegisterBlockLiveness list \<times> bool) result" where
  "livenessUpdate v useDef k lv =
     (let b = vf_blocks v ! k in
      if \<not> blockReachable b then Inr (lv, False)
      else
        rbind (liveOutOf lv (successorEdges b) []) (\<lambda>newLiveOut.
          let newLiveIn = sortedUnion (fst (useDef ! k)) (sortedDifference newLiveOut (snd (useDef ! k))) in
          if newLiveOut \<noteq> liveOutRegisters (lv ! k) \<or> newLiveIn \<noteq> liveInRegisters (lv ! k)
          then Inr (lv[k := \<lparr>liveInRegisters = newLiveIn, liveOutRegisters = newLiveOut\<rparr>], True)
          else Inr (lv, False)))"

text \<open>One pass over the blocks, from the last to the first.\<close>

fun livenessPass :: "IrVirtualRegisterFunction \<Rightarrow> (u32 list \<times> u32 list) list \<Rightarrow> nat
    \<Rightarrow> IrVirtualRegisterBlockLiveness list \<Rightarrow> bool \<Rightarrow> (IrVirtualRegisterBlockLiveness list \<times> bool) result" where
  "livenessPass v useDef 0 lv changed = Inr (lv, changed)"
| "livenessPass v useDef (Suc k) lv changed =
     rbind (livenessUpdate v useDef k lv) (\<lambda>(lv', c). livenessPass v useDef k lv' (changed \<or> c))"

partial_function (option) livenessLoop :: "IrVirtualRegisterFunction \<Rightarrow> (u32 list \<times> u32 list) list
    \<Rightarrow> IrVirtualRegisterBlockLiveness list \<Rightarrow> IrVirtualRegisterBlockLiveness list result option" where
  "livenessLoop v useDef lv =
     (case livenessPass v useDef (length (vf_blocks v)) lv False of
        Inl e \<Rightarrow> Some (Inl e)
      | Inr (lv', changed) \<Rightarrow> if changed then livenessLoop v useDef lv' else Some (Inr lv'))"

definition computeBlockLiveness :: "IrVirtualRegisterFunction \<Rightarrow> IrVirtualRegisterBlockLiveness list result option" where
  "computeBlockLiveness v =
     (case buildBlockUseDef v of
        Inl e \<Rightarrow> Some (Inl e)
      | Inr useDef \<Rightarrow>
          livenessLoop v useDef (replicate (length (vf_blocks v)) \<lparr>liveInRegisters = [], liveOutRegisters = []\<rparr>))"

section \<open>Intervals\<close>

definition updateRange :: "u32 \<Rightarrow> u32 \<Rightarrow> IrVirtualRegisterInterval list \<Rightarrow> IrVirtualRegisterInterval list" where
  "updateRange reg position ivs =
     (let i = unat reg; interval = ivs ! i in
      ivs[i := interval\<lparr>ranges :=
        (case ranges interval of
           [] \<Rightarrow> [\<lparr>startPosition = position, endPosition = position\<rparr>]
         | r # rs \<Rightarrow> \<lparr>startPosition = min (startPosition r) position, endPosition = max (endPosition r) position\<rparr> # rs)\<rparr>])"

text \<open>Positions noted for a list of registers, each below the limit.\<close>

fun notePositions :: "u32 \<Rightarrow> string \<Rightarrow> u32 \<Rightarrow> u32 list \<Rightarrow> IrVirtualRegisterInterval list
    \<Rightarrow> IrVirtualRegisterInterval list result" where
  "notePositions lim message position [] ivs = Inr ivs"
| "notePositions lim message position (reg # regs) ivs =
     (if reg \<ge> lim then Inl message else notePositions lim message position regs (updateRange reg position ivs))"

fun noteInstructions :: "u32 \<Rightarrow> u32 \<Rightarrow> IrVirtualRegisterInstruction list \<Rightarrow> IrVirtualRegisterInterval list
    \<Rightarrow> IrVirtualRegisterInterval list result" where
  "noteInstructions lim index [] ivs = Inr ivs"
| "noteInstructions lim index (vi # vis) ivs =
     rbind (notePositions lim ''liveness pass found out-of-range use register'' (index * 2) (useRegisters vi) ivs) (\<lambda>ivs'.
     rbind (notePositions lim ''liveness pass found out-of-range def register'' (index * 2 + 1) (defRegisters vi) ivs') (\<lambda>ivs''.
       noteInstructions lim (index + 1) vis ivs''))"

definition blockStartPosition :: "IrVirtualRegisterBlock \<Rightarrow> u32" where
  "blockStartPosition b = of_nat (startInstructionIndex b) * 2"

definition blockEndPosition :: "IrVirtualRegisterBlock \<Rightarrow> u32" where
  "blockEndPosition b =
     (if endInstructionIndex b = startInstructionIndex b then blockStartPosition b
      else (of_nat (endInstructionIndex b) - 1) * 2 + 1)"

definition noteBlock :: "u32 \<Rightarrow> IrVirtualRegisterBlock \<Rightarrow> IrVirtualRegisterBlockLiveness
    \<Rightarrow> IrVirtualRegisterInterval list \<Rightarrow> IrVirtualRegisterInterval list result" where
  "noteBlock lim b lv ivs =
     (if \<not> blockReachable b then Inr ivs
      else
        rbind (notePositions lim ''liveness pass found out-of-range live-in register'' (blockStartPosition b) (liveInRegisters lv) ivs) (\<lambda>ivs1.
        rbind (notePositions lim ''liveness pass found out-of-range live-out register'' (blockEndPosition b) (liveOutRegisters lv) ivs1) (\<lambda>ivs2.
          noteInstructions lim (of_nat (startInstructionIndex b)) (blockInstructions b) ivs2)))"

fun noteBlocks :: "u32 \<Rightarrow> (IrVirtualRegisterBlock \<times> IrVirtualRegisterBlockLiveness) list
    \<Rightarrow> IrVirtualRegisterInterval list \<Rightarrow> IrVirtualRegisterInterval list result" where
  "noteBlocks lim [] ivs = Inr ivs"
| "noteBlocks lim ((b, lv) # bs) ivs = rbind (noteBlock lim b lv ivs) (noteBlocks lim bs)"

definition intervalKey :: "IrVirtualRegisterInterval \<Rightarrow> u32 \<times> u32 \<times> u32" where
  "intervalKey interval = (startPosition (hd (ranges interval)), endPosition (hd (ranges interval)), iv_virtualRegister interval)"

definition emptyIntervals :: "u32 \<Rightarrow> IrVirtualRegisterInterval list" where
  "emptyIntervals lim = map (\<lambda>i. \<lparr>iv_virtualRegister = of_nat i, ranges = []\<rparr>) [0..<unat lim]"

definition buildIntervals :: "IrVirtualRegisterFunction \<Rightarrow> IrVirtualRegisterBlockLiveness list
    \<Rightarrow> IrVirtualRegisterInterval list result" where
  "buildIntervals v lv =
     rbind (noteBlocks (nextVirtualRegister v) (zip (vf_blocks v) lv) (emptyIntervals (nextVirtualRegister v)))
       (\<lambda>ivs. Inr (sort_key intervalKey (filter (\<lambda>iv. ranges iv \<noteq> []) ivs)))"

section \<open>Functions and modules\<close>

definition functionLiveness :: "IrVirtualRegisterFunction \<Rightarrow> IrVirtualRegisterFunctionLiveness result option" where
  "functionLiveness v =
     (case computeBlockLiveness v of
        None \<Rightarrow> None
      | Some r \<Rightarrow>
          Some (inFunction ''liveness pass'' (vf_name v)
            (rbind r (\<lambda>lv. rbind (buildIntervals v lv) (\<lambda>ivs.
               Inr \<lparr>fl_functionName = vf_name v, fl_blocks = lv, intervals = ivs\<rparr>)))))"

fun functionsLiveness :: "IrVirtualRegisterFunction list \<Rightarrow> IrVirtualRegisterFunctionLiveness list result option" where
  "functionsLiveness [] = Some (Inr [])"
| "functionsLiveness (v # vs) =
     (case functionLiveness v of
        None \<Rightarrow> None
      | Some (Inl e) \<Rightarrow> Some (Inl e)
      | Some (Inr fl) \<Rightarrow>
          (case functionsLiveness vs of
             None \<Rightarrow> None
           | Some r \<Rightarrow> Some (rbind r (\<lambda>fls. Inr (fl # fls)))))"

definition buildIrVirtualRegisterLiveness :: "IrVirtualRegisterModule \<Rightarrow> IrVirtualRegisterModuleLiveness result option" where
  "buildIrVirtualRegisterLiveness m =
     (case functionsLiveness (vm_functions m) of
        None \<Rightarrow> None
      | Some r \<Rightarrow> Some (rbind r (\<lambda>fls. Inr \<lparr>ml_functions = fls\<rparr>)))"

end
