(* ===== verification/VrAllocator.thy ===== *)
theory VrAllocator
  imports VrLiveness
begin

text \<open>
  Linear-scan register allocation (\<^verbatim>\<open>src/IrVirtualRegisterAllocator.cpp\<close>). The sorts of the source
  compare by keys that end in the virtual register; \<open>sort_key\<close> sorts by the same keys, and agrees with
  \<^verbatim>\<open>std::sort\<close> where no register occurs twice. A reallocation of a vector that runs out of memory
  is not modelled.
\<close>

section \<open>Data\<close>

type_synonym IrLinearScanSpillPolicy = u8

definition SpillFarthestEnd :: IrLinearScanSpillPolicy where
  "SpillFarthestEnd = 0"

record IrLinearScanAllocatorOptions =
  physicalRegisterCount :: u32
  spillPolicy :: IrLinearScanSpillPolicy

record IrLinearScanRegisterAssignment =
  as_virtualRegister :: u32
  as_startPosition :: u32
  as_endPosition :: u32
  spilled :: bool
  physicalRegister :: u32
  spillSlot :: u32

record IrLinearScanFunctionAllocation =
  fa_functionName :: string
  assignments :: "IrLinearScanRegisterAssignment list"
  spillSlotCount :: u32

record IrLinearScanModuleAllocation =
  ma_functions :: "IrLinearScanFunctionAllocation list"

record IntervalWorkItem =
  wi_virtualRegister :: u32
  wi_startPosition :: u32
  wi_endPosition :: u32

record ActiveInterval =
  assignmentIndex :: u32
  ac_physicalRegister :: u32

section \<open>Work items\<close>

text \<open>The first start and last end of the ranges of an interval, from the largest start and the end 0.\<close>

fun rangeBounds :: "IrVirtualRegisterLiveRange list \<Rightarrow> u32 \<Rightarrow> u32 \<Rightarrow> (u32 \<times> u32) result" where
  "rangeBounds [] start fin = Inr (start, fin)"
| "rangeBounds (r # rs) start fin =
     (if endPosition r < startPosition r then Inl ''linear-scan allocator found invalid interval range''
      else rangeBounds rs (min start (startPosition r)) (max fin (endPosition r)))"

definition workItemKey :: "IntervalWorkItem \<Rightarrow> u32 \<times> u32 \<times> u32" where
  "workItemKey w = (wi_startPosition w, wi_endPosition w, wi_virtualRegister w)"

fun collectWorkItems :: "IrVirtualRegisterInterval list \<Rightarrow> IntervalWorkItem list result" where
  "collectWorkItems [] = Inr []"
| "collectWorkItems (iv # ivs) =
     (if ranges iv = [] then collectWorkItems ivs
      else rbind (rangeBounds (ranges iv) (- 1) 0) (\<lambda>(start, fin).
             rbind (collectWorkItems ivs) (\<lambda>items.
               Inr (\<lparr>wi_virtualRegister = iv_virtualRegister iv, wi_startPosition = start, wi_endPosition = fin\<rparr> # items))))"

definition buildIntervalWorkItems :: "IrVirtualRegisterFunctionLiveness \<Rightarrow> IntervalWorkItem list result" where
  "buildIntervalWorkItems fl = rbind (collectWorkItems (intervals fl)) (\<lambda>items. Inr (sort_key workItemKey items))"

section \<open>The scan\<close>

definition assignmentOf :: "IrLinearScanRegisterAssignment list \<Rightarrow> ActiveInterval \<Rightarrow> IrLinearScanRegisterAssignment" where
  "assignmentOf asg a = asg ! unat (assignmentIndex a)"

definition sortActiveIntervals :: "IrLinearScanRegisterAssignment list \<Rightarrow> ActiveInterval list \<Rightarrow> ActiveInterval list" where
  "sortActiveIntervals asg active =
     sort_key (\<lambda>a. (as_endPosition (assignmentOf asg a), as_virtualRegister (assignmentOf asg a))) active"

text \<open>The active interval to spill: the one that ends last, of those the one with the highest register.\<close>

definition betterCandidate :: "IrLinearScanRegisterAssignment \<Rightarrow> IrLinearScanRegisterAssignment \<Rightarrow> bool" where
  "betterCandidate candidate best \<longleftrightarrow> as_endPosition candidate > as_endPosition best
     \<or> as_endPosition candidate = as_endPosition best \<and> as_virtualRegister candidate > as_virtualRegister best"

definition pickSpillCandidate :: "ActiveInterval list \<Rightarrow> IrLinearScanRegisterAssignment list \<Rightarrow> nat option" where
  "pickSpillCandidate active asg =
     (if active = [] then None
      else Some (fold (\<lambda>index best. if betterCandidate (assignmentOf asg (active ! index)) (assignmentOf asg (active ! best)) then index else best)
                   [1..<length active] 0))"

text \<open>A search over positions stays among them.\<close>

lemma fold_index_less:
  "b < n \<Longrightarrow> \<forall>i \<in> set is. i < n \<Longrightarrow> fold (\<lambda>i b. if P i b then i else b) is b < (n :: nat)"
  by (induction "is" arbitrary: b) auto

record ScanState =
  sc_assignments :: "IrLinearScanRegisterAssignment list"
  sc_active :: "ActiveInterval list"
  freeRegisters :: "u32 list"
  nextSpillSlot :: u32

definition expired :: "IrLinearScanRegisterAssignment list \<Rightarrow> IntervalWorkItem \<Rightarrow> ActiveInterval \<Rightarrow> bool" where
  "expired asg w a \<longleftrightarrow> as_endPosition (assignmentOf asg a) < wi_startPosition w"

definition expireIntervals :: "IntervalWorkItem \<Rightarrow> ScanState \<Rightarrow> ScanState" where
  "expireIntervals w st =
     (let asg = sc_assignments st; active = sc_active st in
      st\<lparr>sc_active := sortActiveIntervals asg (filter (\<lambda>a. \<not> expired asg w a) active),
         freeRegisters := sort (freeRegisters st @ map ac_physicalRegister (filter (expired asg w) active))\<rparr>)"

definition newAssignment :: "IntervalWorkItem \<Rightarrow> IrLinearScanRegisterAssignment" where
  "newAssignment w = \<lparr>as_virtualRegister = wi_virtualRegister w, as_startPosition = wi_startPosition w,
     as_endPosition = wi_endPosition w, spilled = False, physicalRegister = 0, spillSlot = 0\<rparr>"

definition assignRegister :: "IntervalWorkItem \<Rightarrow> ScanState \<Rightarrow> ScanState" where
  "assignRegister w st =
     (let asg = sc_assignments st; reg = hd (freeRegisters st); asg' = asg @ [(newAssignment w)\<lparr>physicalRegister := reg\<rparr>] in
      st\<lparr>sc_assignments := asg', freeRegisters := tl (freeRegisters st),
         sc_active := sortActiveIntervals asg'
           (sc_active st @ [\<lparr>assignmentIndex = of_nat (length asg), ac_physicalRegister = reg\<rparr>])\<rparr>)"

definition spillNew :: "IntervalWorkItem \<Rightarrow> ScanState \<Rightarrow> ScanState" where
  "spillNew w st =
     st\<lparr>sc_assignments := sc_assignments st @ [(newAssignment w)\<lparr>spilled := True, spillSlot := nextSpillSlot st\<rparr>],
        nextSpillSlot := nextSpillSlot st + 1\<rparr>"

definition spillCandidateInstead :: "IrLinearScanRegisterAssignment \<Rightarrow> IntervalWorkItem \<Rightarrow> bool" where
  "spillCandidateInstead candidate w \<longleftrightarrow> as_endPosition candidate > wi_endPosition w
     \<or> as_endPosition candidate = wi_endPosition w \<and> as_virtualRegister candidate > wi_virtualRegister w"

text \<open>The register of the active interval \<open>c\<close> goes to the new one.\<close>

definition spillActive :: "nat \<Rightarrow> IntervalWorkItem \<Rightarrow> ScanState \<Rightarrow> ScanState" where
  "spillActive c w st =
     (let asg = sc_assignments st; cand = sc_active st ! c; i = unat (assignmentIndex cand);
          asg' = asg[i := (asg ! i)\<lparr>spilled := True, spillSlot := nextSpillSlot st\<rparr>]
                   @ [(newAssignment w)\<lparr>physicalRegister := ac_physicalRegister cand\<rparr>] in
      st\<lparr>sc_assignments := asg',
         sc_active := sortActiveIntervals asg'
           ((sc_active st)[c := \<lparr>assignmentIndex = of_nat (length asg), ac_physicalRegister = ac_physicalRegister cand\<rparr>]),
         nextSpillSlot := nextSpillSlot st + 1\<rparr>)"

definition scanInterval :: "IntervalWorkItem \<Rightarrow> ScanState \<Rightarrow> ScanState" where
  "scanInterval w st0 =
     (let st = expireIntervals w st0 in
      if freeRegisters st \<noteq> [] then assignRegister w st
      else
        (case pickSpillCandidate (sc_active st) (sc_assignments st) of
           None \<Rightarrow> spillNew w st
         | Some c \<Rightarrow>
             if spillCandidateInstead (assignmentOf (sc_assignments st) (sc_active st ! c)) w then spillActive c w st
             else spillNew w st))"

definition startScan :: "IrLinearScanAllocatorOptions \<Rightarrow> ScanState" where
  "startScan options =
     \<lparr>sc_assignments = [], sc_active = [], freeRegisters = map of_nat [0..<unat (physicalRegisterCount options)], nextSpillSlot = 0\<rparr>"

definition allocateFunctionLinearScan :: "IrVirtualRegisterFunctionLiveness \<Rightarrow> IrLinearScanAllocatorOptions
    \<Rightarrow> IrLinearScanFunctionAllocation result" where
  "allocateFunctionLinearScan fl options =
     (if spillPolicy options \<noteq> SpillFarthestEnd then Inl ''linear-scan allocator does not support spill policy''
      else
        rbind (buildIntervalWorkItems fl) (\<lambda>items.
          let st = fold scanInterval items (startScan options) in
          Inr \<lparr>fa_functionName = fl_functionName fl,
               assignments = sort_key as_virtualRegister (sc_assignments st), spillSlotCount = nextSpillSlot st\<rparr>))"

definition allocateIrVirtualRegistersLinearScan :: "IrVirtualRegisterModuleLiveness \<Rightarrow> IrLinearScanAllocatorOptions
    \<Rightarrow> IrLinearScanModuleAllocation result" where
  "allocateIrVirtualRegistersLinearScan ml options =
     rbind (mapResult (\<lambda>fl. inFunction ''linear-scan allocator'' (fl_functionName fl) (allocateFunctionLinearScan fl options)) (ml_functions ml))
       (\<lambda>fns. Inr \<lparr>ma_functions = fns\<rparr>)"

end
