(* ===== verification/VrLivenessFacts.thy ===== *)
theory VrLivenessFacts
  imports VrLiveness VrFacts
begin

text \<open>
  The data-flow iteration of the liveness pass always ends, and what it finds is liveness: a register
  is live into a block exactly when a path leads from there to an instruction that reads it before
  it is written, following the moves on the edges.
\<close>

section \<open>Sorted lists as sets\<close>

abbreviation ssorted :: "u32 list \<Rightarrow> bool" where
  "ssorted \<equiv> sorted_wrt (<)"

lemma ssorted_sortUnique [simp]: "ssorted (sortUnique xs)"
proof -
  have "sorted ys \<Longrightarrow> ssorted (remdups_adj ys)" for ys :: "u32 list"
    by (induction ys rule: remdups_adj.induct) (auto simp: less_le)
  then show ?thesis by (simp add: sortUnique_def)
qed

lemma set_sortUnique [simp]: "set (sortUnique xs) = set xs"
  by (simp add: sortUnique_def)

lemma set_sortedUnion [simp]: "set (sortedUnion xs ys) = set xs \<union> set ys"
  by (induction xs ys rule: sortedUnion.induct) auto

lemma ssorted_sortedUnion: "ssorted xs \<Longrightarrow> ssorted ys \<Longrightarrow> ssorted (sortedUnion xs ys)"
  by (induction xs ys rule: sortedUnion.induct) (auto simp: not_less_iff_gr_or_eq)

lemma sortedDifference_spec:
  "ssorted xs \<Longrightarrow> ssorted ys \<Longrightarrow> set (sortedDifference xs ys) = set xs - set ys \<and> ssorted (sortedDifference xs ys)"
proof (induction xs ys rule: sortedDifference.induct)
  case (3 x xs y ys)
  consider "x < y" | "y < x" | "x = y" by fastforce
  then show ?case
  proof cases
    case 1
    then have "x \<notin> set (y # ys)" using "3.prems" by auto
    then show ?thesis using 1 "3.IH"(1) "3.prems" by auto
  next
    case 2
    then have "y \<notin> set (x # xs)" using "3.prems" by auto
    then show ?thesis using 2 "3.IH"(2) "3.prems" by auto
  next
    case 3
    then have "x \<notin> set xs" using "3.prems" by auto
    then show ?thesis using 3 "3.IH"(3) "3.prems" by auto
  qed
qed auto

lemma ssorted_eq: "ssorted xs \<Longrightarrow> ssorted ys \<Longrightarrow> set xs = set ys \<Longrightarrow> xs = ys"
  by (rule strict_sorted_equal) auto

lemma ssorted_length: "ssorted xs \<Longrightarrow> length xs = card (set xs)"
  by (simp add: strict_sorted_iff distinct_card)

lemma ssorted_length_mono: "ssorted xs \<Longrightarrow> ssorted ys \<Longrightarrow> set xs \<subseteq> set ys \<Longrightarrow> length xs \<le> length ys"
  by (simp add: ssorted_length card_mono)

lemma ssorted_length_less: "ssorted xs \<Longrightarrow> ssorted ys \<Longrightarrow> set xs \<subseteq> set ys \<Longrightarrow> xs \<noteq> ys \<Longrightarrow> length xs < length ys"
  using ssorted_eq [of xs ys] by (auto simp: ssorted_length intro!: psubset_card_mono)

text \<open>How many registers there are at most.\<close>

definition registerLimit :: nat where
  "registerLimit = card (UNIV :: u32 set)"

lemma ssorted_length_bound: "ssorted xs \<Longrightarrow> length xs \<le> registerLimit"
  unfolding registerLimit_def ssorted_length by (rule card_mono) simp_all

section \<open>Uses and definitions of a block\<close>

text \<open>The registers read before the code writes them.\<close>

fun usedFirst :: "IrVirtualRegisterInstruction list \<Rightarrow> u32 set" where
  "usedFirst [] = {}"
| "usedFirst (vi # vis) = set (useRegisters vi) \<union> (usedFirst vis - set (defRegisters vi))"

lemma scanUses_spec: "scanUses lim defined regs uses = Inr uses' \<Longrightarrow> set uses' = set uses \<union> (set regs - set defined)"
  by (induction lim defined regs uses rule: scanUses.induct) (auto split: if_splits)

lemma scanDefs_spec: "scanDefs lim regs defined = Inr defined' \<Longrightarrow> defined' = defined @ regs"
  by (induction lim regs defined rule: scanDefs.induct) (auto split: if_splits)

lemma scanBlock_spec:
  "scanBlock lim vis uses defined = Inr (uses', defined') \<Longrightarrow> ssorted defined \<Longrightarrow>
     set uses' = set uses \<union> (usedFirst vis - set defined) \<and> set defined' = set defined \<union> set (blockDefs vis) \<and> ssorted defined'"
proof (induction lim vis uses defined rule: scanBlock.induct)
  case (2 lim vi vis uses defined)
  from "2.prems"(1) obtain u d where u: "scanUses lim defined (useRegisters vi) uses = Inr u"
    and d: "scanDefs lim (defRegisters vi) defined = Inr d" and rest: "scanBlock lim vis u (sortUnique d) = Inr (uses', defined')"
    by (auto simp: rbind_Inr_iff)
  from "2.IH" [OF rest] scanUses_spec [OF u] scanDefs_spec [OF d] show ?case by auto
qed auto

lemma blockUseDef_spec:
  assumes "blockUseDef lim b = Inr (uses, defined)"
  shows "ssorted uses" "ssorted defined"
    "blockReachable b \<Longrightarrow> set uses = usedFirst (blockInstructions b)" "blockReachable b \<Longrightarrow> set defined = set (blockDefs (blockInstructions b))"
proof -
  have "ssorted uses \<and> ssorted defined \<and> (blockReachable b \<longrightarrow> set uses = usedFirst (blockInstructions b)
      \<and> set defined = set (blockDefs (blockInstructions b)))"
  proof (cases "blockReachable b")
    case True
    then obtain u where u: "scanBlock lim (blockInstructions b) [] [] = Inr (u, defined)" "uses = sortUnique u"
      using assms by (auto simp: blockUseDef_def rbind_Inr_iff)
    then show ?thesis using scanBlock_spec [OF u(1)] by simp
  next
    case False
    then show ?thesis using assms by (auto simp: blockUseDef_def)
  qed
  then show "ssorted uses" "ssorted defined"
    "blockReachable b \<Longrightarrow> set uses = usedFirst (blockInstructions b)" "blockReachable b \<Longrightarrow> set defined = set (blockDefs (blockInstructions b))"
    by blast+
qed

text \<open>The sets the iteration works with.\<close>

definition useDefOf :: "IrVirtualRegisterFunction \<Rightarrow> (u32 list \<times> u32 list) list \<Rightarrow> bool" where
  "useDefOf v useDef \<longleftrightarrow> length useDef = length (vf_blocks v)
     \<and> (\<forall>k < length (vf_blocks v). ssorted (fst (useDef ! k)) \<and> ssorted (snd (useDef ! k))
          \<and> (blockReachable (vf_blocks v ! k) \<longrightarrow> set (fst (useDef ! k)) = usedFirst (blockInstructions (vf_blocks v ! k))
               \<and> set (snd (useDef ! k)) = set (blockDefs (blockInstructions (vf_blocks v ! k)))))"

lemma buildBlockUseDef_spec: "buildBlockUseDef v = Inr useDef \<Longrightarrow> useDefOf v useDef"
proof -
  assume "buildBlockUseDef v = Inr useDef"
  then have all: "list_all2 (\<lambda>b ud. blockUseDef (nextVirtualRegister v) b = Inr ud) (vf_blocks v) useDef"
    by (simp add: buildBlockUseDef_def mapResult_Inr)
  have "ssorted (fst (useDef ! k)) \<and> ssorted (snd (useDef ! k))
          \<and> (blockReachable (vf_blocks v ! k) \<longrightarrow> set (fst (useDef ! k)) = usedFirst (blockInstructions (vf_blocks v ! k))
               \<and> set (snd (useDef ! k)) = set (blockDefs (blockInstructions (vf_blocks v ! k))))" if "k < length (vf_blocks v)" for k
    using blockUseDef_spec [of "nextVirtualRegister v" "vf_blocks v ! k" "fst (useDef ! k)" "snd (useDef ! k)"]
      list_all2_nthD [OF all that] by simp
  then show ?thesis using list_all2_lengthD [OF all] by (simp add: useDefOf_def)
qed

section \<open>The equations\<close>

text \<open>What block \<open>k\<close> passes on, given the registers live into the blocks.\<close>

definition outEquation :: "IrVirtualRegisterFunction \<Rightarrow> IrVirtualRegisterBlockLiveness list \<Rightarrow> nat \<Rightarrow> u32 set" where
  "outEquation v lv k =
     (\<Union>e \<in> set (successorEdges (vf_blocks v ! k)). mapThroughEdge e ` set (liveInRegisters (lv ! successorBlockIndex e)))"

definition inEquation :: "IrVirtualRegisterFunction \<Rightarrow> u32 set \<Rightarrow> nat \<Rightarrow> u32 set" where
  "inEquation v out k =
     usedFirst (blockInstructions (vf_blocks v ! k)) \<union> (out - set (blockDefs (blockInstructions (vf_blocks v ! k))))"

definition edgesInRange :: "IrVirtualRegisterFunction \<Rightarrow> nat \<Rightarrow> bool" where
  "edgesInRange v k \<longleftrightarrow> (blockReachable (vf_blocks v ! k) \<longrightarrow>
     (\<forall>e \<in> set (successorEdges (vf_blocks v ! k)). successorBlockIndex e < length (vf_blocks v)))"

text \<open>A state of the iteration: sorted, empty at unreachable blocks, and no larger than the equations allow.\<close>

definition ascending :: "IrVirtualRegisterFunction \<Rightarrow> IrVirtualRegisterBlockLiveness list \<Rightarrow> bool" where
  "ascending v lv \<longleftrightarrow> length lv = length (vf_blocks v)
     \<and> (\<forall>k < length lv. ssorted (liveInRegisters (lv ! k)) \<and> ssorted (liveOutRegisters (lv ! k))
          \<and> (if blockReachable (vf_blocks v ! k)
             then set (liveOutRegisters (lv ! k)) \<subseteq> outEquation v lv k \<and> set (liveInRegisters (lv ! k)) \<subseteq> inEquation v (outEquation v lv k) k
             else liveInRegisters (lv ! k) = [] \<and> liveOutRegisters (lv ! k) = []))"

definition solvedAt :: "IrVirtualRegisterFunction \<Rightarrow> IrVirtualRegisterBlockLiveness list \<Rightarrow> nat \<Rightarrow> bool" where
  "solvedAt v lv k \<longleftrightarrow> (blockReachable (vf_blocks v ! k) \<longrightarrow>
     set (liveOutRegisters (lv ! k)) = outEquation v lv k \<and> set (liveInRegisters (lv ! k)) = inEquation v (set (liveOutRegisters (lv ! k))) k)"

definition weight :: "IrVirtualRegisterBlockLiveness list \<Rightarrow> nat" where
  "weight lv = sum_list (map (\<lambda>b. length (liveInRegisters b) + length (liveOutRegisters b)) lv)"

lemma liveOutOf_fails:
  "liveOutOf lv edges out = Inl e \<Longrightarrow> \<exists>edge \<in> set edges. successorBlockIndex edge \<ge> length lv"
  by (induction lv edges out rule: liveOutOf.induct) (auto split: if_splits)

lemma liveOutOf_bad: "edge \<in> set edges \<Longrightarrow> successorBlockIndex edge \<ge> length lv \<Longrightarrow> \<exists>e. liveOutOf lv edges out = Inl e"
  by (induction lv edges out rule: liveOutOf.induct) auto

lemma liveOutOf_spec:
  "liveOutOf lv edges out = Inr out' \<Longrightarrow> ssorted out \<Longrightarrow>
     ssorted out' \<and> set out' = set out \<union> (\<Union>e \<in> set edges. mapThroughEdge e ` set (liveInRegisters (lv ! successorBlockIndex e)))"
  by (induction lv edges out rule: liveOutOf.induct)
    (auto simp: ssorted_sortedUnion mapSuccessorLiveInThroughEdge_def split: if_splits)

lemma outEquation_mono:
  assumes "\<And>j. j < length (vf_blocks v) \<Longrightarrow> set (liveInRegisters (lv ! j)) \<subseteq> set (liveInRegisters (lv' ! j))"
    and "edgesInRange v k" "blockReachable (vf_blocks v ! k)"
  shows "outEquation v lv k \<subseteq> outEquation v lv' k"
  using assms unfolding outEquation_def edgesInRange_def by (intro UN_mono image_mono) auto

lemma inEquation_mono: "A \<subseteq> B \<Longrightarrow> inEquation v A k \<subseteq> inEquation v B k"
  by (auto simp: inEquation_def)

text \<open>A state that is nowhere smaller.\<close>

definition grows :: "IrVirtualRegisterBlockLiveness list \<Rightarrow> IrVirtualRegisterBlockLiveness list \<Rightarrow> bool" where
  "grows lv lv' \<longleftrightarrow> length lv' = length lv
     \<and> (\<forall>k < length lv. set (liveInRegisters (lv ! k)) \<subseteq> set (liveInRegisters (lv' ! k)) \<and> set (liveOutRegisters (lv ! k)) \<subseteq> set (liveOutRegisters (lv' ! k)))"

lemma ascending_update:
  assumes asc: "ascending v lv" and range: "\<forall>k < length (vf_blocks v). edgesInRange v k" and k: "k < length (vf_blocks v)"
    and reach: "blockReachable (vf_blocks v ! k)"
    and out: "ssorted out" "set out = outEquation v lv k" and new: "ssorted new" "set new = inEquation v (set out) k"
  shows "ascending v (lv[k := \<lparr>liveInRegisters = new, liveOutRegisters = out\<rparr>])"
    "grows lv (lv[k := \<lparr>liveInRegisters = new, liveOutRegisters = out\<rparr>])"
proof -
  let ?lv = "lv[k := \<lparr>liveInRegisters = new, liveOutRegisters = out\<rparr>]"
  have len: "length lv = length (vf_blocks v)" using asc by (simp add: ascending_def)
  have old: "set (liveOutRegisters (lv ! k)) \<subseteq> set out" "set (liveInRegisters (lv ! k)) \<subseteq> set new"
    using asc k reach out(2) new(2) len by (auto simp: ascending_def)
  show g: "grows lv ?lv" using old k len by (auto simp: grows_def nth_list_update)
  have eqs: "outEquation v lv j \<subseteq> outEquation v ?lv j" if "j < length lv" "blockReachable (vf_blocks v ! j)" for j
    using outEquation_mono [of v lv ?lv j] g range that len by (auto simp: grows_def)
  show "ascending v ?lv"
    unfolding ascending_def
  proof (intro conjI allI impI)
    show "length ?lv = length (vf_blocks v)" using len by simp
    fix j assume "j < length ?lv"
    then have j: "j < length lv" by simp
    have aj: "ssorted (liveInRegisters (lv ! j))" "ssorted (liveOutRegisters (lv ! j))" using asc j by (auto simp: ascending_def)
    show "ssorted (liveInRegisters (?lv ! j))" "ssorted (liveOutRegisters (?lv ! j))"
      using aj out(1) new(1) k len by (simp_all add: nth_list_update)
    show "if blockReachable (vf_blocks v ! j)
      then set (liveOutRegisters (?lv ! j)) \<subseteq> outEquation v ?lv j \<and> set (liveInRegisters (?lv ! j)) \<subseteq> inEquation v (outEquation v ?lv j) j
      else liveInRegisters (?lv ! j) = [] \<and> liveOutRegisters (?lv ! j) = []"
    proof (cases "blockReachable (vf_blocks v ! j)")
      case True
      note mono = eqs [OF j True]
      have "set (liveOutRegisters (?lv ! j)) \<subseteq> outEquation v lv j \<and> set (liveInRegisters (?lv ! j)) \<subseteq> inEquation v (outEquation v lv j) j"
        using asc j True out(2) new(2) by (cases "j = k") (auto simp: ascending_def nth_list_update)
      then show ?thesis using mono inEquation_mono [OF mono, of v j] True by auto
    next
      case False
      then show ?thesis using asc j reach by (cases "j = k") (auto simp: ascending_def)
    qed
  qed
qed

lemma weight_update:
  assumes "ascending v lv" "ascending v (lv[k := new])" "grows lv (lv[k := new])" "k < length lv" "lv ! k \<noteq> new"
  shows "weight lv < weight (lv[k := new])"
proof -
  have sorted: "ssorted (liveInRegisters (lv ! k))" "ssorted (liveOutRegisters (lv ! k))" "ssorted (liveInRegisters new)" "ssorted (liveOutRegisters new)"
    using assms(1,2,4) unfolding ascending_def by (auto dest!: spec [of _ k])
  have sub: "set (liveInRegisters (lv ! k)) \<subseteq> set (liveInRegisters new)" "set (liveOutRegisters (lv ! k)) \<subseteq> set (liveOutRegisters new)"
    using assms(3,4) unfolding grows_def by (metis nth_list_update_eq)+
  have "liveInRegisters (lv ! k) \<noteq> liveInRegisters new \<or> liveOutRegisters (lv ! k) \<noteq> liveOutRegisters new" using assms(5) by auto
  then have "length (liveInRegisters (lv ! k)) + length (liveOutRegisters (lv ! k)) < length (liveInRegisters new) + length (liveOutRegisters new)"
    using ssorted_length_mono [OF sorted(1,3) sub(1)] ssorted_length_mono [OF sorted(2,4) sub(2)]
      ssorted_length_less [OF sorted(1,3) sub(1)] ssorted_length_less [OF sorted(2,4) sub(2)] by linarith
  moreover have "length (liveInRegisters (lv ! k)) + length (liveOutRegisters (lv ! k)) \<le> weight lv"
    unfolding weight_def using assms(4) by (intro member_le_sum_list) auto
  ultimately show ?thesis unfolding weight_def map_update using assms(4) by (subst sum_list_update) auto
qed

lemma sum_list_bound: "(\<And>b. b \<in> set xs \<Longrightarrow> g b \<le> c) \<Longrightarrow> sum_list (map g xs) \<le> length xs * (c :: nat)"
  by (induction xs) (auto intro: add_mono)

lemma ascending_weight:
  assumes "ascending v lv"
  shows "weight lv \<le> length (vf_blocks v) * (2 * registerLimit)"
proof -
  have "length lv = length (vf_blocks v)" using assms unfolding ascending_def by blast
  moreover have "length (liveInRegisters b) + length (liveOutRegisters b) \<le> 2 * registerLimit" if b: "b \<in> set lv" for b
  proof -
    obtain k where k: "k < length lv" "b = lv ! k" using b by (metis in_set_conv_nth)
    then have "ssorted (liveInRegisters (lv ! k))" "ssorted (liveOutRegisters (lv ! k))" using assms unfolding ascending_def by blast+
    then have "length (liveInRegisters b) \<le> registerLimit" "length (liveOutRegisters b) \<le> registerLimit"
      unfolding k(2) by (simp_all only: ssorted_length_bound)
    then show ?thesis by linarith
  qed
  ultimately show ?thesis
    using sum_list_bound [of lv "\<lambda>b. length (liveInRegisters b) + length (liveOutRegisters b)" "2 * registerLimit"] unfolding weight_def by metis
qed

section \<open>Passes\<close>

text \<open>One update: the state stays ascending; it grows, or the equations of the block hold.\<close>

definition goodStep :: "IrVirtualRegisterFunction \<Rightarrow> (nat \<Rightarrow> bool) \<Rightarrow> IrVirtualRegisterBlockLiveness list
    \<Rightarrow> IrVirtualRegisterBlockLiveness list \<Rightarrow> bool \<Rightarrow> bool" where
  "goodStep v P lv lv' c \<longleftrightarrow> ascending v lv' \<and> (if c then weight lv < weight lv' else lv' = lv \<and> (\<forall>k. P k \<longrightarrow> solvedAt v lv k))"

lemma livenessUpdate_spec:
  assumes ud: "useDefOf v useDef" and asc: "ascending v lv" and range: "\<forall>k < length (vf_blocks v). edgesInRange v k" and k: "k < length (vf_blocks v)"
  shows "\<exists>lv' c. livenessUpdate v useDef k lv = Inr (lv', c) \<and> goodStep v (\<lambda>j. j = k) lv lv' c"
proof (cases "blockReachable (vf_blocks v ! k)")
  case False
  then have "livenessUpdate v useDef k lv = Inr (lv, False)" by (simp add: livenessUpdate_def Let_def)
  moreover have "goodStep v (\<lambda>j. j = k) lv lv False" using asc False by (simp add: goodStep_def solvedAt_def)
  ultimately show ?thesis by blast
next
  case True
  have len: "length lv = length (vf_blocks v)" using asc by (simp add: ascending_def)
  have "\<not> (\<exists>edge \<in> set (successorEdges (vf_blocks v ! k)). successorBlockIndex edge \<ge> length lv)"
    using range k True len by (auto simp: edgesInRange_def not_le)
  then obtain out where out: "liveOutOf lv (successorEdges (vf_blocks v ! k)) [] = Inr out"
    using liveOutOf_fails by (metis old.sum.exhaust)
  let ?new = "sortedUnion (fst (useDef ! k)) (sortedDifference out (snd (useDef ! k)))"
  have o1: "ssorted out" "set out = outEquation v lv k" using liveOutOf_spec [OF out] by (auto simp: outEquation_def)
  have ud': "ssorted (fst (useDef ! k))" "ssorted (snd (useDef ! k))" "set (fst (useDef ! k)) = usedFirst (blockInstructions (vf_blocks v ! k))"
    "set (snd (useDef ! k)) = set (blockDefs (blockInstructions (vf_blocks v ! k)))" using ud k True by (auto simp: useDefOf_def)
  have n1: "ssorted ?new" "set ?new = inEquation v (set out) k"
    using sortedDifference_spec [OF o1(1) ud'(2)] ud' by (auto simp: ssorted_sortedUnion inEquation_def)
  let ?lv = "lv[k := \<lparr>liveInRegisters = ?new, liveOutRegisters = out\<rparr>]"
  note step = ascending_update [OF asc range k True o1 n1]
  show ?thesis
  proof (cases "out \<noteq> liveOutRegisters (lv ! k) \<or> ?new \<noteq> liveInRegisters (lv ! k)")
    case changed: True
    then have "lv ! k \<noteq> \<lparr>liveInRegisters = ?new, liveOutRegisters = out\<rparr>" by auto
    then have "weight lv < weight ?lv" using weight_update [OF asc step] k len by simp
    then have "goodStep v (\<lambda>j. j = k) lv ?lv True" using step(1) by (simp add: goodStep_def)
    moreover have "livenessUpdate v useDef k lv = Inr (?lv, True)" using changed True out by (simp add: livenessUpdate_def Let_def)
    ultimately show ?thesis by blast
  next
    case same: False
    then have "solvedAt v lv k" using o1 n1 by (auto simp: solvedAt_def)
    then have "goodStep v (\<lambda>j. j = k) lv lv False" using asc by (simp add: goodStep_def)
    moreover have "livenessUpdate v useDef k lv = Inr (lv, False)" using same True out by (simp add: livenessUpdate_def Let_def)
    ultimately show ?thesis by blast
  qed
qed

lemma goodStep_trans:
  assumes "goodStep v P lv lv1 c" "goodStep v Q lv1 lv2 d"
  shows "goodStep v (\<lambda>k. P k \<or> Q k) lv lv2 (c \<or> d)"
  using assms by (cases c; cases d) (auto simp: goodStep_def)

lemma livenessPass_spec:
  assumes ud: "useDefOf v useDef" and range: "\<forall>k < length (vf_blocks v). edgesInRange v k"
  shows "n \<le> length (vf_blocks v) \<Longrightarrow> ascending v lv \<Longrightarrow>
     \<exists>lv' d. livenessPass v useDef n lv changed = Inr (lv', changed \<or> d) \<and> goodStep v (\<lambda>k. k < n) lv lv' d"
proof (induction n arbitrary: lv changed)
  case 0
  then show ?case by (intro exI [of _ lv] exI [of _ False]) (simp add: goodStep_def)
next
  case (Suc n)
  obtain lv1 c where one: "livenessUpdate v useDef n lv = Inr (lv1, c)" "goodStep v (\<lambda>j. j = n) lv lv1 c"
    using livenessUpdate_spec [OF ud Suc.prems(2) range, of n] Suc.prems(1) by auto
  then have "ascending v lv1" by (simp add: goodStep_def)
  then obtain lv2 d where two: "livenessPass v useDef n lv1 (changed \<or> c) = Inr (lv2, (changed \<or> c) \<or> d)" "goodStep v (\<lambda>k. k < n) lv1 lv2 d"
    using Suc.IH [of lv1 "changed \<or> c"] Suc.prems(1) by auto
  have "(\<lambda>k. k = n \<or> k < n) = (\<lambda>k. k < Suc n)" by auto
  then have "goodStep v (\<lambda>k. k < Suc n) lv lv2 (c \<or> d)" using goodStep_trans [OF one(2) two(2)] by simp
  then show ?case using one(1) two(1) by (intro exI [of _ lv2] exI [of _ "c \<or> d"]) (simp add: disj_assoc)
qed

lemma livenessPass_bad:
  assumes "\<not> edgesInRange v j" "j < n" "length lv = length (vf_blocks v)"
  shows "\<exists>e. livenessPass v useDef n lv changed = Inl e"
  using assms(2,3)
proof (induction n arbitrary: lv changed)
  case (Suc n)
  show ?case
  proof (cases "livenessUpdate v useDef n lv")
    case (Inr r)
    have "j \<noteq> n"
    proof
      assume "j = n"
      obtain edge where "blockReachable (vf_blocks v ! n)" "edge \<in> set (successorEdges (vf_blocks v ! n))" "successorBlockIndex edge \<ge> length lv"
        using assms(1) Suc.prems(2) \<open>j = n\<close> by (auto simp: edgesInRange_def not_less)
      then show False using Inr liveOutOf_bad [of edge "successorEdges (vf_blocks v ! n)" lv "[]"]
        by (auto simp: livenessUpdate_def Let_def)
    qed
    moreover have "length (fst r) = length (vf_blocks v)"
      using Inr Suc.prems(2) by (auto simp: livenessUpdate_def Let_def rbind_Inr_iff split: if_splits)
    ultimately show ?thesis using Suc.IH [of "fst r"] Suc.prems(1) Inr by (cases r) auto
  qed auto
qed simp

section \<open>The whole iteration\<close>

abbreviation noLiveness :: "IrVirtualRegisterFunction \<Rightarrow> IrVirtualRegisterBlockLiveness list" where
  "noLiveness v \<equiv> replicate (length (vf_blocks v)) \<lparr>liveInRegisters = [], liveOutRegisters = []\<rparr>"

lemma ascending_start: "ascending v (noLiveness v)"
  by (simp add: ascending_def)

lemma livenessLoop_terminates:
  assumes ud: "useDefOf v useDef" and range: "\<forall>k < length (vf_blocks v). edgesInRange v k"
  shows "ascending v lv \<Longrightarrow> \<exists>lv'. livenessLoop v useDef lv = Some (Inr lv') \<and> ascending v lv' \<and> (\<forall>k < length (vf_blocks v). solvedAt v lv' k)"
proof (induction "length (vf_blocks v) * (2 * registerLimit) - weight lv" arbitrary: lv rule: less_induct)
  case less
  obtain lv1 d where pass: "livenessPass v useDef (length (vf_blocks v)) lv False = Inr (lv1, d)" "goodStep v (\<lambda>k. k < length (vf_blocks v)) lv lv1 d"
    using livenessPass_spec [OF ud range order.refl less.prems, of False] by auto
  show ?case
  proof (cases d)
    case True
    then have more': "weight lv < weight lv1" "ascending v lv1" using pass(2) by (simp_all add: goodStep_def)
    then have "\<exists>lv'. livenessLoop v useDef lv1 = Some (Inr lv') \<and> ascending v lv' \<and> (\<forall>k < length (vf_blocks v). solvedAt v lv' k)"
      using less.hyps [of lv1] ascending_weight [OF more'(2)] by simp
    then show ?thesis using True pass(1) by (subst livenessLoop.simps) simp
  next
    case False
    then have "lv1 = lv" "\<forall>k < length (vf_blocks v). solvedAt v lv k" using pass(2) by (simp_all add: goodStep_def)
    then show ?thesis using False pass(1) less.prems by (subst livenessLoop.simps) simp
  qed
qed

text \<open>
  C37: The liveness iteration ends for every function: the loop that runs until no block changes
  returns, with the liveness of the blocks or with an error message, even when the edges or registers
  of the function are out of range.
\<close>

theorem liveness_terminates: "\<exists>r. computeBlockLiveness v = Some r"
proof (cases "buildBlockUseDef v")
  case (Inr useDef)
  note ud = buildBlockUseDef_spec [OF Inr]
  show ?thesis
  proof (cases "\<forall>k < length (vf_blocks v). edgesInRange v k")
    case True
    then show ?thesis using livenessLoop_terminates [OF ud True ascending_start] Inr by (auto simp: computeBlockLiveness_def)
  next
    case False
    then obtain j where "j < length (vf_blocks v)" "\<not> edgesInRange v j" by blast
    then obtain e where "livenessPass v useDef (length (vf_blocks v)) (noLiveness v) False = Inl e"
      using livenessPass_bad [of v j "length (vf_blocks v)" "noLiveness v" useDef False] by auto
    then show ?thesis using Inr by (simp add: computeBlockLiveness_def livenessLoop.simps [of v useDef "noLiveness v"])
  qed
qed (simp add: computeBlockLiveness_def)

section \<open>Liveness\<close>

text \<open>
  \<open>liveInto v k r\<close>: from the start of block \<open>k\<close> a path leads to a read of the value register \<open>r\<close> holds there.
\<close>

inductive liveInto :: "IrVirtualRegisterFunction \<Rightarrow> nat \<Rightarrow> u32 \<Rightarrow> bool" for v where
  here: "k < length (vf_blocks v) \<Longrightarrow> blockReachable (vf_blocks v ! k) \<Longrightarrow> r \<in> usedFirst (blockInstructions (vf_blocks v ! k)) \<Longrightarrow> liveInto v k r"
| through: "k < length (vf_blocks v) \<Longrightarrow> blockReachable (vf_blocks v ! k) \<Longrightarrow> e \<in> set (successorEdges (vf_blocks v ! k)) \<Longrightarrow>
     liveInto v (successorBlockIndex e) r \<Longrightarrow> mapThroughEdge e r \<notin> set (blockDefs (blockInstructions (vf_blocks v ! k))) \<Longrightarrow>
     liveInto v k (mapThroughEdge e r)"

inductive_simps liveInto_iff: "liveInto v k r"

text \<open>The iteration never has a register live that is not.\<close>

definition soundLiveness :: "IrVirtualRegisterFunction \<Rightarrow> IrVirtualRegisterBlockLiveness list \<Rightarrow> bool" where
  "soundLiveness v lv \<longleftrightarrow> (\<forall>k < length lv. \<forall>r \<in> set (liveInRegisters (lv ! k)). liveInto v k r)"

lemma livenessUpdate_sound:
  assumes ud: "useDefOf v useDef" and len: "length lv = length (vf_blocks v)" and sound: "soundLiveness v lv" and k: "k < length (vf_blocks v)"
    and upd: "livenessUpdate v useDef k lv = Inr (lv', c)"
  shows "soundLiveness v lv' \<and> length lv' = length lv"
proof (cases "lv' = lv")
  case False
  then have reach: "blockReachable (vf_blocks v ! k)" using upd by (auto simp: livenessUpdate_def Let_def split: if_splits)
  then obtain out where out: "liveOutOf lv (successorEdges (vf_blocks v ! k)) [] = Inr out"
    and lv': "lv' = lv[k := \<lparr>liveInRegisters = sortedUnion (fst (useDef ! k)) (sortedDifference out (snd (useDef ! k))), liveOutRegisters = out\<rparr>]"
    using upd False by (auto simp: livenessUpdate_def Let_def rbind_Inr_iff split: if_splits)
  have ud': "ssorted (snd (useDef ! k))" "set (fst (useDef ! k)) = usedFirst (blockInstructions (vf_blocks v ! k))"
    "set (snd (useDef ! k)) = set (blockDefs (blockInstructions (vf_blocks v ! k)))" using ud k reach by (auto simp: useDefOf_def)
  have range: "successorBlockIndex e < length lv" if "e \<in> set (successorEdges (vf_blocks v ! k))" for e
    using liveOutOf_bad [OF that, of lv "[]"] out by (auto simp: not_less [symmetric])
  have "liveInto v k r" if r: "r \<in> set (sortedUnion (fst (useDef ! k)) (sortedDifference out (snd (useDef ! k))))" for r
  proof -
    have o1: "ssorted out" "set out = outEquation v lv k" using liveOutOf_spec [OF out] by (auto simp: outEquation_def)
    consider "r \<in> usedFirst (blockInstructions (vf_blocks v ! k))"
      | "r \<in> outEquation v lv k" "r \<notin> set (blockDefs (blockInstructions (vf_blocks v ! k)))"
      using r sortedDifference_spec [OF o1(1) ud'(1)] ud' o1 by auto
    then show ?thesis
    proof cases
      case 1
      then show ?thesis using k reach by (intro liveInto.here)
    next
      case 2
      then obtain e r' where "e \<in> set (successorEdges (vf_blocks v ! k))" "r' \<in> set (liveInRegisters (lv ! successorBlockIndex e))" "r = mapThroughEdge e r'"
        by (auto simp: outEquation_def)
      then show ?thesis using 2 k reach sound range by (auto simp: soundLiveness_def intro!: liveInto.through)
    qed
  qed
  then show ?thesis using sound k len unfolding lv' soundLiveness_def by (auto simp: nth_list_update)
qed (use sound in simp)

lemma livenessPass_sound:
  assumes ud: "useDefOf v useDef"
  shows "n \<le> length (vf_blocks v) \<Longrightarrow> soundLiveness v lv \<Longrightarrow> length lv = length (vf_blocks v) \<Longrightarrow>
     livenessPass v useDef n lv changed = Inr (lv', c) \<Longrightarrow> soundLiveness v lv' \<and> length lv' = length lv"
proof (induction n arbitrary: lv changed)
  case (Suc n)
  from Suc.prems(4) obtain lv1 d where one: "livenessUpdate v useDef n lv = Inr (lv1, d)"
    and rest: "livenessPass v useDef n lv1 (changed \<or> d) = Inr (lv', c)" by (auto simp: rbind_Inr_iff)
  have "soundLiveness v lv1 \<and> length lv1 = length lv" using livenessUpdate_sound [OF ud Suc.prems(3,2) _ one] Suc.prems(1) by simp
  then show ?case using Suc.IH [OF _ _ _ rest] Suc.prems(1,3) by simp
qed simp

lemma livenessLoop_sound:
  assumes ud: "useDefOf v useDef" and run: "livenessLoop v useDef lv = Some r"
  shows "soundLiveness v lv \<longrightarrow> length lv = length (vf_blocks v) \<longrightarrow> r = Inr lv' \<longrightarrow> soundLiveness v lv'"
proof -
  have "useDefOf v useDef \<longrightarrow> soundLiveness v lv \<longrightarrow> length lv = length (vf_blocks v) \<longrightarrow> (\<forall>lv'. r = Inr lv' \<longrightarrow> soundLiveness v lv')"
  proof (rule livenessLoop.raw_induct [where P = "\<lambda>v useDef lv r. useDefOf v useDef \<longrightarrow> soundLiveness v lv \<longrightarrow>
      length lv = length (vf_blocks v) \<longrightarrow> (\<forall>lv'. r = Inr lv' \<longrightarrow> soundLiveness v lv')", OF _ run], intro impI allI)
    fix loop v useDef lv r lv'
    assume IH: "\<And>v useDef lv r. loop v useDef lv = Some r \<Longrightarrow> useDefOf v useDef \<longrightarrow> soundLiveness v lv \<longrightarrow>
        length lv = length (vf_blocks v) \<longrightarrow> (\<forall>lv'. r = Inr lv' \<longrightarrow> soundLiveness v lv')"
      and eq: "(case livenessPass v useDef (length (vf_blocks v)) lv False of Inl e \<Rightarrow> Some (Inl e)
        | Inr (lv', changed) \<Rightarrow> if changed then loop v useDef lv' else Some (Inr lv')) = Some r"
      and A: "useDefOf v useDef" "soundLiveness v lv" "length lv = length (vf_blocks v)" "r = Inr lv'"
    obtain lv1 c where pass: "livenessPass v useDef (length (vf_blocks v)) lv False = Inr (lv1, c)"
      using eq A(4) by (auto split: sum.splits)
    note one = livenessPass_sound [OF A(1) order.refl A(2,3) pass]
    show "soundLiveness v lv'"
    proof (cases c)
      case True
      then show ?thesis using eq pass IH [of v useDef lv1 r] one A by simp
    next
      case False
      then show ?thesis using eq pass one A(4) by simp
    qed
  qed
  then show ?thesis using ud by blast
qed

lemma computeBlockLiveness_exact:
  assumes "computeBlockLiveness v = Some (Inr lv)"
  shows "length lv = length (vf_blocks v) \<and> (\<forall>k < length lv. \<forall>r.
      (r \<in> set (liveInRegisters (lv ! k)) \<longleftrightarrow> liveInto v k r)
      \<and> (r \<in> set (liveOutRegisters (lv ! k)) \<longleftrightarrow> blockReachable (vf_blocks v ! k)
           \<and> (\<exists>e \<in> set (successorEdges (vf_blocks v ! k)). \<exists>r'. liveInto v (successorBlockIndex e) r' \<and> r = mapThroughEdge e r')))"
proof -
  obtain useDef where b: "buildBlockUseDef v = Inr useDef" and loop: "livenessLoop v useDef (noLiveness v) = Some (Inr lv)"
    using assms by (auto simp: computeBlockLiveness_def split: sum.splits)
  note ud = buildBlockUseDef_spec [OF b]
  have range: "\<forall>k < length (vf_blocks v). edgesInRange v k"
  proof (rule ccontr)
    assume "\<not> ?thesis"
    then obtain j where "j < length (vf_blocks v)" "\<not> edgesInRange v j" by blast
    then obtain e where "livenessPass v useDef (length (vf_blocks v)) (noLiveness v) False = Inl e"
      using livenessPass_bad [of v j "length (vf_blocks v)" "noLiveness v" useDef False] by auto
    then show False using loop by (simp add: livenessLoop.simps [of v useDef "noLiveness v"])
  qed
  have asc: "ascending v lv" and solved: "\<forall>k < length (vf_blocks v). solvedAt v lv k"
    using livenessLoop_terminates [OF ud range ascending_start] loop by auto
  have len: "length lv = length (vf_blocks v)" using asc by (simp add: ascending_def)
  have ins: "set (liveInRegisters (lv ! k)) = inEquation v (outEquation v lv k) k" and outs: "set (liveOutRegisters (lv ! k)) = outEquation v lv k"
    if "k < length (vf_blocks v)" "blockReachable (vf_blocks v ! k)" for k
    using solved that unfolding solvedAt_def by simp_all
  have "soundLiveness v lv" using livenessLoop_sound [OF ud loop, of lv] by (simp add: soundLiveness_def)
  then have sound: "liveInto v k r" if "k < length lv" "r \<in> set (liveInRegisters (lv ! k))" for k r using that by (auto simp: soundLiveness_def)
  have complete: "liveInto v k r \<Longrightarrow> k < length lv \<and> r \<in> set (liveInRegisters (lv ! k))" for k r
  proof (induction rule: liveInto.induct)
    case (here k r)
    then show ?case unfolding ins [OF here(1,2)] len by (simp add: inEquation_def)
  next
    case (through k e r)
    have "mapThroughEdge e r \<in> outEquation v lv k" using through.hyps(3) through.IH by (auto simp: outEquation_def)
    then show ?case unfolding ins [OF through.hyps(1,2)] len using through.hyps(1,5) by (simp add: inEquation_def)
  qed
  have "r \<in> set (liveOutRegisters (lv ! k)) \<longleftrightarrow> blockReachable (vf_blocks v ! k)
           \<and> (\<exists>e \<in> set (successorEdges (vf_blocks v ! k)). \<exists>r'. liveInto v (successorBlockIndex e) r' \<and> r = mapThroughEdge e r')"
    if k: "k < length lv" for k r
  proof (cases "blockReachable (vf_blocks v ! k)")
    case True
    then have out: "set (liveOutRegisters (lv ! k)) = outEquation v lv k" using outs k len by simp
    have "successorBlockIndex e < length lv" if "e \<in> set (successorEdges (vf_blocks v ! k))" for e
      using range k len True that by (auto simp: edgesInRange_def)
    then have "r \<in> outEquation v lv k \<longleftrightarrow>
        (\<exists>e \<in> set (successorEdges (vf_blocks v ! k)). \<exists>r'. liveInto v (successorBlockIndex e) r' \<and> r = mapThroughEdge e r')"
      unfolding outEquation_def UN_iff image_iff using sound complete by metis
    then show ?thesis using True out by simp
  next
    case False
    then have "liveOutRegisters (lv ! k) = []" using asc k unfolding ascending_def by auto
    then show ?thesis using False by simp
  qed
  then show ?thesis using len sound complete by blast
qed

text \<open>
  C36: The liveness pass computes liveness exactly. When it succeeds, a register is listed as live into
  a block if and only if some path from the start of the block leads to an instruction that reads the
  value before it is overwritten, following the register moves of the edges; and it is listed as live
  out of a reachable block if and only if it supplies such a register of a successor.
\<close>

theorem liveness_exact:
  assumes "computeBlockLiveness v = Some (Inr lv)"
  shows "length lv = length (vf_blocks v) \<and> (\<forall>k < length lv. \<forall>r.
      (r \<in> set (liveInRegisters (lv ! k)) \<longleftrightarrow> liveInto v k r)
      \<and> (r \<in> set (liveOutRegisters (lv ! k)) \<longleftrightarrow> blockReachable (vf_blocks v ! k)
           \<and> (\<exists>e \<in> set (successorEdges (vf_blocks v ! k)). \<exists>r'. liveInto v (successorBlockIndex e) r' \<and> r = mapThroughEdge e r')))"
  using assms by (rule computeBlockLiveness_exact)

declare livenessLoop.simps [code]

definition countdownLiveness :: "IrVirtualRegisterBlockLiveness list" where
  "countdownLiveness = projr (the (computeBlockLiveness countdownLowered))"

lemma countdownLiveness_computed:
  "computeBlockLiveness countdownLowered = Some (Inr countdownLiveness)"
  "map liveInRegisters countdownLiveness = [[], [0], [1], [2], []]"
  by code_simp+

theorem liveness_exact_witness:
  "liveInto countdownLowered 1 0 \<and> \<not> liveInto countdownLowered 1 2 \<and> liveInto countdownLowered 3 2"
proof -
  have "length (map liveInRegisters countdownLiveness) = 5" unfolding countdownLiveness_computed(2) by simp
  then have len: "length countdownLiveness = 5" by simp
  have ins: "liveInRegisters (countdownLiveness ! k) = [[], [0], [1], [2], []] ! k" if "k < 5" for k
    using that len countdownLiveness_computed(2) by (metis nth_map)
  have "liveInto countdownLowered k r \<longleftrightarrow> r \<in> set (liveInRegisters (countdownLiveness ! k))" if "k < 5" for k r
    using liveness_exact [OF countdownLiveness_computed(1)] that len by simp
  then show ?thesis using ins [of 1] ins [of 3] by simp
qed

end
