(* ===== verification/VrIntervals.thy ===== *)
theory VrIntervals
  imports VrLivenessFacts
begin

text \<open>
  The live intervals cover what they must: the interval of a register reaches every position where a
  reachable block has the register live in or out, reads it or defines it, and each register has at most
  one interval.
\<close>

section \<open>Positions of a register\<close>

text \<open>The positions the pass notes for register \<open>r\<close>, block by block.\<close>

definition positionsIn :: "IrVirtualRegisterBlock \<Rightarrow> IrVirtualRegisterBlockLiveness \<Rightarrow> (u32 \<times> u32) set" where
  "positionsIn b lv =
     {(r, blockStartPosition b) |r. r \<in> set (liveInRegisters lv)} \<union> {(r, blockEndPosition b) |r. r \<in> set (liveOutRegisters lv)}
     \<union> {(r, (of_nat (startInstructionIndex b) + of_nat i) * 2) |r i. i < length (blockInstructions b) \<and> r \<in> set (useRegisters (blockInstructions b ! i))}
     \<union> {(r, (of_nat (startInstructionIndex b) + of_nat i) * 2 + 1) |r i. i < length (blockInstructions b) \<and> r \<in> set (defRegisters (blockInstructions b ! i))}"

definition rangeOf :: "IrVirtualRegisterInterval \<Rightarrow> u32 \<Rightarrow> bool" where
  "rangeOf iv p \<longleftrightarrow> (\<exists>rg \<in> set (ranges iv). startPosition rg \<le> p \<and> p \<le> endPosition rg)"

text \<open>An interval has at most one range, and the intervals under construction are indexed by their register.\<close>

definition indexed :: "u32 \<Rightarrow> IrVirtualRegisterInterval list \<Rightarrow> bool" where
  "indexed lim ivs \<longleftrightarrow> length ivs = unat lim \<and> (\<forall>i < unat lim. unat (iv_virtualRegister (ivs ! i)) = i \<and> length (ranges (ivs ! i)) \<le> 1)"

definition coversAll :: "IrVirtualRegisterInterval list \<Rightarrow> (u32 \<times> u32) set \<Rightarrow> bool" where
  "coversAll ivs ps \<longleftrightarrow> (\<forall>(r, p) \<in> ps. unat r < length ivs \<and> rangeOf (ivs ! unat r) p)"

lemma coversAll_simps [simp]:
  "coversAll ivs {}" "coversAll ivs (insert (r, p) ps) \<longleftrightarrow> (unat r < length ivs \<and> rangeOf (ivs ! unat r) p) \<and> coversAll ivs ps"
  "coversAll ivs (ps \<union> qs) \<longleftrightarrow> coversAll ivs ps \<and> coversAll ivs qs"
  by (auto simp: coversAll_def)

lemma unat_below: "i < unat (c :: u32) \<Longrightarrow> unat (of_nat i :: u32) = i"
proof -
  have "unat c < 2 ^ LENGTH(32)" by (rule unsigned_less)
  then show "i < unat c \<Longrightarrow> unat (of_nat i :: u32) = i" by (simp add: unat_of_nat)
qed

lemma indexed_start: "indexed lim (emptyIntervals lim)"
  by (simp add: indexed_def emptyIntervals_def unat_below)

lemma updateRange_spec:
  assumes ivs: "indexed lim ivs" and reg: "reg < lim"
  shows "indexed lim (updateRange reg p ivs)" "rangeOf (updateRange reg p ivs ! unat reg) p"
    "rangeOf (ivs ! i) q \<Longrightarrow> rangeOf (updateRange reg p ivs ! i) q" "length (updateRange reg p ivs) = length ivs"
proof -
  let ?i = "unat reg"
  have i: "?i < unat lim" "?i < length ivs" "length (ranges (ivs ! ?i)) \<le> 1"
    using assms by (auto simp: indexed_def word_less_nat_alt)
  then consider "ranges (ivs ! ?i) = []" | rg where "ranges (ivs ! ?i) = [rg]" by (cases "ranges (ivs ! ?i)") auto
  then have "indexed lim (updateRange reg p ivs) \<and> rangeOf (updateRange reg p ivs ! ?i) p
      \<and> (rangeOf (ivs ! i) q \<longrightarrow> rangeOf (updateRange reg p ivs ! i) q)"
    using ivs i by cases (auto simp: updateRange_def Let_def indexed_def nth_list_update rangeOf_def min_le_iff_disj le_max_iff_disj)
  then show "indexed lim (updateRange reg p ivs)" "rangeOf (updateRange reg p ivs ! unat reg) p"
    "rangeOf (ivs ! i) q \<Longrightarrow> rangeOf (updateRange reg p ivs ! i) q" by simp_all
  show "length (updateRange reg p ivs) = length ivs" by (simp add: updateRange_def Let_def)
qed

text \<open>Noting more positions keeps those covered.\<close>

definition grows :: "u32 \<Rightarrow> IrVirtualRegisterInterval list \<Rightarrow> IrVirtualRegisterInterval list \<Rightarrow> (u32 \<times> u32) set \<Rightarrow> bool" where
  "grows lim ivs ivs' new \<longleftrightarrow> indexed lim ivs' \<and> coversAll ivs' new \<and> (\<forall>ps. coversAll ivs ps \<longrightarrow> coversAll ivs' ps)"

lemma grows_refl [simp]: "indexed lim ivs \<Longrightarrow> grows lim ivs ivs {}"
  by (simp add: grows_def)

lemma grows_trans: "grows lim ivs ivs1 ps \<Longrightarrow> grows lim ivs1 ivs2 qs \<Longrightarrow> grows lim ivs ivs2 (ps \<union> qs)"
  by (simp add: grows_def)

lemma grows_indexed: "grows lim ivs ivs' ps \<Longrightarrow> indexed lim ivs'"
  by (simp add: grows_def)

lemma grows_update:
  assumes "indexed lim ivs" "reg < lim"
  shows "grows lim ivs (updateRange reg p ivs) {(reg, p)}"
  using updateRange_spec [OF assms] assms by (fastforce simp: grows_def coversAll_def indexed_def word_less_nat_alt)

lemma notePositions_grows:
  "indexed lim ivs \<Longrightarrow> notePositions lim msg p regs ivs = Inr ivs' \<Longrightarrow> grows lim ivs ivs' {(r, p) |r. r \<in> set regs}"
proof (induction regs arbitrary: ivs)
  case (Cons reg regs)
  have reg: "reg < lim" and rest: "notePositions lim msg p regs (updateRange reg p ivs) = Inr ivs'"
    using Cons.prems(2) by (auto split: if_splits)
  have "grows lim ivs ivs' ({(reg, p)} \<union> {(r, p) |r. r \<in> set regs})"
    using grows_update [OF Cons.prems(1) reg] Cons.IH [OF _ rest] by (blast intro: grows_trans grows_indexed)
  moreover have "{(reg, p)} \<union> {(r, p) |r. r \<in> set regs} = {(r, p) |r. r \<in> set (reg # regs)}" by auto
  ultimately show ?case by (simp only:)
qed simp

lemma positions_Cons:
  "{(r, f i) |r i. i < length (vi # vis) \<and> r \<in> set (get ((vi # vis) ! i))}
     = {(r, f 0) |r. r \<in> set (get vi)} \<union> {(r, f (Suc i)) |r i. i < length vis \<and> r \<in> set (get (vis ! i))}"
  (is "?A = ?B")
proof
  show "?A \<subseteq> ?B" by (auto simp: less_Suc_eq_0_disj)
  show "?B \<subseteq> ?A" by (force intro: exI [of _ 0] exI [of _ "Suc _"])
qed

lemma noteInstructions_grows:
  "indexed lim ivs \<Longrightarrow> noteInstructions lim index vis ivs = Inr ivs' \<Longrightarrow> grows lim ivs ivs'
     ({(r, (index + of_nat i) * 2) |r i. i < length vis \<and> r \<in> set (useRegisters (vis ! i))}
      \<union> {(r, (index + of_nat i) * 2 + 1) |r i. i < length vis \<and> r \<in> set (defRegisters (vis ! i))})"
proof (induction vis arbitrary: index ivs)
  case (Cons vi vis)
  from Cons.prems(2) obtain ivs1 ivs2 where
    one: "notePositions lim ''liveness pass found out-of-range use register'' (index * 2) (useRegisters vi) ivs = Inr ivs1"
      "notePositions lim ''liveness pass found out-of-range def register'' (index * 2 + 1) (defRegisters vi) ivs1 = Inr ivs2"
    and rest: "noteInstructions lim (index + 1) vis ivs2 = Inr ivs'" by (auto simp: rbind_Inr_iff)
  note g1 = notePositions_grows [OF Cons.prems(1) one(1)]
  note g2 = notePositions_grows [OF grows_indexed [OF g1] one(2)]
  note g3 = Cons.IH [OF grows_indexed [OF g2] rest]
  show ?case
    using grows_trans [OF g1 grows_trans [OF g2 g3]]
    unfolding positions_Cons [of "\<lambda>i. (index + of_nat i) * 2"] positions_Cons [of "\<lambda>i. (index + of_nat i) * 2 + 1"]
    by (simp add: ac_simps)
qed simp

lemma noteBlock_grows:
  assumes "indexed lim ivs" "noteBlock lim b lv ivs = Inr ivs'"
  shows "grows lim ivs ivs' (if blockReachable b then positionsIn b lv else {})"
proof (cases "blockReachable b")
  case True
  with assms(2) obtain ivs1 ivs2 where
    s: "notePositions lim ''liveness pass found out-of-range live-in register'' (blockStartPosition b) (liveInRegisters lv) ivs = Inr ivs1"
      "notePositions lim ''liveness pass found out-of-range live-out register'' (blockEndPosition b) (liveOutRegisters lv) ivs1 = Inr ivs2"
      "noteInstructions lim (of_nat (startInstructionIndex b)) (blockInstructions b) ivs2 = Inr ivs'"
    by (auto simp: noteBlock_def rbind_Inr_iff)
  note g1 = notePositions_grows [OF assms(1) s(1)]
  note g2 = notePositions_grows [OF grows_indexed [OF g1] s(2)]
  note g3 = noteInstructions_grows [OF grows_indexed [OF g2] s(3)]
  show ?thesis using grows_trans [OF grows_trans [OF g1 g2] g3] True by (simp add: positionsIn_def Un_assoc)
qed (use assms in \<open>simp add: noteBlock_def\<close>)

lemma noteBlocks_grows:
  "indexed lim ivs \<Longrightarrow> noteBlocks lim bs ivs = Inr ivs' \<Longrightarrow>
     grows lim ivs ivs' (\<Union>(b, lv) \<in> set bs. if blockReachable b then positionsIn b lv else {})"
proof (induction bs arbitrary: ivs)
  case (Cons x bs)
  obtain b lv where x: "x = (b, lv)" by (cases x)
  from Cons.prems(2) obtain ivs1 where s: "noteBlock lim b lv ivs = Inr ivs1" "noteBlocks lim bs ivs1 = Inr ivs'"
    by (auto simp: x rbind_Inr_iff)
  note g = noteBlock_grows [OF Cons.prems(1) s(1)]
  show ?case using grows_trans [OF g Cons.IH [OF grows_indexed [OF g] s(2)]] by (simp add: x)
qed simp

section \<open>The intervals of a function\<close>

lemma indexed_distinct: "indexed lim ivs \<Longrightarrow> distinct (map iv_virtualRegister ivs)"
  unfolding indexed_def distinct_conv_nth by (metis length_map nth_map)

lemma buildIntervals_facts:
  assumes "buildIntervals v lv = Inr ivs"
  shows "distinct (map iv_virtualRegister ivs)" "length ivs < 2 ^ 32" "\<forall>iv \<in> set ivs. \<exists>rg. ranges iv = [rg]"
    "(b, bl) \<in> set (zip (vf_blocks v) lv) \<Longrightarrow> blockReachable b \<Longrightarrow> (r, p) \<in> positionsIn b bl
       \<Longrightarrow> \<exists>iv \<in> set ivs. iv_virtualRegister iv = r \<and> rangeOf iv p"
proof -
  let ?lim = "nextVirtualRegister v"
  obtain built where b: "noteBlocks ?lim (zip (vf_blocks v) lv) (emptyIntervals ?lim) = Inr built"
    and ivs: "ivs = sort_key intervalKey (filter (\<lambda>iv. ranges iv \<noteq> []) built)"
    using assms by (auto simp: buildIntervals_def rbind_Inr_iff)
  have g: "grows ?lim (emptyIntervals ?lim) built (\<Union>(b, bl) \<in> set (zip (vf_blocks v) lv). if blockReachable b then positionsIn b bl else {})"
    by (rule noteBlocks_grows [OF indexed_start b])
  note ix = grows_indexed [OF g]
  have "distinct (map iv_virtualRegister (filter (\<lambda>iv. ranges iv \<noteq> []) built))"
    using indexed_distinct [OF ix] by (simp add: distinct_map_filter)
  then show "distinct (map iv_virtualRegister ivs)" by (simp add: ivs distinct_map)
  have "length built < 2 ^ LENGTH(32)" using ix unsigned_less [of ?lim, where 'a = nat] by (simp add: indexed_def)
  then show "length ivs < 2 ^ 32" using le_less_trans [OF length_filter_le] by (auto simp: ivs)
  show "\<forall>iv \<in> set ivs. \<exists>rg. ranges iv = [rg]"
  proof
    fix iv assume "iv \<in> set ivs"
    then have iv: "iv \<in> set built" "ranges iv \<noteq> []" by (auto simp: ivs)
    then have "length (ranges iv) \<le> 1" using ix by (auto simp: indexed_def in_set_conv_nth)
    then show "\<exists>rg. ranges iv = [rg]" using iv(2) by (cases "ranges iv") auto
  qed
  assume that: "(b, bl) \<in> set (zip (vf_blocks v) lv)" "blockReachable b" "(r, p) \<in> positionsIn b bl"
  have "unat r < length built" "rangeOf (built ! unat r) p" using g that by (fastforce simp: grows_def coversAll_def)+
  moreover have "unat (iv_virtualRegister (built ! unat r)) = unat r" using ix \<open>unat r < length built\<close> by (simp add: indexed_def)
  ultimately show "\<exists>iv \<in> set ivs. iv_virtualRegister iv = r \<and> rangeOf iv p"
    unfolding ivs by (intro bexI [of _ "built ! unat r"]) (auto simp: rangeOf_def word_unat_eq_iff)
qed

end
