(* ===== verification/VrAllocatorFacts.thy ===== *)
theory VrAllocatorFacts
  imports VrAllocator VrIntervals "HOL-Library.Multiset"
begin

text \<open>
  Linear-scan register allocation is conflict free: the invariant of the scan (\<open>scanInv\<close>: the active
  intervals and the free registers share out the physical registers, an interval that holds a register and
  is not active has ended), its preservation by each of the three outcomes of a step, the order in which
  intervals are assigned, and the number of intervals that are live where one is spilled.
\<close>

section \<open>The invariant of the scan\<close>

lemma sortActive_simps [simp]:
  "set (sortActiveIntervals asg active) = set active" "distinct (sortActiveIntervals asg active) = distinct active"
  "length (sortActiveIntervals asg active) = length active"
  by (simp_all add: sortActiveIntervals_def)

text \<open>Two assignments never hold one register at the same time.\<close>

definition disjointAssignments :: "IrLinearScanRegisterAssignment \<Rightarrow> IrLinearScanRegisterAssignment \<Rightarrow> bool" where
  "disjointAssignments a b \<longleftrightarrow> spilled a \<or> spilled b \<or> physicalRegister a \<noteq> physicalRegister b
     \<or> as_endPosition a < as_startPosition b \<or> as_endPosition b < as_startPosition a"

text \<open>The active intervals and the free registers share out the physical registers.\<close>

definition poolInv :: "u32 \<Rightarrow> ActiveInterval list \<Rightarrow> u32 list \<Rightarrow> bool" where
  "poolInv regs active free \<longleftrightarrow> distinct active \<and> inj_on ac_physicalRegister (set active) \<and> distinct free
     \<and> ac_physicalRegister ` set active \<inter> set free = {} \<and> (\<forall>r \<in> ac_physicalRegister ` set active \<union> set free. r < regs)"

definition activeInv :: "IrLinearScanRegisterAssignment list \<Rightarrow> ActiveInterval list \<Rightarrow> bool" where
  "activeInv asg active \<longleftrightarrow> (\<forall>a \<in> set active. unat (assignmentIndex a) < length asg
     \<and> \<not> spilled (assignmentOf asg a) \<and> physicalRegister (assignmentOf asg a) = ac_physicalRegister a)"

text \<open>An interval that holds a register and is not active ended before \<open>cur\<close>.\<close>

definition finishedInv :: "u32 \<Rightarrow> IrLinearScanRegisterAssignment list \<Rightarrow> ActiveInterval list \<Rightarrow> bool" where
  "finishedInv cur asg active \<longleftrightarrow> (\<forall>i < length asg. \<not> spilled (asg ! i) \<longrightarrow>
     (\<exists>a \<in> set active. unat (assignmentIndex a) = i) \<or> as_endPosition (asg ! i) < cur)"

definition conflictFree :: "IrLinearScanRegisterAssignment list \<Rightarrow> bool" where
  "conflictFree asg \<longleftrightarrow> (\<forall>i < length asg. \<forall>j < length asg. i \<noteq> j \<longrightarrow> disjointAssignments (asg ! i) (asg ! j))"

definition registersBelow :: "u32 \<Rightarrow> IrLinearScanRegisterAssignment list \<Rightarrow> bool" where
  "registersBelow regs asg \<longleftrightarrow> (\<forall>a \<in> set asg. \<not> spilled a \<longrightarrow> physicalRegister a < regs)"

text \<open>The spilled intervals have slots of their own, below the counter.\<close>

definition slotsInv :: "u32 \<Rightarrow> IrLinearScanRegisterAssignment list \<Rightarrow> bool" where
  "slotsInv n asg \<longleftrightarrow> unat n \<le> length asg \<and> (\<forall>a \<in> set asg. spilled a \<longrightarrow> spillSlot a < n)
     \<and> (\<forall>i < length asg. \<forall>j < length asg. i \<noteq> j \<longrightarrow> spilled (asg ! i) \<longrightarrow> spilled (asg ! j) \<longrightarrow> spillSlot (asg ! i) \<noteq> spillSlot (asg ! j))"

definition scanInv :: "u32 \<Rightarrow> u32 \<Rightarrow> ScanState \<Rightarrow> bool" where
  "scanInv regs cur st \<longleftrightarrow> poolInv regs (sc_active st) (freeRegisters st) \<and> activeInv (sc_assignments st) (sc_active st)
     \<and> finishedInv cur (sc_assignments st) (sc_active st) \<and> conflictFree (sc_assignments st) \<and> registersBelow regs (sc_assignments st)
     \<and> slotsInv (nextSpillSlot st) (sc_assignments st)"

lemma inv_sortActive [simp]:
  "poolInv regs (sortActiveIntervals asg active) fr = poolInv regs active fr"
  "activeInv asg (sortActiveIntervals asg' active) = activeInv asg active"
  "finishedInv cur asg (sortActiveIntervals asg' active) = finishedInv cur asg active"
  by (simp_all add: poolInv_def activeInv_def finishedInv_def)

lemma unat_index: "i < 2 ^ 32 \<Longrightarrow> unat (of_nat i :: u32) = i"
  by (simp add: unat_of_nat)

lemma firstRegisters: "distinct (map of_nat [0..<unat c] :: u32 list)" "r \<in> set (map of_nat [0..<unat c]) \<Longrightarrow> r < (c :: u32)"
proof -
  show "distinct (map of_nat [0..<unat c] :: u32 list)"
    by (auto simp: distinct_map unat_below intro!: inj_on_inverseI [of _ unat])
  assume "r \<in> set (map of_nat [0..<unat c])"
  then obtain i where "i < unat c" "r = of_nat i" by auto
  then show "r < c" by (simp add: word_less_nat_alt unat_below)
qed

lemma scanInv_start: "scanInv (physicalRegisterCount options) cur (startScan options)"
proof -
  have "poolInv (physicalRegisterCount options) [] (map of_nat [0..<unat (physicalRegisterCount options)])"
    using firstRegisters unfolding poolInv_def by auto
  then show ?thesis
    by (simp add: scanInv_def startScan_def activeInv_def finishedInv_def conflictFree_def registersBelow_def slotsInv_def)
qed

lemma expire_inv:
  assumes inv: "scanInv regs cur st" and cur: "cur \<le> wi_startPosition w"
  shows "scanInv regs (wi_startPosition w) (expireIntervals w st)"
proof -
  let ?asg = "sc_assignments st" and ?act = "sc_active st"
  note I = inv [unfolded scanInv_def]
  have "poolInv regs (sortActiveIntervals ?asg (filter (\<lambda>a. \<not> expired ?asg w a) ?act))
      (sort (freeRegisters st @ map ac_physicalRegister (filter (expired ?asg w) ?act)))"
    using I unfolding poolInv_def by (auto simp: distinct_map inj_on_def)
  moreover have "activeInv ?asg (sortActiveIntervals ?asg (filter (\<lambda>a. \<not> expired ?asg w a) ?act))"
    using I by (auto simp: activeInv_def)
  moreover have "finishedInv (wi_startPosition w) ?asg (sortActiveIntervals ?asg (filter (\<lambda>a. \<not> expired ?asg w a) ?act))"
    unfolding finishedInv_def
  proof (intro allI impI)
    fix i assume i: "i < length ?asg" "\<not> spilled (?asg ! i)"
    then consider a where "a \<in> set ?act" "unat (assignmentIndex a) = i" | "as_endPosition (?asg ! i) < cur"
      using I by (auto simp: finishedInv_def)
    then show "(\<exists>a \<in> set (sortActiveIntervals ?asg (filter (\<lambda>a. \<not> expired ?asg w a) ?act)). unat (assignmentIndex a) = i)
        \<or> as_endPosition (?asg ! i) < wi_startPosition w"
    proof cases
      case 1
      then show ?thesis by (cases "expired ?asg w a") (auto simp: expired_def assignmentOf_def)
    next
      case 2
      then show ?thesis using cur by auto
    qed
  qed
  ultimately show ?thesis using I by (simp add: scanInv_def expireIntervals_def Let_def)
qed

lemma disjointAssignments_sym: "disjointAssignments a b \<longleftrightarrow> disjointAssignments b a"
  by (auto simp: disjointAssignments_def)

lemma conflictFree_snoc:
  assumes "conflictFree asg" "\<And>i. i < length asg \<Longrightarrow> disjointAssignments (asg ! i) a"
  shows "conflictFree (asg @ [a])"
  using assms disjointAssignments_sym by (auto simp: conflictFree_def nth_append less_Suc_eq)

lemma assignmentOf_append: "unat (assignmentIndex a) < length asg \<Longrightarrow> assignmentOf (asg @ more') a = assignmentOf asg a"
  by (simp add: assignmentOf_def nth_append)

text \<open>A register that no active interval holds is held by finished ones only.\<close>

lemma unheld_finished:
  assumes "activeInv asg active" "finishedInv cur asg active" "i < length asg" "\<not> spilled (asg ! i)"
    and "physicalRegister (asg ! i) \<notin> ac_physicalRegister ` set active"
  shows "as_endPosition (asg ! i) < cur"
proof (rule ccontr)
  assume "\<not> as_endPosition (asg ! i) < cur"
  then obtain a where "a \<in> set active" "unat (assignmentIndex a) = i" using assms(2-4) by (auto simp: finishedInv_def)
  then have "physicalRegister (asg ! i) = ac_physicalRegister a" using assms(1) by (auto simp: activeInv_def assignmentOf_def)
  then show False using assms(5) \<open>a \<in> set active\<close> by auto
qed

lemma assignRegister_inv:
  assumes inv: "scanInv regs (wi_startPosition w) st" and free: "freeRegisters st \<noteq> []" and len: "length (sc_assignments st) < 2 ^ 32 - 1"
  shows "scanInv regs (wi_startPosition w) (assignRegister w st)"
proof -
  let ?asg = "sc_assignments st" and ?act = "sc_active st"
  obtain reg free' where f: "freeRegisters st = reg # free'" using free by (cases "freeRegisters st") auto
  let ?new = "(newAssignment w)\<lparr>physicalRegister := reg\<rparr>" and ?entry = "\<lparr>assignmentIndex = of_nat (length ?asg), ac_physicalRegister = reg\<rparr>"
  have idx: "unat (of_nat (length ?asg) :: u32) = length ?asg" using len by (intro unat_index) simp
  note I = inv [unfolded scanInv_def f]
  have act: "a \<in> set ?act \<Longrightarrow> unat (assignmentIndex a) < length ?asg" for a using I by (auto simp: activeInv_def)
  have held: "reg \<notin> ac_physicalRegister ` set ?act" using I by (auto simp: poolInv_def)
  then have "?entry \<notin> set ?act" by force
  then have "poolInv regs (?act @ [?entry]) free'" using I held by (auto simp: poolInv_def)
  moreover have "activeInv (?asg @ [?new]) (?act @ [?entry])"
    using I act idx by (auto simp: activeInv_def assignmentOf_append less_Suc_eq) (auto simp: assignmentOf_def newAssignment_def)
  moreover have "finishedInv (wi_startPosition w) (?asg @ [?new]) (?act @ [?entry])"
    using I idx by (auto simp: finishedInv_def nth_append less_Suc_eq)
  moreover have "conflictFree (?asg @ [?new])"
  proof (rule conflictFree_snoc)
    show "conflictFree ?asg" using I by simp
    fix i assume "i < length ?asg"
    then have "spilled (?asg ! i) \<or> physicalRegister (?asg ! i) \<noteq> reg \<or> as_endPosition (?asg ! i) < wi_startPosition w"
      using unheld_finished [of ?asg ?act "wi_startPosition w" i] I held by auto
    then show "disjointAssignments (?asg ! i) ?new" by (auto simp: disjointAssignments_def newAssignment_def)
  qed
  moreover have "registersBelow regs (?asg @ [?new])" using I by (auto simp: registersBelow_def poolInv_def)
  moreover have "slotsInv (nextSpillSlot st) (?asg @ [?new])"
    using I by (auto simp: slotsInv_def nth_append less_Suc_eq newAssignment_def)
  ultimately show ?thesis
    using f by (simp add: scanInv_def assignRegister_def Let_def)
qed

lemma slotsInv_next:
  assumes "slotsInv slot asg" "length asg < 2 ^ 32 - 1"
  shows "unat (slot + 1) = unat slot + 1" "unat (slot + 1) \<le> length asg + 1"
    "a \<in> set asg \<Longrightarrow> spilled a \<Longrightarrow> spillSlot a < slot + 1 \<and> spillSlot a \<noteq> slot"
proof -
  have le: "unat slot \<le> length asg" using assms(1) by (simp add: slotsInv_def)
  then have "unat slot + 1 < 2 ^ 32" using assms(2) by simp
  then show one: "unat (slot + 1) = unat slot + 1"
    using unat_index [of "unat slot + 1"] by (simp add: add.commute)
  show "unat (slot + 1) \<le> length asg + 1" using one le by simp
  assume "a \<in> set asg" "spilled a"
  then have "spillSlot a < slot" using assms(1) by (auto simp: slotsInv_def)
  then show "spillSlot a < slot + 1 \<and> spillSlot a \<noteq> slot" using one by (auto simp: word_less_nat_alt)
qed

lemma spillNew_inv:
  assumes inv: "scanInv regs cur st" and len: "length (sc_assignments st) < 2 ^ 32 - 1"
  shows "scanInv regs cur (spillNew w st)"
proof -
  let ?asg = "sc_assignments st" and ?new = "(newAssignment w)\<lparr>spilled := True, spillSlot := nextSpillSlot st\<rparr>"
  note I = inv [unfolded scanInv_def]
  have slots: "slotsInv (nextSpillSlot st) ?asg" using I by simp
  note sl = slotsInv_next [OF slots len]
  have "activeInv (?asg @ [?new]) (sc_active st)" using I by (auto simp: activeInv_def assignmentOf_append)
  moreover have "finishedInv cur (?asg @ [?new]) (sc_active st)" using I by (auto simp: finishedInv_def nth_append less_Suc_eq)
  moreover have "conflictFree (?asg @ [?new])" using I by (auto intro!: conflictFree_snoc simp: disjointAssignments_def)
  moreover have "registersBelow regs (?asg @ [?new])" using I by (auto simp: registersBelow_def)
  moreover have "slotsInv (nextSpillSlot st + 1) (?asg @ [?new])"
    unfolding slotsInv_def
  proof (intro conjI ballI allI impI)
    show "unat (nextSpillSlot st + 1) \<le> length (?asg @ [?new])" using sl(2) by simp
    show "spillSlot a < nextSpillSlot st + 1" if "a \<in> set (?asg @ [?new])" "spilled a" for a
      using that sl(1,3) by (auto simp: word_less_nat_alt)
    fix i j assume ij: "i < length (?asg @ [?new])" "j < length (?asg @ [?new])" "i \<noteq> j"
      "spilled ((?asg @ [?new]) ! i)" "spilled ((?asg @ [?new]) ! j)"
    show "spillSlot ((?asg @ [?new]) ! i) \<noteq> spillSlot ((?asg @ [?new]) ! j)"
      using ij slots sl(3) [OF nth_mem, of i] sl(3) [OF nth_mem, of j] by (auto simp: nth_append less_Suc_eq slotsInv_def)
  qed
  ultimately show ?thesis using I by (simp add: scanInv_def spillNew_def)
qed

text \<open>Marking one assignment as spilled.\<close>

lemma slotsInv_update:
  assumes slots: "slotsInv slot asg" and len: "length asg < 2 ^ 32 - 1" and i: "i < length asg" "\<not> spilled (asg ! i)"
    and a: "\<not> spilled a"
  shows "slotsInv (slot + 1) (asg[i := (asg ! i)\<lparr>spilled := True, spillSlot := slot\<rparr>] @ [a])"
proof -
  note sl = slotsInv_next [OF slots len]
  let ?asg = "asg[i := (asg ! i)\<lparr>spilled := True, spillSlot := slot\<rparr>]"
  have at: "spilled (?asg ! j) \<longleftrightarrow> j = i \<or> spilled (asg ! j)" "spillSlot (?asg ! j) = (if j = i then slot else spillSlot (asg ! j))"
    if "j < length asg" for j using that i by (auto simp: nth_list_update)
  have below: "spillSlot (?asg ! j) < slot + 1" if "j < length asg" "spilled (?asg ! j)" for j
    using at [OF that(1)] that sl(1) sl(3) [OF nth_mem [OF that(1)]] by (auto simp: word_less_nat_alt split: if_splits)
  show ?thesis
    unfolding slotsInv_def
  proof (intro conjI ballI allI impI)
    show "unat (slot + 1) \<le> length (?asg @ [a])" using sl(2) by simp
    show "spillSlot b < slot + 1" if "b \<in> set (?asg @ [a])" "spilled b" for b
      using that a below by (auto simp: in_set_conv_nth)
    fix j k assume jk: "j < length (?asg @ [a])" "k < length (?asg @ [a])" "j \<noteq> k" "spilled ((?asg @ [a]) ! j)" "spilled ((?asg @ [a]) ! k)"
    then have lt: "j < length asg" "k < length asg" using a by (auto simp: nth_append less_Suc_eq split: if_splits)
    show "spillSlot ((?asg @ [a]) ! j) \<noteq> spillSlot ((?asg @ [a]) ! k)"
      using jk lt at [OF lt(1)] at [OF lt(2)] slots sl(3) [OF nth_mem [OF lt(1)]] sl(3) [OF nth_mem [OF lt(2)]]
      by (auto simp: nth_append slotsInv_def split: if_splits)
  qed
qed

lemma spillActive_inv:
  assumes inv: "scanInv regs (wi_startPosition w) st" and c: "c < length (sc_active st)" and len: "length (sc_assignments st) < 2 ^ 32 - 1"
  shows "scanInv regs (wi_startPosition w) (spillActive c w st)"
proof -
  let ?asg = "sc_assignments st" and ?act = "sc_active st"
  let ?cand = "?act ! c"
  let ?i = "unat (assignmentIndex ?cand)"
  let ?old = "?asg[?i := (?asg ! ?i)\<lparr>spilled := True, spillSlot := nextSpillSlot st\<rparr>]"
  let ?new = "(newAssignment w)\<lparr>physicalRegister := ac_physicalRegister ?cand\<rparr>"
  let ?entry = "\<lparr>assignmentIndex = of_nat (length ?asg), ac_physicalRegister = ac_physicalRegister ?cand\<rparr>"
  note I = inv [unfolded scanInv_def]
  have idx: "unat (of_nat (length ?asg) :: u32) = length ?asg" using len by (intro unat_index) simp
  have cand: "?cand \<in> set ?act" using c by simp
  then have i: "?i < length ?asg" "\<not> spilled (?asg ! ?i)" using I by (auto simp: activeInv_def assignmentOf_def)
  have set: "set (?act[c := ?entry]) = insert ?entry (set ?act - {?cand})"
    using I c by (intro set_update_distinct) (simp_all add: poolInv_def)
  have others: "a \<in> set ?act \<Longrightarrow> a \<noteq> ?cand \<Longrightarrow> ac_physicalRegister a \<noteq> ac_physicalRegister ?cand" for a
    using I cand by (auto simp: poolInv_def inj_on_def)
  have apart: "unat (assignmentIndex a) \<noteq> ?i" if "a \<in> set ?act" "a \<noteq> ?cand" for a
    using others [OF that] I that cand by (metis activeInv_def assignmentOf_def)
  have old: "?old ! j = ?asg ! j" if "j \<noteq> ?i" for j using that by simp
  have pool: "poolInv regs (?act[c := ?entry]) (freeRegisters st)"
  proof -
    have phys: "ac_physicalRegister ` insert ?entry (set ?act - {?cand}) = ac_physicalRegister ` set ?act" using cand by auto
    have "inj_on ac_physicalRegister (set ?act - {?cand})" using I by (auto simp: poolInv_def inj_on_diff)
    moreover have "ac_physicalRegister ?entry \<notin> ac_physicalRegister ` (set ?act - {?cand} - {?entry})"
      using others by fastforce
    ultimately have "inj_on ac_physicalRegister (insert ?entry (set ?act - {?cand}))" by (subst inj_on_insert) (rule conjI)
    moreover have "distinct (?act[c := ?entry])"
    proof (rule distinct_list_update)
      show "distinct ?act" using I by (simp add: poolInv_def)
      have "?entry \<notin> set ?act" using I idx by (fastforce simp: activeInv_def)
      then show "?entry \<notin> set ?act - {?act ! c}" by simp
    qed
    ultimately show ?thesis using I unfolding poolInv_def set phys by simp
  qed
  moreover have "activeInv (?old @ [?new]) (?act[c := ?entry])"
    unfolding activeInv_def set
  proof
    fix a assume "a \<in> insert ?entry (set ?act - {?cand})"
    then consider "a = ?entry" | "a \<in> set ?act" "a \<noteq> ?cand" by auto
    then show "unat (assignmentIndex a) < length (?old @ [?new]) \<and> \<not> spilled (assignmentOf (?old @ [?new]) a)
        \<and> physicalRegister (assignmentOf (?old @ [?new]) a) = ac_physicalRegister a"
    proof cases
      case 1
      then show ?thesis using idx by (simp add: assignmentOf_def nth_append newAssignment_def)
    next
      case 2
      then have "unat (assignmentIndex a) < length ?asg \<and> \<not> spilled (assignmentOf ?asg a) \<and> physicalRegister (assignmentOf ?asg a) = ac_physicalRegister a"
        using I by (auto simp: activeInv_def)
      moreover have "assignmentOf (?old @ [?new]) a = assignmentOf ?asg a"
        using calculation old [OF apart [OF 2]] by (simp add: assignmentOf_def nth_append)
      ultimately show ?thesis by simp
    qed
  qed
  moreover have "finishedInv (wi_startPosition w) (?old @ [?new]) (?act[c := ?entry])"
    unfolding finishedInv_def set
  proof (intro allI impI)
    fix j assume j: "j < length (?old @ [?new])" "\<not> spilled ((?old @ [?new]) ! j)"
    show "(\<exists>a \<in> insert ?entry (set ?act - {?cand}). unat (assignmentIndex a) = j) \<or> as_endPosition ((?old @ [?new]) ! j) < wi_startPosition w"
    proof (cases "j = length ?asg")
      case True
      then show ?thesis using idx by simp
    next
      case False
      then have lt: "j < length ?asg" using j(1) by simp
      then have ji: "j \<noteq> ?i" using j(2) by (auto simp: nth_append nth_list_update)
      then have same: "(?old @ [?new]) ! j = ?asg ! j" using lt by (simp add: nth_append)
      then have "(\<exists>a \<in> set ?act. unat (assignmentIndex a) = j) \<or> as_endPosition (?asg ! j) < wi_startPosition w"
        using I j(2) lt by (simp add: finishedInv_def)
      then show ?thesis using same ji by auto
    qed
  qed
  moreover have "conflictFree (?old @ [?new])"
  proof (rule conflictFree_snoc)
    show "conflictFree ?old"
      using I i(1) by (auto simp: conflictFree_def nth_list_update disjointAssignments_def)
    fix j assume "j < length ?old"
    then have lt: "j < length ?asg" by simp
    show "disjointAssignments (?old ! j) ?new"
    proof (cases "j = ?i")
      case True
      then show ?thesis using i by (simp add: disjointAssignments_def)
    next
      case False
      have "as_endPosition (?asg ! j) < wi_startPosition w" if u: "\<not> spilled (?asg ! j)" "physicalRegister (?asg ! j) = ac_physicalRegister ?cand"
      proof (rule ccontr)
        assume "\<not> ?thesis"
        then obtain a where a: "a \<in> set ?act" "unat (assignmentIndex a) = j" using I u(1) lt by (auto simp: finishedInv_def)
        then have "ac_physicalRegister a = ac_physicalRegister ?cand" using I u(2) by (auto simp: activeInv_def assignmentOf_def)
        then show False using others [OF a(1)] a(2) False by auto
      qed
      then show ?thesis using False by (auto simp: disjointAssignments_def newAssignment_def)
    qed
  qed
  moreover have "registersBelow regs (?old @ [?new])"
  proof -
    have "b \<in> set ?asg \<or> spilled b" if "b \<in> set ?old" for b
      using that set_update_subset_insert [of ?asg ?i "(?asg ! ?i)\<lparr>spilled := True, spillSlot := nextSpillSlot st\<rparr>"] by auto
    moreover have "ac_physicalRegister ?cand < regs" using I cand unfolding poolInv_def by blast
    ultimately show ?thesis using I by (auto simp: registersBelow_def)
  qed
  moreover have "slotsInv (nextSpillSlot st + 1) (?old @ [?new])"
    using slotsInv_update [OF _ len i, of "nextSpillSlot st" ?new] I by (simp add: newAssignment_def)
  ultimately show ?thesis
    by (simp add: scanInv_def spillActive_def Let_def)
qed

lemma pickSpillCandidate_less: "pickSpillCandidate active asg = Some c \<Longrightarrow> c < length active"
  by (auto simp: pickSpillCandidate_def split: if_splits intro!: fold_index_less)

lemma expire_length [simp]: "sc_assignments (expireIntervals w st) = sc_assignments st"
  by (simp add: expireIntervals_def Let_def)

lemma scanInterval_inv:
  assumes inv: "scanInv regs cur st" and cur: "cur \<le> wi_startPosition w" and len: "length (sc_assignments st) < 2 ^ 32 - 1"
  shows "scanInv regs (wi_startPosition w) (scanInterval w st)"
proof -
  have "scanInv regs (wi_startPosition w) (expireIntervals w st)" by (rule expire_inv [OF inv cur])
  then show ?thesis
    using len by (auto simp: scanInterval_def Let_def dest!: pickSpillCandidate_less split: option.splits
        intro: assignRegister_inv spillNew_inv spillActive_inv)
qed

text \<open>Every interval gets one assignment, with its own register and positions, in the order of the scan.\<close>

definition assignedItem :: "IrLinearScanRegisterAssignment \<Rightarrow> IntervalWorkItem" where
  "assignedItem a = \<lparr>wi_virtualRegister = as_virtualRegister a, wi_startPosition = as_startPosition a, wi_endPosition = as_endPosition a\<rparr>"

lemma map_update_same: "f y = f (xs ! i) \<Longrightarrow> map f (xs[i := y]) = map f xs"
  by (metis list_update_beyond list_update_id map_update not_le_imp_less nth_map)

lemma scanInterval_items: "map assignedItem (sc_assignments (scanInterval w st)) = map assignedItem (sc_assignments st) @ [w]"
  by (simp add: scanInterval_def assignRegister_def spillNew_def spillActive_def Let_def assignedItem_def newAssignment_def
      map_update_same split: option.splits)

lemma scan_items: "map assignedItem (sc_assignments (fold scanInterval items st)) = map assignedItem (sc_assignments st) @ items"
  by (induction items arbitrary: st) (simp_all add: scanInterval_items)

lemma scan_length: "length (sc_assignments (scanInterval w st)) = Suc (length (sc_assignments st))"
  using arg_cong [OF scanInterval_items [of w st], of length] by simp

lemma scan_inv:
  assumes "scanInv regs cur st" "sorted (map wi_startPosition items)" "\<forall>w \<in> set items. cur \<le> wi_startPosition w"
    and "length (sc_assignments st) + length items < 2 ^ 32"
  shows "\<exists>cur'. scanInv regs cur' (fold scanInterval items st)"
  using assms
proof (induction items arbitrary: cur st)
  case (Cons w items)
  have "scanInv regs (wi_startPosition w) (scanInterval w st)"
    using Cons.prems by (intro scanInterval_inv) auto
  then show ?case using Cons.prems Cons.IH [of "wi_startPosition w" "scanInterval w st"] by (simp add: scan_length)
qed auto

section \<open>Spilling needs pressure\<close>

text \<open>The registers are all given out or free, and the active intervals have begun.\<close>

definition sharedOut :: "u32 \<Rightarrow> u32 \<Rightarrow> ScanState \<Rightarrow> bool" where
  "sharedOut regs cur st \<longleftrightarrow> length (sc_active st) + length (freeRegisters st) = unat regs
     \<and> (\<forall>a \<in> set (sc_active st). as_startPosition (assignmentOf (sc_assignments st) a) \<le> cur)"

definition occupies :: "u32 \<Rightarrow> IntervalWorkItem \<Rightarrow> bool" where
  "occupies p w \<longleftrightarrow> wi_startPosition w \<le> p \<and> p \<le> wi_endPosition w"

lemma length_filter_swap: "length (filter (\<lambda>x. \<not> P x) xs) + length (filter P xs) = length xs"
  by (induction xs) auto

lemma expire_sharedOut:
  assumes "sharedOut regs cur st" "cur \<le> wi_startPosition w"
  shows "sharedOut regs (wi_startPosition w) (expireIntervals w st)"
    "\<forall>a \<in> set (sc_active (expireIntervals w st)). wi_startPosition w \<le> as_endPosition (assignmentOf (sc_assignments st) a)"
  using assms length_filter_swap [of "expired (sc_assignments st) w" "sc_active st"]
  by (force simp: sharedOut_def expireIntervals_def Let_def expired_def)+

lemma index_inj:
  assumes "poolInv regs active fr" "activeInv asg active"
  shows "inj_on (\<lambda>a. unat (assignmentIndex a)) (set active)" "distinct active"
proof -
  show "inj_on (\<lambda>a. unat (assignmentIndex a)) (set active)"
  proof (rule inj_onI)
    fix a b assume ab: "a \<in> set active" "b \<in> set active" "unat (assignmentIndex a) = unat (assignmentIndex b)"
    then have "assignmentOf asg a = assignmentOf asg b" by (simp add: assignmentOf_def)
    then have "ac_physicalRegister a = ac_physicalRegister b" using assms(2) ab(1,2) by (metis activeInv_def)
    then show "a = b" using assms(1) ab(1,2) by (auto simp: poolInv_def inj_on_def)
  qed
  show "distinct active" using assms(1) by (simp add: poolInv_def)
qed

lemma active_occupy:
  assumes inv: "poolInv regs active fr" "activeInv asg active"
    and at: "\<forall>a \<in> set active. as_startPosition (assignmentOf asg a) \<le> p \<and> p \<le> as_endPosition (assignmentOf asg a)"
  shows "length active \<le> length (filter (occupies p) (map assignedItem asg))"
proof -
  let ?index = "\<lambda>a. unat (assignmentIndex a)"
  let ?at = "{i. i < length asg \<and> occupies p (assignedItem (asg ! i))}"
  have "?index ` set active \<subseteq> ?at"
    using inv(2) at by (auto simp: activeInv_def assignmentOf_def occupies_def assignedItem_def)
  then have "card (?index ` set active) \<le> card ?at" by (intro card_mono) auto
  moreover have "card (?index ` set active) = length active"
    using index_inj [OF inv] by (simp add: card_image distinct_card)
  moreover have "card ?at = length (filter (occupies p) (map assignedItem asg))"
    by (simp add: length_filter_conv_card cong: conj_cong)
  ultimately show ?thesis by simp
qed

lemma scanInterval_pressure:
  assumes inv: "scanInv regs cur st" and cur: "cur \<le> wi_startPosition w" and out: "sharedOut regs cur st"
    and w: "wi_startPosition w \<le> wi_endPosition w"
  shows "nextSpillSlot (scanInterval w st) \<noteq> nextSpillSlot st
    \<Longrightarrow> unat regs < length (filter (occupies (wi_startPosition w)) (map assignedItem (sc_assignments st) @ [w]))"
proof -
  let ?st = "expireIntervals w st"
  note ex = expire_inv [OF inv cur] expire_sharedOut [OF out cur]
  have slot: "nextSpillSlot ?st = nextSpillSlot st" by (simp add: expireIntervals_def Let_def)
  assume "nextSpillSlot (scanInterval w st) \<noteq> nextSpillSlot st"
  then have full: "freeRegisters ?st = []" using slot by (auto simp: scanInterval_def Let_def assignRegister_def split: if_splits)
  have "length (sc_active ?st) \<le> length (filter (occupies (wi_startPosition w)) (map assignedItem (sc_assignments st)))"
    using ex by (intro active_occupy [of regs _ "freeRegisters ?st"]) (auto simp: scanInv_def sharedOut_def)
  moreover have "length (sc_active ?st) = unat regs" using ex(2) full by (simp add: sharedOut_def)
  ultimately show ?thesis using w by (simp add: occupies_def)
qed

lemma scanInterval_active:
  "a \<in> set (sc_active (scanInterval w st)) \<Longrightarrow> a \<in> set (sc_active (expireIntervals w st))
     \<or> assignmentIndex a = of_nat (length (sc_assignments st))"
  using set_update_subset_insert
  by (fastforce simp: scanInterval_def assignRegister_def spillNew_def spillActive_def Let_def split: option.splits if_splits)

lemma scanInterval_counts:
  "length (sc_active (scanInterval w st)) + length (freeRegisters (scanInterval w st))
     = length (sc_active (expireIntervals w st)) + length (freeRegisters (expireIntervals w st))"
  by (auto simp: scanInterval_def assignRegister_def spillNew_def spillActive_def Let_def split: option.splits)

lemma assignedItem_sel: "wi_startPosition (assignedItem a) = as_startPosition a"
  by (simp add: assignedItem_def)

lemma scanInterval_start:
  "i < length (sc_assignments st) \<Longrightarrow> as_startPosition (sc_assignments (scanInterval w st) ! i) = as_startPosition (sc_assignments st ! i)"
  "as_startPosition (sc_assignments (scanInterval w st) ! length (sc_assignments st)) = wi_startPosition w"
proof -
  let ?asg = "sc_assignments st" and ?asg' = "sc_assignments (scanInterval w st)"
  have at: "assignedItem (?asg' ! i) = (map assignedItem ?asg @ [w]) ! i" if "i \<le> length ?asg" for i
    using arg_cong [OF scanInterval_items [of w st], of "\<lambda>xs. xs ! i"] that by (simp add: scan_length)
  show "as_startPosition (?asg' ! i) = as_startPosition (?asg ! i)" if "i < length ?asg"
    using at [of i] that by (simp add: nth_append flip: assignedItem_sel)
  show "as_startPosition (?asg' ! length ?asg) = wi_startPosition w"
    using at [of "length ?asg"] by (simp add: nth_append flip: assignedItem_sel)
qed

lemma scanInterval_sharedOut:
  assumes inv: "scanInv regs cur st" and cur: "cur \<le> wi_startPosition w" and out: "sharedOut regs cur st"
    and len: "length (sc_assignments st) < 2 ^ 32 - 1"
  shows "sharedOut regs (wi_startPosition w) (scanInterval w st)"
proof -
  let ?st = "expireIntervals w st"
  have idx: "unat (of_nat (length (sc_assignments st)) :: u32) = length (sc_assignments st)" using len by (intro unat_index) simp
  have ex: "sharedOut regs (wi_startPosition w) ?st" by (rule expire_sharedOut(1) [OF out cur])
  have "as_startPosition (assignmentOf (sc_assignments (scanInterval w st)) a) \<le> wi_startPosition w"
    if "a \<in> set (sc_active (scanInterval w st))" for a
    using scanInterval_active [OF that]
  proof
    assume a: "a \<in> set (sc_active ?st)"
    then have "unat (assignmentIndex a) < length (sc_assignments st)"
      using expire_inv [OF inv cur] by (auto simp: scanInv_def activeInv_def)
    then show ?thesis using ex a by (simp add: sharedOut_def assignmentOf_def scanInterval_start(1))
  next
    assume "assignmentIndex a = of_nat (length (sc_assignments st))"
    then show ?thesis using idx by (simp add: assignmentOf_def scanInterval_start(2))
  qed
  then show ?thesis using ex by (simp add: sharedOut_def scanInterval_counts)
qed

lemma scan_pressure:
  assumes "scanInv regs cur st" "sharedOut regs cur st" "sorted (map wi_startPosition items)"
    and "\<forall>w \<in> set items. cur \<le> wi_startPosition w \<and> wi_startPosition w \<le> wi_endPosition w"
    and "length (sc_assignments st) + length items < 2 ^ 32"
    and "nextSpillSlot (fold scanInterval items st) \<noteq> nextSpillSlot st"
  shows "\<exists>p. unat regs < length (filter (occupies p) (map assignedItem (sc_assignments st) @ items))"
  using assms
proof (induction items arbitrary: cur st)
  case (Cons w items)
  let ?st = "scanInterval w st"
  have len: "length (sc_assignments st) < 2 ^ 32 - 1" using Cons.prems by simp
  show ?case
  proof (cases "nextSpillSlot ?st = nextSpillSlot st")
    case True
    have "\<exists>p. unat regs < length (filter (occupies p) (map assignedItem (sc_assignments ?st) @ items))"
      using Cons.prems len True
      by (intro Cons.IH [of "wi_startPosition w"]) (auto simp: scan_length intro: scanInterval_inv scanInterval_sharedOut)
    then show ?thesis by (simp add: scanInterval_items)
  next
    case False
    then have "unat regs < length (filter (occupies (wi_startPosition w)) (map assignedItem (sc_assignments st) @ [w]))"
      using Cons.prems by (intro scanInterval_pressure) auto
    then show ?thesis by (intro exI [of _ "wi_startPosition w"]) auto
  qed
qed simp

section \<open>The allocation of a function\<close>

text \<open>What holds of every pair of assignments does not depend on their order.\<close>

lemma pairs_sorted_wrt:
  assumes sym: "\<And>a b. R a b \<Longrightarrow> R b a"
  shows "(\<forall>i < length xs. \<forall>j < length xs. i \<noteq> j \<longrightarrow> R (xs ! i) (xs ! j)) \<longleftrightarrow> sorted_wrt R xs" (is "?all \<longleftrightarrow> _")
proof
  show "?all \<Longrightarrow> sorted_wrt R xs" by (auto simp: sorted_wrt_iff_nth_less)
  assume "sorted_wrt R xs"
  then have "R (xs ! i) (xs ! j)" if "i < j" "j < length xs" for i j using that by (simp add: sorted_wrt_nth_less)
  then show ?all using sym by (meson linorder_neqE_nat)
qed

lemma sorted_wrt_insort:
  assumes "\<And>a b. R a b \<Longrightarrow> R b a"
  shows "sorted_wrt R (insort_key f x xs) \<longleftrightarrow> sorted_wrt R (x # xs)"
  by (induction xs) (auto simp: set_insort_key dest: assms)

lemma sorted_wrt_sort_key:
  assumes sym: "\<And>a b. R a b \<Longrightarrow> R b a"
  shows "sorted_wrt R (sort_key f xs) \<longleftrightarrow> sorted_wrt R xs"
proof (induction xs)
  case (Cons x xs)
  then show ?case by (simp add: sorted_wrt_insort [OF sym])
qed simp

lemma conflictFree_pairs: "conflictFree asg \<longleftrightarrow> sorted_wrt disjointAssignments asg"
  unfolding conflictFree_def by (rule pairs_sorted_wrt) (simp add: disjointAssignments_sym)

lemma conflictFree_sort: "conflictFree (sort_key f asg) = conflictFree asg"
  unfolding conflictFree_pairs by (rule sorted_wrt_sort_key) (simp add: disjointAssignments_sym)

lemma registersBelow_sort: "registersBelow regs (sort_key f asg) = registersBelow regs asg"
  by (simp add: registersBelow_def)

definition distinctSlots :: "IrLinearScanRegisterAssignment \<Rightarrow> IrLinearScanRegisterAssignment \<Rightarrow> bool" where
  "distinctSlots a b \<longleftrightarrow> (spilled a \<longrightarrow> spilled b \<longrightarrow> spillSlot a \<noteq> spillSlot b)"

lemma distinctSlots_sym: "distinctSlots a b \<Longrightarrow> distinctSlots b a"
  by (auto simp: distinctSlots_def)

lemma distinctSlots_pairs:
  "(\<forall>i < length asg. \<forall>j < length asg. i \<noteq> j \<longrightarrow> distinctSlots (asg ! i) (asg ! j)) \<longleftrightarrow> sorted_wrt distinctSlots asg"
  by (rule pairs_sorted_wrt) (rule distinctSlots_sym)

lemma slotsInv_pairs:
  "slotsInv n asg \<longleftrightarrow> unat n \<le> length asg \<and> (\<forall>a \<in> set asg. spilled a \<longrightarrow> spillSlot a < n) \<and> sorted_wrt distinctSlots asg"
  unfolding slotsInv_def distinctSlots_def [symmetric] distinctSlots_pairs by (rule refl)

lemma slotsInv_sort: "slotsInv n (sort_key f asg) = slotsInv n asg"
  unfolding slotsInv_pairs by (simp add: sorted_wrt_sort_key [of distinctSlots, OF distinctSlots_sym])

text \<open>The work items: one for each interval with ranges, its first start and its last end.\<close>

definition intervalExtent :: "IrVirtualRegisterInterval \<Rightarrow> IntervalWorkItem" where
  "intervalExtent iv = \<lparr>wi_virtualRegister = iv_virtualRegister iv,
     wi_startPosition = Min (startPosition ` set (ranges iv)), wi_endPosition = Max (endPosition ` set (ranges iv))\<rparr>"

lemma rangeBounds_min_max:
  "rangeBounds rs start fin = Inr (s, e) \<Longrightarrow> s = Min (insert start (startPosition ` set rs)) \<and> e = Max (insert fin (endPosition ` set rs))
     \<and> (\<forall>r \<in> set rs. startPosition r \<le> endPosition r)"
proof (induction rs arbitrary: start fin)
  case (Cons r rs)
  then have "rangeBounds rs (min start (startPosition r)) (max fin (endPosition r)) = Inr (s, e)" "startPosition r \<le> endPosition r"
    by (auto split: if_splits)
  then show ?case using Cons.IH [OF \<open>rangeBounds rs (min start (startPosition r)) (max fin (endPosition r)) = Inr (s, e)\<close>]
    by (cases "rs = []") (simp_all add: ac_simps)
qed simp

lemma rangeBounds_extent:
  assumes "rangeBounds (ranges iv) (- 1) 0 = Inr (s, e)" "ranges iv \<noteq> []"
  shows "\<lparr>wi_virtualRegister = iv_virtualRegister iv, wi_startPosition = s, wi_endPosition = e\<rparr> = intervalExtent iv" "s \<le> e"
proof -
  note b = rangeBounds_min_max [OF assms(1)]
  obtain r where r: "r \<in> set (ranges iv)" using assms(2) by (cases "ranges iv") auto
  have "s = Min (startPosition ` set (ranges iv))" "e = Max (endPosition ` set (ranges iv))"
    using b assms(2) by (auto simp: min_def max_def word_order.extremum_unique)
  then show "\<lparr>wi_virtualRegister = iv_virtualRegister iv, wi_startPosition = s, wi_endPosition = e\<rparr> = intervalExtent iv"
    by (simp add: intervalExtent_def)
  have "s \<le> startPosition r" "endPosition r \<le> e" "startPosition r \<le> endPosition r" using b r by auto
  then show "s \<le> e" by simp
qed

lemma collectWorkItems_extents:
  "collectWorkItems ivs = Inr items \<Longrightarrow> items = map intervalExtent (filter (\<lambda>iv. ranges iv \<noteq> []) ivs)
     \<and> (\<forall>w \<in> set items. wi_startPosition w \<le> wi_endPosition w)"
proof (induction ivs arbitrary: items)
  case (Cons iv ivs)
  then show ?case using rangeBounds_extent [of iv]
    by (auto simp: rbind_Inr_iff split: if_splits) (metis IntervalWorkItem.select_convs(2,3))+
qed simp

lemma sorted_starts: "sorted (map workItemKey items) \<Longrightarrow> sorted (map wi_startPosition items)"
  by (induction items) (auto simp: workItemKey_def less_eq_prod_def)

text \<open>What an allocation is made of.\<close>

lemma allocateFunction_cases:
  assumes "allocateFunctionLinearScan fl options = Inr fa" "length (intervals fl) < 2 ^ 32"
  obtains items where
    "items = sort_key workItemKey (map intervalExtent (filter (\<lambda>iv. ranges iv \<noteq> []) (intervals fl)))"
    "sorted (map wi_startPosition items)" "\<forall>w \<in> set items. wi_startPosition w \<le> wi_endPosition w" "length items < 2 ^ 32"
    "assignments fa = sort_key as_virtualRegister (sc_assignments (fold scanInterval items (startScan options)))"
    "spillSlotCount fa = nextSpillSlot (fold scanInterval items (startScan options))"
proof -
  obtain items0 where items0: "collectWorkItems (intervals fl) = Inr items0"
    and fa: "assignments fa = sort_key as_virtualRegister (sc_assignments (fold scanInterval (sort_key workItemKey items0) (startScan options)))"
      "spillSlotCount fa = nextSpillSlot (fold scanInterval (sort_key workItemKey items0) (startScan options))"
    using assms(1) by (auto simp: allocateFunctionLinearScan_def buildIntervalWorkItems_def rbind_Inr_iff Let_def split: if_splits)
  note c = collectWorkItems_extents [OF items0]
  have "length items0 < 2 ^ 32" using c assms(2) le_less_trans [OF length_filter_le] by simp
  then show ?thesis
    using c fa sorted_starts [OF sorted_sort_key] by (intro that [of "sort_key workItemKey items0"]) auto
qed

lemma startScan_simps [simp]:
  "sc_assignments (startScan options) = []" "sc_active (startScan options) = []" "nextSpillSlot (startScan options) = 0"
  "length (freeRegisters (startScan options)) = unat (physicalRegisterCount options)"
  by (simp_all add: startScan_def)

lemma allocateFunction_facts:
  assumes "allocateFunctionLinearScan fl options = Inr fa" "length (intervals fl) < 2 ^ 32"
  shows "mset (map assignedItem (assignments fa)) = mset (map intervalExtent (filter (\<lambda>iv. ranges iv \<noteq> []) (intervals fl)))
    \<and> conflictFree (assignments fa) \<and> registersBelow (physicalRegisterCount options) (assignments fa)
    \<and> slotsInv (spillSlotCount fa) (assignments fa)"
proof -
  obtain items where items: "items = sort_key workItemKey (map intervalExtent (filter (\<lambda>iv. ranges iv \<noteq> []) (intervals fl)))"
    and s: "sorted (map wi_startPosition items)" "length items < 2 ^ 32"
    and fa: "assignments fa = sort_key as_virtualRegister (sc_assignments (fold scanInterval items (startScan options)))"
      "spillSlotCount fa = nextSpillSlot (fold scanInterval items (startScan options))"
    using allocateFunction_cases [OF assms] by metis
  obtain cur where "scanInv (physicalRegisterCount options) cur (fold scanInterval items (startScan options))"
    using scan_inv [OF scanInv_start [of options 0] s(1)] s(2) by auto
  then have "conflictFree (assignments fa)" "registersBelow (physicalRegisterCount options) (assignments fa)"
    "slotsInv (spillSlotCount fa) (assignments fa)"
    by (simp_all add: fa scanInv_def conflictFree_sort registersBelow_sort slotsInv_sort)
  moreover have "mset (map assignedItem (assignments fa)) = mset (map assignedItem (sc_assignments (fold scanInterval items (startScan options))))"
    by (simp add: fa)
  ultimately show ?thesis by (simp add: scan_items items)
qed

text \<open>
  C38: linear-scan allocation is conflict free. In the allocation of a function every interval with ranges
  has exactly one assignment, which runs from its first start to its last end; two assignments that hold the
  same physical register never overlap; the registers given out are below the register count of the
  options; and two spilled intervals have different spill slots, below the slot number of the result.
\<close>

theorem allocation_conflict_free:
  assumes "allocateFunctionLinearScan fl options = Inr fa" "length (intervals fl) < 2 ^ 32"
  shows "mset (map assignedItem (assignments fa)) = mset (map intervalExtent (filter (\<lambda>iv. ranges iv \<noteq> []) (intervals fl)))
    \<and> conflictFree (assignments fa) \<and> registersBelow (physicalRegisterCount options) (assignments fa)
    \<and> slotsInv (spillSlotCount fa) (assignments fa)"
  using assms by (rule allocateFunction_facts)

text \<open>
  C39: linear-scan allocation spills only under pressure. When the allocation of a function uses a spill
  slot, more intervals than there are physical registers are occupied at one position.
\<close>

theorem spill_needs_pressure:
  assumes "allocateFunctionLinearScan fl options = Inr fa" "length (intervals fl) < 2 ^ 32" "spillSlotCount fa \<noteq> 0"
  shows "\<exists>p. unat (physicalRegisterCount options)
    < length (filter (occupies p) (map intervalExtent (filter (\<lambda>iv. ranges iv \<noteq> []) (intervals fl))))"
proof -
  obtain items where items: "items = sort_key workItemKey (map intervalExtent (filter (\<lambda>iv. ranges iv \<noteq> []) (intervals fl)))"
    and s: "sorted (map wi_startPosition items)" "\<forall>w \<in> set items. wi_startPosition w \<le> wi_endPosition w" "length items < 2 ^ 32"
    and fa: "spillSlotCount fa = nextSpillSlot (fold scanInterval items (startScan options))"
    using allocateFunction_cases [OF assms(1,2)] by metis
  have "\<exists>p. unat (physicalRegisterCount options) < length (filter (occupies p) (map assignedItem [] @ items))"
    using scan_pressure [OF scanInv_start [of options 0], of items] s assms(3) by (simp add: fa sharedOut_def)
  then obtain p where p: "unat (physicalRegisterCount options) < length (filter (occupies p) items)" by auto
  have "length (filter (occupies p) items) = size (filter_mset (occupies p) (mset items))" by (metis mset_filter size_mset)
  also have "mset items = mset (map intervalExtent (filter (\<lambda>iv. ranges iv \<noteq> []) (intervals fl)))" by (simp add: items)
  finally have "unat (physicalRegisterCount options)
      < length (filter (occupies p) (map intervalExtent (filter (\<lambda>iv. ranges iv \<noteq> []) (intervals fl))))"
    using p by (metis mset_filter size_mset)
  then show ?thesis ..
qed

section \<open>An allocation with one register\<close>

definition oneRegister :: IrLinearScanAllocatorOptions where
  "oneRegister = \<lparr>physicalRegisterCount = 1, spillPolicy = SpillFarthestEnd\<rparr>"

definition spanInterval :: "u32 \<Rightarrow> u32 \<Rightarrow> u32 \<Rightarrow> IrVirtualRegisterInterval" where
  "spanInterval r s e = \<lparr>iv_virtualRegister = r, ranges = [\<lparr>startPosition = s, endPosition = e\<rparr>]\<rparr>"

text \<open>The second interval takes the register of the first, which ends later; the third finds it free again.\<close>

definition threeIntervals :: IrVirtualRegisterFunctionLiveness where
  "threeIntervals = \<lparr>fl_functionName = ''three'', fl_blocks = [], intervals = [spanInterval 0 1 9, spanInterval 1 2 3, spanInterval 2 4 5]\<rparr>"

definition threeAllocated :: IrLinearScanFunctionAllocation where
  "threeAllocated = projr (allocateFunctionLinearScan threeIntervals oneRegister)"

lemma three_allocated:
  "allocateFunctionLinearScan threeIntervals oneRegister = Inr threeAllocated" "length (intervals threeIntervals) = 3"
  "map (\<lambda>a. (spilled a, physicalRegister a)) (assignments threeAllocated) = [(True, 0), (False, 0), (False, 0)]"
  "spillSlotCount threeAllocated = 1" "physicalRegisterCount oneRegister = 1"
  by code_simp+

theorem allocation_conflict_free_witness:
  "conflictFree (assignments threeAllocated) \<and> slotsInv 1 (assignments threeAllocated)"
  using allocation_conflict_free [OF three_allocated(1)] three_allocated(2,4) by simp

theorem spill_needs_pressure_witness:
  "\<exists>p. 1 < length (filter (occupies p) (map intervalExtent (filter (\<lambda>iv. ranges iv \<noteq> []) (intervals threeIntervals))))"
  using spill_needs_pressure [OF three_allocated(1)] three_allocated(2,4,5) by simp

end
