(* ===== verification/VrAllocation.thy ===== *)
theory VrAllocation
  imports VrAllocatorFacts
begin

text \<open>
  Lowering, liveness and allocation together: at every point of a reachable block of a lowered function the
  registers that are live there sit in different physical registers or in different spill slots.
\<close>

section \<open>Blocks of a lowered function\<close>

definition spansCode :: "IrVirtualRegisterBlock \<Rightarrow> bool" where
  "spansCode b \<longleftrightarrow> endInstructionIndex b = startInstructionIndex b + length (blockInstructions b)"

lemma blockStart_le_end:
  assumes "leadersOf f leaders" "k < length leaders"
  shows "leaders ! k \<le> blockEndOf f leaders k" "blockEndOf f leaders k \<le> length (instructions f)"
proof -
  have sorted: "sorted_wrt (<) leaders" and below: "\<forall>l \<in> set leaders. l < length (instructions f)"
    using assms(1) by (auto simp: leadersOf_def)
  have "leaders ! k < leaders ! (k + 1)" if "k + 1 < length leaders" using sorted_wrt_nth_less [OF sorted _ that, of k] by simp
  moreover have "leaders ! j < length (instructions f)" if "j < length leaders" for j using below that by simp
  ultimately show "leaders ! k \<le> blockEndOf f leaders k" "blockEndOf f leaders k \<le> length (instructions f)"
    using assms(2) by (auto simp: blockEndOf_def intro: less_imp_le)
qed

lemma lowerBlock_span:
  "lowerBlock f m blocks D entries k r = Inr (b, r') \<Longrightarrow>
     startInstructionIndex b = blockStart (blocks ! k) \<and> endInstructionIndex b = blockEnd (blocks ! k)"
  by (auto simp: lowerBlock_def Let_def rbind_Inr_iff split: if_splits prod.splits)

lemma lowered_spans:
  assumes low: "lowerFunctionToVirtualRegisters f m = Inr v" and k: "k < length (vf_blocks v)"
  shows "spansCode (vf_blocks v ! k) \<and> endInstructionIndex (vf_blocks v ! k) \<le> length (instructions f)"
proof (cases "instructions f = []")
  case True
  then show ?thesis using low k by (auto simp: lowerFunctionToVirtualRegisters_def)
next
  case False
  obtain leaders blocks D entries where lf: "leadersOf f leaders" "graphOf f leaders blocks" "loweredFrom f m v blocks D entries"
    using loweredFrom_exists [OF low False] .
  obtain r r' where b: "lowerBlock f m blocks D entries k r = Inr (vf_blocks v ! k, r')"
    using lf(3) k by (auto simp: loweredFrom_def)
  have kl: "k < length leaders" using lf k by (simp add: loweredFrom_def graphOf_def)
  have ends: "blockStart (blocks ! k) = leaders ! k" "blockEnd (blocks ! k) = blockEndOf f leaders k"
    using lf k by (simp_all add: loweredFrom_def graphOf_def)
  have "startInstructionIndex (vf_blocks v ! k) = leaders ! k" "endInstructionIndex (vf_blocks v ! k) = blockEndOf f leaders k"
    using lowerBlock_span [OF b] ends by simp_all
  moreover have "length (blockInstructions (vf_blocks v ! k)) = blockEndOf f leaders k - leaders ! k"
    using arg_cong [OF lowerBlock_instructions [OF b], of length] ends by (simp add: blockCode_def)
  ultimately show ?thesis using blockStart_le_end [OF lf(1) kl] by (simp add: spansCode_def)
qed

section \<open>Registers live at a point\<close>

text \<open>
  \<open>liveBefore v k i r\<close>: before instruction \<open>i\<close> of block \<open>k\<close> the value in \<open>r\<close> is read later, in the rest of
  the block or behind one of its edges, before it is overwritten.
\<close>

definition liveBefore :: "IrVirtualRegisterFunction \<Rightarrow> nat \<Rightarrow> nat \<Rightarrow> u32 \<Rightarrow> bool" where
  "liveBefore v k i r \<longleftrightarrow> k < length (vf_blocks v) \<and> blockReachable (vf_blocks v ! k) \<and> i \<le> length (blockInstructions (vf_blocks v ! k))
     \<and> (let rest = drop i (blockInstructions (vf_blocks v ! k)) in
        r \<in> usedFirst rest
        \<or> r \<notin> set (blockDefs rest) \<and> (\<exists>e \<in> set (successorEdges (vf_blocks v ! k)). \<exists>r'. liveInto v (successorBlockIndex e) r' \<and> r = mapThroughEdge e r'))"

text \<open>At the start of a block this is liveness into the block.\<close>

lemma liveBefore_start: "liveBefore v k 0 r \<longleftrightarrow> liveInto v k r"
proof
  show "liveBefore v k 0 r \<Longrightarrow> liveInto v k r" by (auto simp: liveBefore_def Let_def intro: liveInto.intros)
  assume "liveInto v k r"
  then show "liveBefore v k 0 r" by cases (auto simp: liveBefore_def Let_def)
qed

lemma usedFirst_append: "usedFirst (xs @ ys) = usedFirst xs \<union> (usedFirst ys - set (blockDefs xs))"
  by (induction xs) auto

lemma blockDefs_append [simp]: "blockDefs (xs @ ys) = blockDefs xs @ blockDefs ys"
  by (induction xs) auto

lemma usedFirst_index: "r \<in> usedFirst vis \<Longrightarrow> \<exists>i < length vis. r \<in> set (useRegisters (vis ! i))"
proof (induction vis)
  case (Cons vi vis)
  then show ?case by (cases "r \<in> set (useRegisters vi)") (auto intro: exI [of _ 0] exI [of _ "Suc _"])
qed simp

lemma blockDefs_index: "r \<in> set (blockDefs vis) \<Longrightarrow> \<exists>i < length vis. r \<in> set (defRegisters (vis ! i))"
proof (induction vis)
  case (Cons vi vis)
  then show ?case by (cases "r \<in> set (defRegisters vi)") (auto intro: exI [of _ 0] exI [of _ "Suc _"])
qed simp

text \<open>Back to the start of the block, or to the definition in it.\<close>

lemma liveBefore_back:
  assumes "liveBefore v k i r" "r \<notin> set (blockDefs (take i (blockInstructions (vf_blocks v ! k))))"
  shows "liveInto v k r"
proof -
  let ?code = "blockInstructions (vf_blocks v ! k)"
  have "usedFirst ?code = usedFirst (take i ?code) \<union> (usedFirst (drop i ?code) - set (blockDefs (take i ?code)))"
    using usedFirst_append [of "take i ?code" "drop i ?code"] by simp
  moreover have "blockDefs ?code = blockDefs (take i ?code) @ blockDefs (drop i ?code)"
    using blockDefs_append [of "take i ?code" "drop i ?code"] by simp
  ultimately show ?thesis using assms unfolding liveBefore_start [symmetric] by (auto simp: liveBefore_def Let_def)
qed

section \<open>Live registers and intervals\<close>

definition pointPosition :: "IrVirtualRegisterBlock \<Rightarrow> nat \<Rightarrow> u32" where
  "pointPosition b i =
     (if i < length (blockInstructions b) then (of_nat (startInstructionIndex b) + of_nat i) * 2 else blockEndPosition b)"

lemma unat_position:
  assumes "n < 2 ^ 31"
  shows "unat (of_nat n * 2 :: u32) = 2 * n" "unat (of_nat n * 2 + 1 :: u32) = 2 * n + 1"
proof -
  have "of_nat n * 2 = (of_nat (2 * n) :: u32)" "of_nat n * 2 + 1 = (of_nat (2 * n + 1) :: u32)" by simp_all
  then show "unat (of_nat n * 2 :: u32) = 2 * n" "unat (of_nat n * 2 + 1 :: u32) = 2 * n + 1"
    using assms unat_register [of "2 * n"] unat_register [of "2 * n + 1"] by (simp_all del: of_nat_mult of_nat_add of_nat_Suc)
qed

lemma positions_unat:
  assumes "spansCode b" "endInstructionIndex b < 2 ^ 31" "i < length (blockInstructions b)"
  shows "unat ((of_nat (startInstructionIndex b) + of_nat i) * 2 :: u32) = 2 * (startInstructionIndex b + i)"
    "unat ((of_nat (startInstructionIndex b) + of_nat i) * 2 + 1 :: u32) = 2 * (startInstructionIndex b + i) + 1"
    "unat (blockStartPosition b) = 2 * startInstructionIndex b"
    "unat (blockEndPosition b) = 2 * endInstructionIndex b - 1"
proof -
  have lt: "startInstructionIndex b + i < 2 ^ 31" "endInstructionIndex b - 1 < 2 ^ 31" "endInstructionIndex b \<noteq> startInstructionIndex b"
    "endInstructionIndex b \<ge> 1" using assms by (auto simp: spansCode_def)
  show "unat ((of_nat (startInstructionIndex b) + of_nat i) * 2 :: u32) = 2 * (startInstructionIndex b + i)"
    "unat ((of_nat (startInstructionIndex b) + of_nat i) * 2 + 1 :: u32) = 2 * (startInstructionIndex b + i) + 1"
    using unat_position [OF lt(1)] by (simp_all only: of_nat_add)
  show "unat (blockStartPosition b) = 2 * startInstructionIndex b"
    using unat_position(1) [of "startInstructionIndex b"] lt(1) by (simp add: blockStartPosition_def)
  have "(of_nat (endInstructionIndex b) - 1 :: u32) = of_nat (endInstructionIndex b - 1)" using lt(4) by (simp add: of_nat_diff)
  then show "unat (blockEndPosition b) = 2 * endInstructionIndex b - 1"
    using unat_position(2) [OF lt(2)] lt(3,4) by (simp add: blockEndPosition_def)
qed

text \<open>Two noted positions of a register have everything between them in its interval.\<close>

lemma interval_between:
  assumes ivs: "buildIntervals v lv = Inr ivs" and b: "(b, bl) \<in> set (zip (vf_blocks v) lv)" "blockReachable b"
    and p: "(r, p) \<in> positionsIn b bl" "(r, q) \<in> positionsIn b bl" "p \<le> x" "x \<le> q"
  shows "\<exists>iv \<in> set ivs. iv_virtualRegister iv = r \<and> rangeOf iv x"
proof -
  note I = buildIntervals_facts [OF ivs]
  obtain iv iv' where iv: "iv \<in> set ivs" "iv_virtualRegister iv = r" "rangeOf iv p"
    and iv': "iv' \<in> set ivs" "iv_virtualRegister iv' = r" "rangeOf iv' q" using I(4) [OF b] p(1,2) by blast
  have "iv' = iv" using I(1) iv iv' by (auto simp: distinct_map inj_on_def)
  then have "rangeOf iv x" using iv iv' I(3) p(3,4) by (fastforce simp: rangeOf_def)
  then show ?thesis using iv by blast
qed

lemma liveBefore_interval:
  assumes lv: "computeBlockLiveness v = Some (Inr lv)" and ivs: "buildIntervals v lv = Inr ivs"
    and span: "spansCode (vf_blocks v ! k)" "endInstructionIndex (vf_blocks v ! k) < 2 ^ 31"
    and alive: "liveBefore v k i r"
  shows "\<exists>iv \<in> set ivs. iv_virtualRegister iv = r \<and> rangeOf iv (pointPosition (vf_blocks v ! k) i)"
proof -
  let ?b = "vf_blocks v ! k" and ?bl = "lv ! k"
  let ?code = "blockInstructions ?b" and ?at = "\<lambda>i. (of_nat (startInstructionIndex ?b) + of_nat i) * 2 :: u32"
  have k: "k < length (vf_blocks v)" and reach: "blockReachable ?b" and i: "i \<le> length ?code" using alive by (auto simp: liveBefore_def)
  note ex = computeBlockLiveness_exact [OF lv]
  have len: "length lv = length (vf_blocks v)" using ex by blast
  have ins: "r \<in> set (liveInRegisters ?bl) \<longleftrightarrow> liveInto v k r" and
    outs: "r \<in> set (liveOutRegisters ?bl) \<longleftrightarrow> (\<exists>e \<in> set (successorEdges ?b). \<exists>r'. liveInto v (successorBlockIndex e) r' \<and> r = mapThroughEdge e r')"
    for r using ex k reach len by auto
  have zip: "(?b, ?bl) \<in> set (zip (vf_blocks v) lv)" using k len by (auto simp: set_zip)
  note between = interval_between [OF ivs zip reach]
  show ?thesis
  proof (cases "i = length ?code")
    case True
    then have "r \<in> set (liveOutRegisters ?bl)" using alive outs by (auto simp: liveBefore_def Let_def)
    then have "(r, blockEndPosition ?b) \<in> positionsIn ?b ?bl" by (simp add: positionsIn_def)
    then show ?thesis using between [OF _ _ order.refl order.refl] True by (simp add: pointPosition_def)
  next
    case False
    then have il: "i < length ?code" using i by simp
    note pos = positions_unat [OF span]
    have "\<exists>p. (r, p) \<in> positionsIn ?b ?bl \<and> p \<le> ?at i"
    proof (cases "r \<in> set (blockDefs (take i ?code))")
      case True
      then obtain j where j: "j < i" "r \<in> set (defRegisters (?code ! j))" using blockDefs_index [OF True] il by auto
      then have "(r, ?at j + 1) \<in> positionsIn ?b ?bl" using il by (auto simp: positionsIn_def)
      moreover have "?at j + 1 \<le> ?at i" using pos(2) [of j] pos(1) [OF il] j il unfolding word_le_nat_alt by simp
      ultimately show ?thesis by blast
    next
      case False
      then have "(r, blockStartPosition ?b) \<in> positionsIn ?b ?bl" using liveBefore_back [OF alive] ins by (simp add: positionsIn_def)
      moreover have "blockStartPosition ?b \<le> ?at i" using pos(1,3) [OF il] unfolding word_le_nat_alt by simp
      ultimately show ?thesis by blast
    qed
    moreover have "\<exists>q. (r, q) \<in> positionsIn ?b ?bl \<and> ?at i \<le> q"
    proof (cases "r \<in> usedFirst (drop i ?code)")
      case True
      then obtain j where j: "j < length (drop i ?code)" "r \<in> set (useRegisters (drop i ?code ! j))" using usedFirst_index by blast
      then have "(r, ?at (i + j)) \<in> positionsIn ?b ?bl" using il by (fastforce simp: positionsIn_def)
      moreover have "?at i \<le> ?at (i + j)" using pos(1) [OF il] pos(1) [of "i + j"] j(1) unfolding word_le_nat_alt by simp
      ultimately show ?thesis by blast
    next
      case False
      then have "(r, blockEndPosition ?b) \<in> positionsIn ?b ?bl" using alive outs by (auto simp: liveBefore_def Let_def positionsIn_def)
      moreover have "?at i \<le> blockEndPosition ?b" using pos(1,4) [OF il] il span(1) unfolding word_le_nat_alt spansCode_def by simp
      ultimately show ?thesis by blast
    qed
    ultimately show ?thesis using between il by (auto simp: pointPosition_def)
  qed
qed

section \<open>Live registers are kept apart\<close>

definition keptApart :: "IrLinearScanRegisterAssignment \<Rightarrow> IrLinearScanRegisterAssignment \<Rightarrow> bool" where
  "keptApart a b \<longleftrightarrow> (\<not> spilled a \<and> \<not> spilled b \<longrightarrow> physicalRegister a \<noteq> physicalRegister b)
     \<and> (spilled a \<and> spilled b \<longrightarrow> spillSlot a \<noteq> spillSlot b)"

lemma functionLiveness_Inr:
  "functionLiveness v = Some (Inr fl) \<Longrightarrow> \<exists>lv. computeBlockLiveness v = Some (Inr lv) \<and> buildIntervals v lv = Inr (intervals fl)"
  by (auto simp: functionLiveness_def inFunction_def rbind_Inr_iff split: option.splits sum.splits)

text \<open>The assignment of an interval that covers a position.\<close>

lemma interval_assigned:
  assumes ivs: "buildIntervals v lv = Inr (intervals fl)" and alloc: "allocateFunctionLinearScan fl options = Inr fa"
    and iv: "iv \<in> set (intervals fl)" "rangeOf iv p"
  shows "\<exists>j < length (assignments fa). as_virtualRegister (assignments fa ! j) = iv_virtualRegister iv
     \<and> as_startPosition (assignments fa ! j) \<le> p \<and> p \<le> as_endPosition (assignments fa ! j)"
proof -
  note I = buildIntervals_facts [OF ivs]
  note A = allocateFunction_facts [OF alloc I(2)]
  obtain rg where rg: "ranges iv = [rg]" using I(3) iv(1) by blast
  have "set (map assignedItem (assignments fa)) = set (map intervalExtent (filter (\<lambda>iv. ranges iv \<noteq> []) (intervals fl)))"
    using A by (metis mset_eq_setD)
  then have "intervalExtent iv \<in> set (map assignedItem (assignments fa))" using iv(1) rg by auto
  then obtain j where j: "j < length (assignments fa)" "intervalExtent iv = assignedItem (assignments fa ! j)"
    by (auto simp: in_set_conv_nth)
  moreover have "startPosition rg \<le> p" "p \<le> endPosition rg" using iv(2) rg by (auto simp: rangeOf_def)
  ultimately show ?thesis using rg by (intro exI [of _ j]) (simp add: intervalExtent_def assignedItem_def)
qed

text \<open>
  C34: Live registers are kept apart. Lower a function, compute its liveness and allocate registers:
  if two different virtual registers are both live at one point of a block, each has an assignment, and
  the two are in different physical registers, in different spill slots, or one in a register and one in
  a slot; and no register has two assignments.
\<close>

theorem live_registers_kept_apart:
  assumes "lowerFunctionToVirtualRegisters f m = Inr v" "length (instructions f) < 2 ^ 31"
    and "functionLiveness v = Some (Inr fl)" "allocateFunctionLinearScan fl options = Inr fa"
    and "liveBefore v k i r1" "liveBefore v k i r2" "r1 \<noteq> r2"
  shows "distinct (map as_virtualRegister (assignments fa))
    \<and> (\<exists>a \<in> set (assignments fa). \<exists>b \<in> set (assignments fa). as_virtualRegister a = r1 \<and> as_virtualRegister b = r2 \<and> keptApart a b)"
proof -
  let ?as = "assignments fa"
  obtain lv where lv: "computeBlockLiveness v = Some (Inr lv)" and ivs: "buildIntervals v lv = Inr (intervals fl)"
    using functionLiveness_Inr [OF assms(3)] by blast
  note I = buildIntervals_facts [OF ivs]
  note A = allocateFunction_facts [OF assms(4) I(2)]
  have k: "k < length (vf_blocks v)" using assms(5) by (simp add: liveBefore_def)
  have span: "spansCode (vf_blocks v ! k)" "endInstructionIndex (vf_blocks v ! k) < 2 ^ 31"
    using lowered_spans [OF assms(1) k] assms(2) by auto
  have found: "\<exists>j < length ?as. as_virtualRegister (?as ! j) = r \<and> as_startPosition (?as ! j) \<le> pointPosition (vf_blocks v ! k) i
      \<and> pointPosition (vf_blocks v ! k) i \<le> as_endPosition (?as ! j)" if "liveBefore v k i r" for r
    using liveBefore_interval [OF lv ivs span that] interval_assigned [OF ivs assms(4)] by blast
  obtain j1 where j1: "j1 < length ?as" "as_virtualRegister (?as ! j1) = r1" "as_startPosition (?as ! j1) \<le> pointPosition (vf_blocks v ! k) i"
    "pointPosition (vf_blocks v ! k) i \<le> as_endPosition (?as ! j1)" using found [OF assms(5)] by blast
  obtain j2 where j2: "j2 < length ?as" "as_virtualRegister (?as ! j2) = r2" "as_startPosition (?as ! j2) \<le> pointPosition (vf_blocks v ! k) i"
    "pointPosition (vf_blocks v ! k) i \<le> as_endPosition (?as ! j2)" using found [OF assms(6)] by blast
  have ne: "j1 \<noteq> j2" using j1(2) j2(2) assms(7) by auto
  have "disjointAssignments (?as ! j1) (?as ! j2)" using A j1(1) j2(1) ne unfolding conflictFree_def by blast
  then have "\<not> spilled (?as ! j1) \<and> \<not> spilled (?as ! j2) \<longrightarrow> physicalRegister (?as ! j1) \<noteq> physicalRegister (?as ! j2)"
    using j1 j2 by (auto simp: disjointAssignments_def)
  moreover have "spilled (?as ! j1) \<and> spilled (?as ! j2) \<longrightarrow> spillSlot (?as ! j1) \<noteq> spillSlot (?as ! j2)"
    using A j1(1) j2(1) ne unfolding slotsInv_def by blast
  ultimately have apart: "keptApart (?as ! j1) (?as ! j2)" by (simp add: keptApart_def)
  have "mset (map as_virtualRegister ?as) = image_mset wi_virtualRegister (mset (map assignedItem ?as))"
    by (simp add: multiset.map_comp comp_def assignedItem_def)
  also have "\<dots> = mset (map iv_virtualRegister (filter (\<lambda>iv. ranges iv \<noteq> []) (intervals fl)))"
    using A by (simp add: multiset.map_comp comp_def intervalExtent_def)
  finally have "distinct (map as_virtualRegister ?as)"
    using I(1) distinct_map_filter by (metis mset_eq_imp_distinct_iff)
  then show ?thesis using apart j1(1,2) j2(1,2) nth_mem by blast
qed

text \<open>A sum, allocated to one register: both operands are live before the addition.\<close>

definition sumCode :: IrFunction where
  "sumCode = sampleFunction ''sum'' [sampleInst PushI32 1, sampleInst PushI32 2, sampleInst AddI32 0, sampleInst ReturnI32 0]"

definition sumLowered :: IrVirtualRegisterFunction where
  "sumLowered = projr (lowerFunctionToVirtualRegisters sumCode sampleModule)"

definition sumLiveness :: IrVirtualRegisterFunctionLiveness where
  "sumLiveness = projr (the (functionLiveness sumLowered))"

definition sumAllocated :: IrLinearScanFunctionAllocation where
  "sumAllocated = projr (allocateFunctionLinearScan sumLiveness oneRegister)"

lemma sum_allocated:
  "lowerFunctionToVirtualRegisters sumCode sampleModule = Inr sumLowered"
  "functionLiveness sumLowered = Some (Inr sumLiveness)"
  "allocateFunctionLinearScan sumLiveness oneRegister = Inr sumAllocated"
  "length (instructions sumCode) = 4" "length (vf_blocks sumLowered) = 1" "blockReachable (vf_blocks sumLowered ! 0)"
  "map useRegisters (drop 2 (blockInstructions (vf_blocks sumLowered ! 0))) = [[0, 1], [2]]"
  by code_simp+

lemma sum_alive: "liveBefore sumLowered 0 2 0 \<and> liveBefore sumLowered 0 2 1"
proof -
  obtain vi vis where code: "drop 2 (blockInstructions (vf_blocks sumLowered ! 0)) = vi # vis" "useRegisters vi = [0, 1]"
    using sum_allocated(7) by (cases "drop 2 (blockInstructions (vf_blocks sumLowered ! 0))") auto
  have "2 \<le> length (blockInstructions (vf_blocks sumLowered ! 0))"
    using arg_cong [OF sum_allocated(7), of length] by simp
  then show ?thesis using sum_allocated(5,6) code by (simp add: liveBefore_def)
qed

theorem live_registers_kept_apart_witness:
  "\<exists>a \<in> set (assignments sumAllocated). \<exists>b \<in> set (assignments sumAllocated).
     as_virtualRegister a = 0 \<and> as_virtualRegister b = 1 \<and> keptApart a b"
  using live_registers_kept_apart [OF sum_allocated(1) _ sum_allocated(2,3), of 0 2 0 1]
    sum_allocated(4) sum_alive by simp

end
